theory Spec2Isabelle
  imports Complex_Main "HOL-Library.Log_Nat"
begin

section \<open>JavaScript values\<close>

text \<open>
  The viewer is JavaScript. A Number that is finite is modelled by its rational value; the
  three non-finite Numbers are separate constructors. The sign of zero is not modelled:
  \<open>Fin 0\<close> stands for both zeros. The column width, the overflow test and \<^verbatim>\<open>parseInt\<close>
  compute with the double arithmetic below; the number formatter multiplies by 100 and
  converts a date serial on the rationals.
\<close>

datatype jsnum = Fin rat | NaN | PosInf | NegInf

subsection \<open>Double arithmetic\<close>

text \<open>
  The result of an operation on IEEE 754 doubles is the double nearest to the exact
  result, the one with the even significand at a tie, and an infinity from
  \<open>2^1024 - 2^970\<close> on. \<open>floorLog2 x\<close> is the binade \<open>e\<close> of a positive \<open>x\<close>, with
  \<open>2^e \<le> x < 2^(e+1)\<close>. The doubles of the binade \<open>e\<close> are the multiples of \<open>2^(e-52)\<close>; below
  \<open>2^-1022\<close> they are the multiples of \<open>2^-1074\<close>. \<open>roundEven\<close> rounds to the nearest integer,
  \<open>roundMag\<close> a positive value to the nearest multiple of its binade, and \<open>roundD\<close> is the
  Number for a rational value.
\<close>

definition floorLog2 :: "rat \<Rightarrow> int" where
  "floorLog2 x = (if 1 \<le> x then bitlen \<lfloor>x\<rfloor> - 1 else - bitlen (\<lceil>1 / x\<rceil> - 1))"

definition roundEven :: "rat \<Rightarrow> int" where
  "roundEven m =
     (let f = \<lfloor>m\<rfloor>; r = m - of_int f
      in if r < 1 / 2 then f else if 1 / 2 < r then f + 1 else if even f then f else f + 1)"

definition roundMag :: "rat \<Rightarrow> rat" where
  "roundMag a =
     (let e = max (floorLog2 a) (- 1022);
          q = 2 powi (e - 52)
      in of_int (roundEven (a / q)) * q)"

definition roundD :: "rat \<Rightarrow> jsnum" where
  "roundD x =
     (if x = 0 then Fin 0
      else
        (let r = roundMag \<bar>x\<bar>
         in if 2 powi 1024 \<le> r then (if 0 < x then PosInf else NegInf)
            else Fin (if 0 < x then r else - r)))"

text \<open>
  The operators \<^verbatim>\<open>-x\<close>, \<^verbatim>\<open>+\<close>, \<^verbatim>\<open>-\<close>, \<^verbatim>\<open>*\<close> and \<^verbatim>\<open>/\<close>, \<^verbatim>\<open>Math.floor\<close> and \<^verbatim>\<open>Math.max\<close>, and
  the comparisons \<^verbatim>\<open><=\<close> and \<^verbatim>\<open><\<close>, with their rules for NaN and the infinities. The floor of
  a double is a double. A zero divisor counts as \<open>+0\<close>; no division of the code has one.
\<close>

fun dneg :: "jsnum \<Rightarrow> jsnum" where
  "dneg (Fin x) = Fin (- x)"
| "dneg NaN = NaN"
| "dneg PosInf = NegInf"
| "dneg NegInf = PosInf"

fun dadd :: "jsnum \<Rightarrow> jsnum \<Rightarrow> jsnum" where
  "dadd (Fin x) (Fin y) = roundD (x + y)"
| "dadd NaN b = NaN"
| "dadd a NaN = NaN"
| "dadd PosInf NegInf = NaN"
| "dadd NegInf PosInf = NaN"
| "dadd PosInf b = PosInf"
| "dadd NegInf b = NegInf"
| "dadd a PosInf = PosInf"
| "dadd a NegInf = NegInf"

definition dsub :: "jsnum \<Rightarrow> jsnum \<Rightarrow> jsnum" where
  "dsub a b = dadd a (dneg b)"

fun dmul :: "jsnum \<Rightarrow> jsnum \<Rightarrow> jsnum" where
  "dmul (Fin x) (Fin y) = roundD (x * y)"
| "dmul NaN b = NaN"
| "dmul a NaN = NaN"
| "dmul (Fin x) b = (if x = 0 then NaN else if 0 < x then b else dneg b)"
| "dmul a (Fin y) = (if y = 0 then NaN else if 0 < y then a else dneg a)"
| "dmul PosInf b = b"
| "dmul NegInf b = dneg b"

fun ddiv :: "jsnum \<Rightarrow> jsnum \<Rightarrow> jsnum" where
  "ddiv (Fin x) (Fin y) =
     (if y = 0 then (if x = 0 then NaN else if 0 < x then PosInf else NegInf)
      else roundD (x / y))"
| "ddiv NaN b = NaN"
| "ddiv a NaN = NaN"
| "ddiv (Fin x) b = Fin 0"
| "ddiv a (Fin y) = (if 0 \<le> y then a else dneg a)"
| "ddiv a b = NaN"

fun dfloor :: "jsnum \<Rightarrow> jsnum" where
  "dfloor (Fin x) = Fin (of_int \<lfloor>x\<rfloor>)"
| "dfloor a = a"

fun js_max :: "jsnum \<Rightarrow> jsnum \<Rightarrow> jsnum" where
  "js_max NaN b = NaN"
| "js_max a NaN = NaN"
| "js_max PosInf b = PosInf"
| "js_max a PosInf = PosInf"
| "js_max NegInf b = b"
| "js_max a NegInf = a"
| "js_max (Fin x) (Fin y) = Fin (max x y)"

fun js_le :: "jsnum \<Rightarrow> jsnum \<Rightarrow> bool" where
  "js_le NaN b = False"
| "js_le a NaN = False"
| "js_le NegInf b = True"
| "js_le a PosInf = True"
| "js_le (Fin x) (Fin y) = (x \<le> y)"
| "js_le PosInf b = False"
| "js_le a NegInf = False"

fun js_lt :: "jsnum \<Rightarrow> jsnum \<Rightarrow> bool" where
  "js_lt NaN b = False"
| "js_lt a NaN = False"
| "js_lt (Fin x) (Fin y) = (x < y)"
| "js_lt PosInf b = False"
| "js_lt a NegInf = False"
| "js_lt NegInf b = True"
| "js_lt a PosInf = True"

text \<open>A Number that is zero, positive or \<open>+Infinity\<close>.\<close>

fun nonNegative :: "jsnum \<Rightarrow> bool" where
  "nonNegative (Fin x) = (0 \<le> x)"
| "nonNegative PosInf = True"
| "nonNegative a = False"

section \<open>Column width\<close>

text \<open>
  \<^verbatim>\<open>measureMaxDigitWidth\<close>: the widest of the ten digit glyphs as the canvas measures
  them, starting from \<open>max = 0\<close>; \<^verbatim>\<open>return max || 7\<close>.
\<close>

definition measureMaxDigitWidth :: "rat list \<Rightarrow> rat" where
  "measureMaxDigitWidth digitWidths =
     (let mx = foldl (\<lambda>mx w. if w > mx then w else mx) 0 digitWidths
      in if mx = 0 then 7 else mx)"

text \<open>
  \<^verbatim>\<open>calcColumnWidthPx(excelWidth)\<close>, with the module variable \<^verbatim>\<open>currentMDW\<close> as first
  argument. A non-finite width gives 64; \<^verbatim>\<open>currentMDW || 7\<close> replaces a zero MDW by 7.
  Every operation of the expression for \<^verbatim>\<open>pixels\<close> rounds its result.
\<close>

definition calcColumnWidthPx :: "rat \<Rightarrow> jsnum \<Rightarrow> jsnum" where
  "calcColumnWidthPx currentMDW excelWidth =
     (case excelWidth of
        Fin w \<Rightarrow>
          (let mdw = (if currentMDW = 0 then 7 else currentMDW)
           in if w \<le> 0 then Fin 0
              else dadd (dfloor (dmul (ddiv (dadd (dmul (Fin 256) (Fin w))
                                                   (dfloor (ddiv (Fin 128) (Fin mdw))))
                                             (Fin 256))
                                       (Fin mdw)))
                        (Fin 5))
      | _ \<Rightarrow> Fin 64)"

subsection \<open>The formula in the words of the specification\<close>

text \<open>
  \<open>floor(((256 w + floor(128 / mdw)) / 256) mdw) + 5\<close>, once with the exact value of every
  operation and once with every operation on doubles.
\<close>

definition widthFormulaExact :: "rat \<Rightarrow> rat \<Rightarrow> int" where
  "widthFormulaExact mdw w = \<lfloor>((256 * w + of_int \<lfloor>128 / mdw\<rfloor>) / 256) * mdw\<rfloor> + 5"

definition widthFormulaDouble :: "rat \<Rightarrow> rat \<Rightarrow> jsnum" where
  "widthFormulaDouble mdw w =
     (let floorPart = dfloor (ddiv (Fin 128) (Fin mdw));
          scaled = ddiv (dadd (dmul (Fin 256) (Fin w)) floorPart) (Fin 256)
      in dadd (dfloor (dmul scaled (Fin mdw))) (Fin 5))"

section \<open>Host functions of the language\<close>

text \<open>
  \<^verbatim>\<open>parseInt(string)\<close> without a radix, after ECMA-262: leading white space is skipped,
  one sign is read, a prefix \<^verbatim>\<open>0x\<close> or \<^verbatim>\<open>0X\<close> selects radix 16, and the longest run of
  digits of the radix is read. \<open>js_parseInt\<close> is the signed integer that the digits denote,
  and \<open>None\<close> with no digit, where \<^verbatim>\<open>parseInt\<close> returns NaN. Strings are lists of 8-bit
  characters, the code units U+0000 to U+00FF; the white space of ECMA-262 in this range
  is the six ASCII characters and the no-break space U+00A0.
\<close>

type_synonym jsint = "int option"

definition isStrWhiteSpace :: "char \<Rightarrow> bool" where
  "isStrWhiteSpace ch \<longleftrightarrow>
     ch \<in> set [CHR '' '', CHR 0x09, CHR 0x0A, CHR 0x0B, CHR 0x0C, CHR 0x0D, CHR 0xA0]"

definition digitVal :: "char \<Rightarrow> nat option" where
  "digitVal ch =
     (let n = (of_char ch :: nat)
      in if 48 \<le> n \<and> n \<le> 57 then Some (n - 48)
         else if 97 \<le> n \<and> n \<le> 122 then Some (n - 87)
         else if 65 \<le> n \<and> n \<le> 90 then Some (n - 55)
         else None)"

definition isRadixDigit :: "nat \<Rightarrow> char \<Rightarrow> bool" where
  "isRadixDigit R ch = (case digitVal ch of None \<Rightarrow> False | Some d \<Rightarrow> d < R)"

definition digitsValue :: "nat \<Rightarrow> string \<Rightarrow> nat" where
  "digitsValue R z =
     foldl (\<lambda>acc ch. acc * R + (case digitVal ch of None \<Rightarrow> 0 | Some d \<Rightarrow> d)) 0 z"

definition js_parseInt :: "string \<Rightarrow> jsint" where
  "js_parseInt s =
     (let s1 = dropWhile isStrWhiteSpace s;
          neg = (take 1 s1 = ''-'');
          s2 = (if take 1 s1 = ''-'' \<or> take 1 s1 = ''+'' then drop 1 s1 else s1);
          hex = (take 2 s2 = ''0x'' \<or> take 2 s2 = ''0X'');
          R = (if hex then 16 else 10);
          s3 = (if hex then drop 2 s2 else s2);
          z = takeWhile (isRadixDigit R) s3
      in if z = [] then None
         else Some ((if neg then - 1 else 1) * int (digitsValue R z)))"

subsection \<open>\<^verbatim>\<open>parseInt\<close> on UTF-16 code units\<close>

text \<open>
  A string of the language is a sequence of UTF-16 code units; \<open>unitsOf\<close> gives the code
  units of an 8-bit string. The white space that \<^verbatim>\<open>parseInt\<close> skips is \<^verbatim>\<open>StrWhiteSpaceChar\<close> of
  ECMA-262: TAB, LF, VT, FF, CR, SP, the no-break space U+00A0, U+1680, U+2000 to U+200A,
  the line and paragraph separators U+2028 and U+2029, U+202F, U+205F, U+3000 and U+FEFF.
  \<open>parseIntUnits\<close> is the signed integer that the digits denote, and \<open>parseIntNumber\<close> the
  Number that \<^verbatim>\<open>parseInt\<close> returns, the double nearest to this integer (every digit counts;
  ECMA-262 allows an implementation to read the decimal digits after the twentieth as
  zeros).
\<close>

type_synonym codeUnits = "int list"

definition unitsOf :: "string \<Rightarrow> codeUnits" where
  "unitsOf s = map of_char s"

definition isWhiteSpaceUnit :: "int \<Rightarrow> bool" where
  "isWhiteSpaceUnit u \<longleftrightarrow>
     u \<in> set [0x09, 0x0A, 0x0B, 0x0C, 0x0D, 0x20, 0xA0, 0x1680, 0x2028, 0x2029, 0x202F,
               0x205F, 0x3000, 0xFEFF] \<or>
     (0x2000 \<le> u \<and> u \<le> 0x200A)"

definition unitDigitVal :: "int \<Rightarrow> nat option" where
  "unitDigitVal u =
     (if 48 \<le> u \<and> u \<le> 57 then Some (nat (u - 48))
      else if 97 \<le> u \<and> u \<le> 122 then Some (nat (u - 87))
      else if 65 \<le> u \<and> u \<le> 90 then Some (nat (u - 55))
      else None)"

definition isRadixDigitUnit :: "nat \<Rightarrow> int \<Rightarrow> bool" where
  "isRadixDigitUnit R u = (case unitDigitVal u of None \<Rightarrow> False | Some d \<Rightarrow> d < R)"

definition unitsValue :: "nat \<Rightarrow> codeUnits \<Rightarrow> nat" where
  "unitsValue R z =
     foldl (\<lambda>acc u. acc * R + (case unitDigitVal u of None \<Rightarrow> 0 | Some d \<Rightarrow> d)) 0 z"

definition parseIntUnits :: "codeUnits \<Rightarrow> jsint" where
  "parseIntUnits s =
     (let s1 = dropWhile isWhiteSpaceUnit s;
          neg = (take 1 s1 = unitsOf ''-'');
          s2 = (if take 1 s1 = unitsOf ''-'' \<or> take 1 s1 = unitsOf ''+'' then drop 1 s1 else s1);
          hex = (take 2 s2 = unitsOf ''0x'' \<or> take 2 s2 = unitsOf ''0X'');
          R = (if hex then 16 else 10);
          s3 = (if hex then drop 2 s2 else s2);
          z = takeWhile (isRadixDigitUnit R) s3
      in if z = [] then None
         else Some ((if neg then - 1 else 1) * int (unitsValue R z)))"

definition parseIntNumber :: "codeUnits \<Rightarrow> jsnum" where
  "parseIntNumber s = (case parseIntUnits s of None \<Rightarrow> NaN | Some n \<Rightarrow> roundD (of_int n))"

text \<open>\<^verbatim>\<open>parseInt(a)\<close> of an attribute that may be absent: \<^verbatim>\<open>parseInt(null)\<close> is NaN.\<close>

definition parseIntAttr :: "string option \<Rightarrow> jsint" where
  "parseIntAttr a = (case a of None \<Rightarrow> None | Some s \<Rightarrow> js_parseInt s)"

text \<open>\<^verbatim>\<open>x || 0\<close> on a Number: NaN and zero are falsy.\<close>

definition orZero :: "jsnum \<Rightarrow> jsnum" where
  "orZero x = (if x = NaN \<or> x = Fin 0 then Fin 0 else x)"

text \<open>
  Reading \<^verbatim>\<open>xs[i]\<close> where \<open>i\<close> came from \<^verbatim>\<open>parseInt\<close>: \<^verbatim>\<open>undefined\<close> out of range. An index,
  a row number and a column number are kept as the integer that was read, which is the
  value of the Number below \<open>2^53\<close> in magnitude.
\<close>

definition js_index :: "'a list \<Rightarrow> jsint \<Rightarrow> 'a option" where
  "js_index xs i =
     (case i of
        None \<Rightarrow> None
      | Some n \<Rightarrow> if 0 \<le> n \<and> n < int (length xs) then Some (xs ! nat n) else None)"

text \<open>A string is truthy when it is not empty; \<^verbatim>\<open>null\<close> and \<^verbatim>\<open>undefined\<close> are falsy.\<close>

definition truthyStr :: "string option \<Rightarrow> bool" where
  "truthyStr a = (case a of None \<Rightarrow> False | Some s \<Rightarrow> s \<noteq> [])"

section \<open>Freeze panes\<close>

text \<open>
  The first \<^verbatim>\<open>pane\<close> element under a \<^verbatim>\<open>sheetView\<close>, with the three attributes that
  \<^verbatim>\<open>parseFreezePanes\<close> reads, as code units; the document is modelled by this element, if
  any.
\<close>

record pane =
  state :: "codeUnits option"
  ySplit :: "codeUnits option"
  xSplit :: "codeUnits option"

record freezeInfo =
  frozenRows :: jsnum
  frozenCols :: jsnum
  isFrozen :: bool

text \<open>
  \<^verbatim>\<open>parseFreezePanes(doc)\<close>. The counts are Numbers: \<^verbatim>\<open>parseInt(ySplit) || 0\<close> is stored as
  it is.
\<close>

definition parseFreezePanes :: "pane option \<Rightarrow> freezeInfo" where
  "parseFreezePanes doc =
     (let result = \<lparr>frozenRows = Fin 0, frozenCols = Fin 0, isFrozen = False\<rparr>
      in case doc of
           None \<Rightarrow> result
         | Some p \<Rightarrow>
             if state p \<noteq> Some (unitsOf ''frozen'') \<and> state p \<noteq> Some (unitsOf ''frozenSplit'')
             then result
             else
               (let r1 = result\<lparr>isFrozen := True\<rparr>;
                    r2 = (case ySplit p of
                            None \<Rightarrow> r1
                          | Some y \<Rightarrow>
                              if y \<noteq> [] then r1\<lparr>frozenRows := orZero (parseIntNumber y)\<rparr>
                              else r1);
                    r3 = (case xSplit p of
                            None \<Rightarrow> r2
                          | Some x \<Rightarrow>
                              if x \<noteq> [] then r2\<lparr>frozenCols := orZero (parseIntNumber x)\<rparr>
                              else r2)
                in r3))"

subsection \<open>The counts in the words of the specification\<close>

text \<open>
  The count that an attribute \<^verbatim>\<open>ySplit\<close> or \<^verbatim>\<open>xSplit\<close> stands for: what \<^verbatim>\<open>parseInt\<close> reads
  from it, and 0 when the attribute is absent or empty or when \<^verbatim>\<open>parseInt\<close> reads NaN or 0.
\<close>

definition splitCount :: "codeUnits option \<Rightarrow> jsnum" where
  "splitCount a =
     (case a of
        None \<Rightarrow> Fin 0
      | Some s \<Rightarrow>
          if s = [] then Fin 0
          else if parseIntNumber s = NaN then Fin 0
          else parseIntNumber s)"

section \<open>Style tables\<close>

record alignment =
  horizontal :: "string option"
  vertical :: "string option"
  wrapText :: bool
  shrinkToFit :: bool
  textRotation :: int
  indent :: int

text \<open>An entry of \<^verbatim>\<open>cellStyleXfs\<close>: only its alignment is kept.\<close>

record baseXf =
  baseAlignment :: "alignment option"

text \<open>
  An entry of \<^verbatim>\<open>cellXfs\<close>. \<open>xfId = None\<close> is \<^verbatim>\<open>null\<close> (no attribute),
  \<open>Some None\<close> is NaN.
\<close>

record xf =
  fontId :: int
  fillId :: int
  borderId :: int
  numFmtId :: int
  xfId :: "jsint option"
  applyAlignment :: "string option"
  xfAlignment :: "alignment option"

text \<open>
  The last pass of \<^verbatim>\<open>parseStyles\<close> over one entry of \<^verbatim>\<open>cellXfs\<close>, and over all.
\<close>

definition mergeBaseAlignment :: "baseXf list \<Rightarrow> xf \<Rightarrow> xf" where
  "mergeBaseAlignment baseCellXfs style =
     (if applyAlignment style = Some ''0'' then style\<lparr>xfAlignment := None\<rparr>
      else case xfAlignment style of
             Some a \<Rightarrow> style
           | None \<Rightarrow>
               (case xfId style of
                  None \<Rightarrow> style
                | Some i \<Rightarrow>
                    (case js_index baseCellXfs i of
                       None \<Rightarrow> style
                     | Some b \<Rightarrow> style\<lparr>xfAlignment := baseAlignment b\<rparr>)))"

definition mergeBaseAlignments :: "baseXf list \<Rightarrow> xf list \<Rightarrow> xf list" where
  "mergeBaseAlignments baseCellXfs cellXfs = map (mergeBaseAlignment baseCellXfs) cellXfs"

section \<open>Colours\<close>

text \<open>
  What \<^verbatim>\<open>parseColor\<close> builds: \<^verbatim>\<open>{argb}\<close>, \<^verbatim>\<open>{theme, tint}\<close> or \<^verbatim>\<open>{indexed}\<close>; theme
  and index come from \<^verbatim>\<open>parseInt\<close>.
\<close>

datatype colorObj = Argb string | ThemeColor jsint rat | Indexed jsint

definition DEFAULT_THEME :: "string list" where
  "DEFAULT_THEME =
     [''FFFFFF'', ''000000'', ''E7E6E6'', ''44546A'',
      ''4472C4'', ''ED7D31'', ''A5A5A5'', ''FFC000'',
      ''5B9BD5'', ''70AD47'', ''0563C1'', ''954F72'']"

definition indexedColors :: "string list" where
  "indexedColors =
     [''#000000'', ''#FFFFFF'', ''#FF0000'', ''#00FF00'', ''#0000FF'', ''#FFFF00'', ''#FF00FF'', ''#00FFFF'',
      ''#000000'', ''#FFFFFF'', ''#FF0000'', ''#00FF00'', ''#0000FF'', ''#FFFF00'', ''#FF00FF'', ''#00FFFF'',
      ''#800000'', ''#008000'', ''#000080'', ''#808000'', ''#800080'', ''#008080'', ''#C0C0C0'', ''#808080'',
      ''#9999FF'', ''#993366'', ''#FFFFCC'', ''#CCFFFF'', ''#660066'', ''#FF8080'', ''#0066CC'', ''#CCCCFF'',
      ''#000080'', ''#FF00FF'', ''#FFFF00'', ''#00FFFF'', ''#800080'', ''#800000'', ''#008080'', ''#0000FF'',
      ''#00CCFF'', ''#CCFFFF'', ''#CCFFCC'', ''#FFFF99'', ''#99CCFF'', ''#FF99CC'', ''#CC99FF'', ''#FFCC99'',
      ''#3366FF'', ''#33CCCC'', ''#99CC00'', ''#FFCC00'', ''#FF9900'', ''#FF6600'', ''#666699'', ''#969696'',
      ''#003366'', ''#339966'', ''#003300'', ''#333300'', ''#993300'', ''#993366'', ''#333399'', ''#333333'']"

text \<open>
  \<^verbatim>\<open>resolveColor(colorObj)\<close>. The module variable \<^verbatim>\<open>themeColors\<close> is the argument
  \<open>themeColors\<close> (a slot with no string is \<open>None\<close>). \<^verbatim>\<open>applyTint\<close> computes in floating
  point and is the argument \<open>applyTint\<close>: a function of the colour string and the tint
  that returns a string. The result \<open>None\<close> is \<^verbatim>\<open>null\<close>.
\<close>

definition orElse :: "string option \<Rightarrow> string option \<Rightarrow> string option" where
  "orElse a b = (if truthyStr a then a else b)"

definition resolveColor ::
    "(string \<Rightarrow> rat \<Rightarrow> string) \<Rightarrow> (jsint \<Rightarrow> string option) \<Rightarrow> colorObj option \<Rightarrow> string option" where
  "resolveColor applyTint themeColors colorObj =
     (case colorObj of
        None \<Rightarrow> None
      | Some (Argb argb) \<Rightarrow>
          if argb \<noteq> [] then
            (if length argb = 8 then Some (CHR ''#'' # drop 2 argb) else Some (CHR ''#'' # argb))
          else None
      | Some (ThemeColor theme tint) \<Rightarrow>
          (let baseColor = orElse (themeColors theme) (js_index DEFAULT_THEME theme)
           in case baseColor of
                None \<Rightarrow> None
              | Some b \<Rightarrow>
                  if b \<noteq> [] then
                    (let color = CHR ''#'' # b
                     in Some (if tint \<noteq> 0 then applyTint color tint else color))
                  else None)
      | Some (Indexed indexed) \<Rightarrow>
          (case js_index indexedColors indexed of
             None \<Rightarrow> None
           | Some col \<Rightarrow> if col \<noteq> [] then Some col else None))"

section \<open>Worksheet elements\<close>

text \<open>
  A \<^verbatim>\<open>c\<close> element: its attributes \<^verbatim>\<open>r\<close>, \<^verbatim>\<open>s\<close>, \<^verbatim>\<open>t\<close>, the text of its \<^verbatim>\<open>v\<close> child and
  the rich text of its \<^verbatim>\<open>is\<close> child as \<^verbatim>\<open>extractRichText\<close> flattens it (\<open>None\<close>: no such
  attribute or child). A \<^verbatim>\<open>row\<close> element with its cells, a \<^verbatim>\<open>col\<close> element, and the
  worksheet document with the elements that \<^verbatim>\<open>renderSheet\<close> selects from it.
\<close>

record cellElem =
  cell_r :: "string option"
  cell_s :: "string option"
  cell_t :: "string option"
  cell_v :: "string option"
  cell_is :: "string option"

record rowElem =
  row_r :: "string option"
  row_s :: "string option"
  row_cells :: "cellElem list"

text \<open>\<open>col_width\<close> is the attribute \<^verbatim>\<open>width\<close> as \<^verbatim>\<open>parseFloat\<close> reads it.\<close>

record colElem =
  col_min :: "string option"
  col_max :: "string option"
  col_width :: jsnum
  col_style :: "string option"
  col_s :: "string option"

record sheetDoc =
  doc_pane :: "pane option"
  doc_cols :: "colElem list"
  doc_mergeCells :: "string option list"
  doc_rows :: "rowElem list"

text \<open>
  \<^verbatim>\<open>cellRef(ref)\<close>: the letters \<^verbatim>\<open>A\<close> to \<^verbatim>\<open>Z\<close> build the column in base 26, every other
  character goes to the row string; \<^verbatim>\<open>parseInt(row) || 1\<close> and \<^verbatim>\<open>col || 1\<close>.
\<close>

definition isUpperAZ :: "char \<Rightarrow> bool" where
  "isUpperAZ ch \<longleftrightarrow> 65 \<le> (of_char ch :: nat) \<and> (of_char ch :: nat) \<le> 90"

definition cellRefStep :: "int \<times> string \<Rightarrow> char \<Rightarrow> int \<times> string" where
  "cellRefStep st ch =
     (if isUpperAZ ch then (fst st * 26 + (int (of_char ch) - 64), snd st)
      else (fst st, snd st @ [ch]))"

definition cellRef :: "string option \<Rightarrow> int \<times> int" where
  "cellRef ref =
     (if \<not> truthyStr ref then (1, 1)
      else
        (let st = foldl cellRefStep (0, []) (case ref of None \<Rightarrow> [] | Some s \<Rightarrow> s);
             r = (case js_parseInt (snd st) of None \<Rightarrow> 1 | Some n \<Rightarrow> if n = 0 then 1 else n);
             c = (if fst st = 0 then 1 else fst st)
         in (r, c)))"

subsection \<open>Style index maps\<close>

text \<open>
  \<^verbatim>\<open>colStyles\<close>: for each \<^verbatim>\<open>col\<close> element, the columns \<^verbatim>\<open>min\<close> to \<^verbatim>\<open>max\<close> take its style
  index when the attribute \<^verbatim>\<open>style\<close> (or else \<^verbatim>\<open>s\<close>) is present and parses. A bound that
  is NaN leaves the loop without a turn.
\<close>

definition colStyleAttr :: "colElem \<Rightarrow> string option" where
  "colStyleAttr col = (if truthyStr (col_style col) then col_style col else col_s col)"

definition addColStyle :: "(int \<rightharpoonup> int) \<Rightarrow> colElem \<Rightarrow> (int \<rightharpoonup> int)" where
  "addColStyle colStyles col =
     (case (parseIntAttr (col_min col), parseIntAttr (col_max col)) of
        (Some mn, Some mx) \<Rightarrow>
          (case colStyleAttr col of
             None \<Rightarrow> colStyles
           | Some a \<Rightarrow>
               (case js_parseInt a of
                  None \<Rightarrow> colStyles
                | Some styleIndex \<Rightarrow> foldl (\<lambda>m i. m(i \<mapsto> styleIndex)) colStyles [mn..mx]))
      | _ \<Rightarrow> colStyles)"

definition buildColStyles :: "colElem list \<Rightarrow> (int \<rightharpoonup> int)" where
  "buildColStyles cols = foldl addColStyle Map.empty cols"

text \<open>
  \<^verbatim>\<open>rowStyleMap\<close> is keyed by the row number as \<^verbatim>\<open>parseInt\<close> reads it (a NaN is a key of a
  JavaScript object like any other); \<^verbatim>\<open>cellStyleMap\<close> is keyed by the cell's own reference.
\<close>

definition addRowStyle :: "(jsint \<rightharpoonup> int) \<Rightarrow> rowElem \<Rightarrow> (jsint \<rightharpoonup> int)" where
  "addRowStyle rowStyleMap rowE =
     (case row_s rowE of
        None \<Rightarrow> rowStyleMap
      | Some a \<Rightarrow>
          (case js_parseInt a of
             None \<Rightarrow> rowStyleMap
           | Some idx \<Rightarrow> rowStyleMap(parseIntAttr (row_r rowE) \<mapsto> idx)))"

definition buildRowStyleMap :: "rowElem list \<Rightarrow> (jsint \<rightharpoonup> int)" where
  "buildRowStyleMap rows = foldl addRowStyle Map.empty rows"

definition addCellStyle :: "(int \<times> int \<rightharpoonup> int) \<Rightarrow> cellElem \<Rightarrow> (int \<times> int \<rightharpoonup> int)" where
  "addCellStyle cellStyleMap c =
     (case cell_s c of
        None \<Rightarrow> cellStyleMap
      | Some a \<Rightarrow>
          (case js_parseInt a of
             None \<Rightarrow> cellStyleMap
           | Some sIdx \<Rightarrow> cellStyleMap(cellRef (cell_r c) \<mapsto> sIdx)))"

definition buildCellStyleMap :: "rowElem list \<Rightarrow> (int \<times> int \<rightharpoonup> int)" where
  "buildCellStyleMap rows = foldl addCellStyle Map.empty (concat (map row_cells rows))"

text \<open>
  \<^verbatim>\<open>resolveStyleIndex(r, c)\<close>, a closure over the three maps. The row argument may be NaN
  (then no cell key matches); \<open>None\<close> is \<^verbatim>\<open>null\<close>.
\<close>

definition resolveStyleIndex ::
    "(int \<times> int \<rightharpoonup> int) \<Rightarrow> (jsint \<rightharpoonup> int) \<Rightarrow> (int \<rightharpoonup> int) \<Rightarrow> jsint \<Rightarrow> int \<Rightarrow> int option" where
  "resolveStyleIndex cellStyleMap rowStyleMap colStyles r c =
     (case (case r of None \<Rightarrow> None | Some rr \<Rightarrow> cellStyleMap (rr, c)) of
        Some s \<Rightarrow> Some s
      | None \<Rightarrow>
          (case rowStyleMap r of
             Some s \<Rightarrow> Some s
           | None \<Rightarrow> (case colStyles c of Some s \<Rightarrow> Some s | None \<Rightarrow> None)))"

definition sheetStyleIndex :: "sheetDoc \<Rightarrow> jsint \<Rightarrow> int \<Rightarrow> int option" where
  "sheetStyleIndex doc =
     resolveStyleIndex (buildCellStyleMap (doc_rows doc)) (buildRowStyleMap (doc_rows doc))
       (buildColStyles (doc_cols doc))"

subsection \<open>Merged ranges\<close>

text \<open>
  \<^verbatim>\<open>ref.split(':')\<close> and the two maps that \<^verbatim>\<open>renderSheet\<close> fills for each \<^verbatim>\<open>mergeCell\<close>:
  \<^verbatim>\<open>merges\<close> (the anchor with its spans, every other cell hidden) and \<^verbatim>\<open>mergeSpanMap\<close>.
\<close>

fun splitOn :: "char \<Rightarrow> string \<Rightarrow> string list" where
  "splitOn d [] = [[]]"
| "splitOn d (ch # cs) =
     (if ch = d then [] # splitOn d cs
      else (case splitOn d cs of [] \<Rightarrow> [[ch]] | p # ps \<Rightarrow> (ch # p) # ps))"

datatype mergeInfo = Master int int | Hidden

record mergeMaps =
  merges :: "int \<times> int \<rightharpoonup> mergeInfo"
  mergeSpanMap :: "int \<times> int \<rightharpoonup> int \<times> int \<times> int \<times> int"

definition rangeCells :: "int \<Rightarrow> int \<Rightarrow> int \<Rightarrow> int \<Rightarrow> (int \<times> int) list" where
  "rangeCells r1 c1 r2 c2 = concat (map (\<lambda>r. map (\<lambda>c. (r, c)) [c1..c2]) [r1..r2])"

definition addMergeCell :: "mergeMaps \<Rightarrow> string option \<Rightarrow> mergeMaps" where
  "addMergeCell mm ref =
     (case ref of
        None \<Rightarrow> mm
      | Some rf \<Rightarrow>
          if rf = [] then mm
          else
            (let parts = splitOn CHR '':'' rf;
                 s = cellRef (Some (hd parts));
                 e = cellRef (if 2 \<le> length parts then Some (parts ! 1) else None);
                 m1 = (merges mm)(s \<mapsto> Master (fst e - fst s + 1) (snd e - snd s + 1));
                 sp = foldl (\<lambda>m k. m(k \<mapsto> (fst s, snd s, fst e, snd e))) (mergeSpanMap mm)
                        (rangeCells (fst s) (snd s) (fst e) (snd e));
                 m2 = foldl (\<lambda>m k. if k \<noteq> s then m(k \<mapsto> Hidden) else m) m1
                        (rangeCells (fst s) (snd s) (fst e) (snd e))
             in \<lparr>merges = m2, mergeSpanMap = sp\<rparr>))"

definition buildMerges :: "string option list \<Rightarrow> mergeMaps" where
  "buildMerges refs = foldl addMergeCell \<lparr>merges = Map.empty, mergeSpanMap = Map.empty\<rparr> refs"

subsection \<open>The rendered grid\<close>

text \<open>
  The part of \<^verbatim>\<open>renderSheet\<close> that decides which rows and cells the table gets. A \<open>td\<close> is
  the column it was created for and the cell element that fills it; a \<open>tr\<close> is the number
  in its row header and its cells.
\<close>

record td =
  td_col :: int
  td_cell :: "cellElem option"

record tr =
  tr_label :: jsint
  tr_tds :: "td list"

record grid =
  headerCols :: "int list"
  bodyRows :: "tr list"

definition computeMaxCol :: "rowElem list \<Rightarrow> int" where
  "computeMaxCol rows =
     min (foldl (\<lambda>maxCol c. if snd (cellRef (cell_r c)) > maxCol then snd (cellRef (cell_r c)) else maxCol)
            1 (concat (map row_cells rows)))
         100"

definition emptyTr :: "int \<Rightarrow> int \<Rightarrow> tr" where
  "emptyTr maxCol n = \<lparr>tr_label = Some n, tr_tds = map (\<lambda>c. \<lparr>td_col = c, td_cell = None\<rparr>) [1..maxCol]\<rparr>"

text \<open>\<^verbatim>\<open>while (lastRow < rowNum - 1 && lastRow < 1000)\<close>: the empty rows before a row.\<close>

function fillEmptyRows :: "int \<Rightarrow> int \<Rightarrow> int \<Rightarrow> tr list" where
  "fillEmptyRows maxCol lastRow rowNum =
     (if lastRow < rowNum - 1 \<and> lastRow < 1000
      then emptyTr maxCol (lastRow + 1) # fillEmptyRows maxCol (lastRow + 1) rowNum
      else [])"
  by pat_completeness auto
termination
  by (relation "measure (\<lambda>(maxCol, lastRow, rowNum). nat (1000 - lastRow))") auto

declare fillEmptyRows.simps [simp del]

definition buildCellMap :: "cellElem list \<Rightarrow> (int \<rightharpoonup> cellElem)" where
  "buildCellMap cells = foldl (\<lambda>m c. m(snd (cellRef (cell_r c)) \<mapsto> c)) Map.empty cells"

definition isHidden :: "(int \<times> int \<rightharpoonup> mergeInfo) \<Rightarrow> jsint \<Rightarrow> int \<Rightarrow> bool" where
  "isHidden mg rowNum c =
     (case rowNum of None \<Rightarrow> False | Some r \<Rightarrow> mg (r, c) = Some Hidden)"

definition renderRow :: "int \<Rightarrow> (int \<times> int \<rightharpoonup> mergeInfo) \<Rightarrow> jsint \<Rightarrow> rowElem \<Rightarrow> tr list" where
  "renderRow maxCol mg lastRow rowE =
     (let rowNum = parseIntAttr (row_r rowE);
          filled = (case (lastRow, rowNum) of
                      (Some l, Some r) \<Rightarrow> fillEmptyRows maxCol l r
                    | _ \<Rightarrow> [])
      in if (case rowNum of None \<Rightarrow> False | Some r \<Rightarrow> r > 1000) then filled
         else
           (let cellMap = buildCellMap (row_cells rowE)
            in filled @
               [\<lparr>tr_label = rowNum,
                 tr_tds = map (\<lambda>c. \<lparr>td_col = c, td_cell = cellMap c\<rparr>)
                            (filter (\<lambda>c. \<not> isHidden mg rowNum c) [1..maxCol])\<rparr>]))"

fun renderRows :: "int \<Rightarrow> (int \<times> int \<rightharpoonup> mergeInfo) \<Rightarrow> jsint \<Rightarrow> rowElem list \<Rightarrow> tr list" where
  "renderRows maxCol mg lastRow [] = []"
| "renderRows maxCol mg lastRow (rowE # rows) =
     renderRow maxCol mg lastRow rowE @ renderRows maxCol mg (parseIntAttr (row_r rowE)) rows"

text \<open>A sheet without rows shows a message instead of a table: \<open>None\<close>.\<close>

definition renderSheet :: "sheetDoc \<Rightarrow> grid option" where
  "renderSheet doc =
     (if doc_rows doc = [] then None
      else
        (let maxCol = computeMaxCol (doc_rows doc)
         in Some \<lparr>headerCols = [1..maxCol],
                  bodyRows = renderRows maxCol (merges (buildMerges (doc_mergeCells doc))) (Some 0)
                               (doc_rows doc)\<rparr>))"

section \<open>Module state and host\<close>

text \<open>
  The functions of the browser and of the language that the layout code calls, as
  parameters: \<^verbatim>\<open>applyTint\<close> (floating-point colour arithmetic), the setter of a border
  property of \<^verbatim>\<open>td.style\<close> (\<open>h_css v\<close> is the serialised value that the property reads
  back after the assignment of \<open>v\<close>, or \<open>None\<close> when the style engine rejects \<open>v\<close> and
  leaves the property as it was), the canvas text measure for the font of a cell format,
  \<^verbatim>\<open>parseFloat\<close>, and the Number formatting methods. \<open>h_toFixed x d\<close> is \<^verbatim>\<open>x.toFixed(d)\<close> and
  \<open>h_toLocaleString x d\<close> is \<^verbatim>\<open>x.toLocaleString('zh-CN', ...)\<close> with both fraction digit
  bounds \<open>d\<close>; both can raise a RangeError. \<open>h_toLocaleDateString t\<close> is
  \<^verbatim>\<open>toLocaleDateString('zh-CN')\<close> of the valid Date with time value \<open>t\<close> (milliseconds since
  the epoch), \<open>h_numberToString x\<close> is \<^verbatim>\<open>String(x)\<close>, and \<open>h_toPrecision10 x\<close> is
  \<^verbatim>\<open>parseFloat(x.toPrecision(10)).toString()\<close>.
\<close>

datatype jserror = RangeError

record host =
  h_applyTint :: "string \<Rightarrow> rat \<Rightarrow> string"
  h_css :: "string \<Rightarrow> string option"
  h_measureText :: "xf option \<Rightarrow> string \<Rightarrow> rat"
  h_parseFloat :: "string \<Rightarrow> jsnum"
  h_toFixed :: "jsnum \<Rightarrow> int \<Rightarrow> jserror + string"
  h_toLocaleString :: "jsnum \<Rightarrow> int \<Rightarrow> jserror + string"
  h_toLocaleDateString :: "int \<Rightarrow> string"
  h_numberToString :: "jsnum \<Rightarrow> string"
  h_toPrecision10 :: "jsnum \<Rightarrow> string"

record borderSide =
  bs_style :: string
  bs_color :: "colorObj option"

record border =
  b_left :: "borderSide option"
  b_right :: "borderSide option"
  b_top :: "borderSide option"
  b_bottom :: "borderSide option"

text \<open>The module variables that the layout functions read.\<close>

record env =
  e_cellXfs :: "xf list"
  e_borders :: "border list"
  e_sharedStrings :: "string list"
  e_numFmts :: "string \<rightharpoonup> string"
  e_themeColors :: "jsint \<Rightarrow> string option"
  e_currentMaxCol :: int
  e_currentColWidths :: "int \<rightharpoonup> jsnum"
  e_currentMDW :: rat
  e_host :: host

section \<open>Borders of a merged range\<close>

text \<open>The four border properties of \<^verbatim>\<open>td.style\<close>; the empty string is a property not set.\<close>

record tdStyle =
  borderTop :: string
  borderRight :: string
  borderBottom :: string
  borderLeft :: string

datatype side = SideTop | SideRight | SideBottom | SideLeft

definition borderWidthStyle :: "string \<Rightarrow> string \<times> string" where
  "borderWidthStyle st =
     (if st = ''thin'' then (''1px'', ''solid'')
      else if st = ''medium'' then (''2px'', ''solid'')
      else if st = ''thick'' then (''3px'', ''solid'')
      else if st = ''hair'' then (''0.5px'', ''solid'')
      else if st = ''dotted'' then (''1px'', ''dotted'')
      else if st = ''dashed'' then (''1px'', ''dashed'')
      else if st = ''double'' then (''3px'', ''double'')
      else (''1px'', ''solid''))"

text \<open>The template string \<^verbatim>\<open>`${w} ${s} ${c}`\<close>; a \<^verbatim>\<open>null\<close> colour prints as \<^verbatim>\<open>null\<close>.\<close>

definition borderCss :: "env \<Rightarrow> borderSide \<Rightarrow> string" where
  "borderCss E bs =
     (let ws = borderWidthStyle (bs_style bs);
          c = (case bs_color bs of
                 None \<Rightarrow> ''#000''
               | Some col \<Rightarrow>
                   (case resolveColor (h_applyTint (e_host E)) (e_themeColors E) (Some col) of
                      None \<Rightarrow> ''null''
                    | Some x \<Rightarrow> x))
      in fst ws @ '' '' @ snd ws @ '' '' @ c)"

definition setStyleBorder :: "(string \<Rightarrow> string option) \<Rightarrow> tdStyle \<Rightarrow> side \<Rightarrow> string \<Rightarrow> tdStyle" where
  "setStyleBorder css td sd v =
     (case css v of
        None \<Rightarrow> td
      | Some v' \<Rightarrow>
          (case sd of
             SideTop \<Rightarrow> td\<lparr>borderTop := v'\<rparr>
           | SideRight \<Rightarrow> td\<lparr>borderRight := v'\<rparr>
           | SideBottom \<Rightarrow> td\<lparr>borderBottom := v'\<rparr>
           | SideLeft \<Rightarrow> td\<lparr>borderLeft := v'\<rparr>))"

text \<open>The local \<^verbatim>\<open>applyBorderSide\<close> of \<^verbatim>\<open>applyMergedBorders\<close>.\<close>

definition applyBorderSideM ::
    "env \<Rightarrow> int \<Rightarrow> int \<Rightarrow> tdStyle \<Rightarrow> side \<Rightarrow> borderSide option \<Rightarrow> tdStyle" where
  "applyBorderSideM E startCol endCol td sd bs =
     (case bs of
        None \<Rightarrow> td
      | Some b \<Rightarrow>
          if bs_style b = [] then td
          else if sd = SideLeft \<and> startCol = 1 then td
          else if sd = SideRight \<and> e_currentMaxCol E \<noteq> 0 \<and> endCol = e_currentMaxCol E then td
          else setStyleBorder (h_css (e_host E)) td sd (borderCss E b))"

definition getBorderForCell :: "env \<Rightarrow> (jsint \<Rightarrow> int \<Rightarrow> int option) \<Rightarrow> int \<Rightarrow> int \<Rightarrow> border option" where
  "getBorderForCell E rsi r c =
     (case rsi (Some r) c of
        None \<Rightarrow> None
      | Some styleIdx \<Rightarrow>
          (case js_index (e_cellXfs E) (Some styleIdx) of
             None \<Rightarrow> None
           | Some style \<Rightarrow> js_index (e_borders E) (Some (borderId style))))"

text \<open>
  One \<^verbatim>\<open>for\<close> loop of \<^verbatim>\<open>applyMergedBorders\<close>: the cells of one edge in order, stopping
  (\<^verbatim>\<open>break\<close>) at the first whose border record has the side.
\<close>

fun firstSide :: "(border \<Rightarrow> borderSide option) \<Rightarrow> border option list \<Rightarrow> borderSide option" where
  "firstSide sel [] = None"
| "firstSide sel (b # bs) =
     (case b of
        None \<Rightarrow> firstSide sel bs
      | Some bd \<Rightarrow> (case sel bd of None \<Rightarrow> firstSide sel bs | Some x \<Rightarrow> Some x))"

definition applyMergedBorders ::
    "env \<Rightarrow> (jsint \<Rightarrow> int \<Rightarrow> int option) \<Rightarrow> tdStyle \<Rightarrow> int \<Rightarrow> int \<Rightarrow> int \<Rightarrow> int \<Rightarrow> tdStyle" where
  "applyMergedBorders E rsi td rowNum colNum rowspan colspan =
     (let startRow = rowNum;
          startCol = colNum;
          endRow = rowNum + rowspan - 1;
          endCol = colNum + colspan - 1;
          td1 = (if borderTop td = [] then
                   applyBorderSideM E startCol endCol td SideTop
                     (firstSide b_top (map (\<lambda>c. getBorderForCell E rsi startRow c) [startCol..endCol]))
                 else td);
          td2 = (if borderBottom td1 = [] then
                   applyBorderSideM E startCol endCol td1 SideBottom
                     (firstSide b_bottom (map (\<lambda>c. getBorderForCell E rsi endRow c) [startCol..endCol]))
                 else td1);
          td3 = (if borderLeft td2 = [] then
                   applyBorderSideM E startCol endCol td2 SideLeft
                     (firstSide b_left (map (\<lambda>r. getBorderForCell E rsi r startCol) [startRow..endRow]))
                 else td2);
          td4 = (if borderRight td3 = [] then
                   applyBorderSideM E startCol endCol td3 SideRight
                     (firstSide b_right (map (\<lambda>r. getBorderForCell E rsi r endCol) [startRow..endRow]))
                 else td3)
      in td4)"

subsection \<open>The value of one border property after aggregation\<close>

text \<open>
  What \<^verbatim>\<open>applyBorderSide\<close> makes of one property: the value it had, unless the side border
  passes the guards and the style engine accepts the value.
\<close>

definition assigned :: "env \<Rightarrow> int \<Rightarrow> int \<Rightarrow> side \<Rightarrow> borderSide option \<Rightarrow> string \<Rightarrow> string" where
  "assigned E startCol endCol sd bs old =
     (case bs of
        None \<Rightarrow> old
      | Some b \<Rightarrow>
          if bs_style b = [] then old
          else if sd = SideLeft \<and> startCol = 1 then old
          else if sd = SideRight \<and> e_currentMaxCol E \<noteq> 0 \<and> endCol = e_currentMaxCol E then old
          else (case h_css (e_host E) (borderCss E b) of None \<Rightarrow> old | Some v \<Rightarrow> v))"

text \<open>One guarded block of \<^verbatim>\<open>applyMergedBorders\<close>: a side that is set is not touched.\<close>

definition filled :: "env \<Rightarrow> int \<Rightarrow> int \<Rightarrow> side \<Rightarrow> borderSide option \<Rightarrow> string \<Rightarrow> string" where
  "filled E sc ec sd bs old = (if old = [] then assigned E sc ec sd bs old else old)"

section \<open>Number formats\<close>

text \<open>
  The decimal digits of an integer, as \<^verbatim>\<open>String(n)\<close> prints an integer below \<open>10^21\<close> in
  magnitude.
\<close>

function intDigits :: "int \<Rightarrow> string" where
  "intDigits n =
     (if n < 10 then [char_of (48 + n)]
      else intDigits (n div 10) @ [char_of (48 + n mod 10)])"
  by pat_completeness auto
termination
  by (relation "measure nat") auto

declare intDigits.simps [simp del]

definition showInt :: "int \<Rightarrow> string" where
  "showInt i = (if i < 0 then CHR ''-'' # intDigits (- i) else intDigits i)"

text \<open>
  The table \<^verbatim>\<open>builtIn\<close> and the key under which \<^verbatim>\<open>numFmts[fmtId]\<close> and \<^verbatim>\<open>builtIn[fmtId]\<close>
  look \<^verbatim>\<open>fmtId\<close> up: the property name is the number printed as a string, and \<^verbatim>\<open>null\<close>
  prints as \<^verbatim>\<open>null\<close>. \<^verbatim>\<open>numFmts\<close> maps the attribute \<^verbatim>\<open>numFmtId\<close> as written to the format
  code.
\<close>

definition builtIn :: "string \<rightharpoonup> string" where
  "builtIn =
     [''0'' \<mapsto> ''General'', ''1'' \<mapsto> ''0'', ''2'' \<mapsto> ''0.00'', ''3'' \<mapsto> ''#,##0'',
      ''4'' \<mapsto> ''#,##0.00'', ''9'' \<mapsto> ''0%'', ''10'' \<mapsto> ''0.00%'', ''14'' \<mapsto> ''yyyy/m/d'',
      ''22'' \<mapsto> ''yyyy/m/d h:mm'']"

definition fmtKey :: "host \<Rightarrow> int option \<Rightarrow> string" where
  "fmtKey H fmtId =
     (case fmtId of
        None \<Rightarrow> ''null''
      | Some n \<Rightarrow> if \<bar>n\<bar> < 10 ^ 21 then showInt n else h_numberToString H (Fin (of_int n)))"

definition resolveFormat :: "host \<Rightarrow> (string \<rightharpoonup> string) \<Rightarrow> int option \<Rightarrow> string" where
  "resolveFormat H numFmts fmtId =
     (case orElse (orElse (numFmts (fmtKey H fmtId)) (builtIn (fmtKey H fmtId))) (Some ''General'') of
        None \<Rightarrow> ''General''
      | Some fmt \<Rightarrow> fmt)"

text \<open>The tests on the format code: \<^verbatim>\<open>/[ymd]/i.test(fmt)\<close> and \<^verbatim>\<open>fmt.match(/\.0+/)\<close>.\<close>

definition regexTestYMD :: "string \<Rightarrow> bool" where
  "regexTestYMD fmt = list_ex (\<lambda>ch. ch \<in> set ''ymdYMD'') fmt"

fun matchDotZeros :: "string \<Rightarrow> string option" where
  "matchDotZeros [] = None"
| "matchDotZeros (ch # cs) =
     (if ch = CHR ''.'' \<and> take 1 cs = ''0'' then Some (ch # takeWhile (\<lambda>x. x = CHR ''0'') cs)
      else matchDotZeros cs)"

definition countZeros :: "string \<Rightarrow> nat" where
  "countZeros fmt = length (filter (\<lambda>ch. ch = CHR ''0'') fmt)"

text \<open>
  The arithmetic on the value: \<^verbatim>\<open>value > 0\<close>, \<^verbatim>\<open>(value - 25569) * 86400 * 1000\<close>,
  \<^verbatim>\<open>value * 100\<close> and \<^verbatim>\<open>Number.isInteger(value)\<close>. \<^verbatim>\<open>new Date(t)\<close> clips the time value:
  a \<open>t\<close> that is not finite or beyond \<open>8.64 * 10^15\<close> in magnitude gives an invalid date
  (\<open>None\<close>, for which \<^verbatim>\<open>isNaN(date)\<close> holds), any other \<open>t\<close> is truncated to an integer.
\<close>

definition js_gt0 :: "jsnum \<Rightarrow> bool" where
  "js_gt0 x = (case x of Fin v \<Rightarrow> 0 < v | PosInf \<Rightarrow> True | _ \<Rightarrow> False)"

definition serialToMillis :: "jsnum \<Rightarrow> jsnum" where
  "serialToMillis x = (case x of Fin v \<Rightarrow> Fin ((v - 25569) * 86400 * 1000) | y \<Rightarrow> y)"

definition times100 :: "jsnum \<Rightarrow> jsnum" where
  "times100 x = (case x of Fin v \<Rightarrow> Fin (v * 100) | y \<Rightarrow> y)"

definition isInteger :: "jsnum \<Rightarrow> bool" where
  "isInteger x = (case x of Fin v \<Rightarrow> v = of_int \<lfloor>v\<rfloor> | _ \<Rightarrow> False)"

definition newDate :: "jsnum \<Rightarrow> int option" where
  "newDate x =
     (case x of
        Fin t \<Rightarrow>
          if \<bar>t\<bar> \<le> 8640000000000000 then Some (if 0 \<le> t then \<lfloor>t\<rfloor> else \<lceil>t\<rceil>) else None
      | _ \<Rightarrow> None)"

text \<open>\<^verbatim>\<open>formatNumber(value, fmtId)\<close>, with the module variable \<^verbatim>\<open>numFmts\<close> as an argument.\<close>

definition formatNumber :: "host \<Rightarrow> (string \<rightharpoonup> string) \<Rightarrow> jsnum \<Rightarrow> int option \<Rightarrow> jserror + string" where
  "formatNumber H numFmts value fmtId =
     (let fmt = resolveFormat H numFmts fmtId
      in case (if regexTestYMD fmt \<and> js_gt0 value then newDate (serialToMillis value) else None) of
           Some date \<Rightarrow> Inr (h_toLocaleDateString H date)
         | None \<Rightarrow>
             if CHR ''%'' \<in> set fmt then
               (let dec = int (countZeros fmt) - 1
                in case h_toFixed H (times100 value) (max 0 dec) of
                     Inl err \<Rightarrow> Inl err
                   | Inr s \<Rightarrow> Inr (s @ ''%''))
             else if CHR '','' \<in> set fmt then
               (let dec = int (length (case matchDotZeros fmt of None \<Rightarrow> [] | Some m \<Rightarrow> m)) - 1
                in h_toLocaleString H value (max 0 dec))
             else
               (case matchDotZeros fmt of
                  Some decMatch \<Rightarrow> h_toFixed H value (int (length decMatch) - 1)
                | None \<Rightarrow>
                    if isInteger value then Inr (h_numberToString H value)
                    else Inr (h_toPrecision10 H value)))"

subsection \<open>The ladder of rules in the words of the specification\<close>

text \<open>
  The five rules in their order, when each applies, and what each renders. The flag
  \<open>guarded\<close> says whether the date rule also asks for a serial that gives a valid date.
\<close>

datatype rule = DateRule | PercentRule | ThousandsRule | FixedRule | GeneralRule






subsection \<open>A reference host for decimal values\<close>

text \<open>
  The host functions by exact decimal arithmetic, for evaluating the functions above at
  concrete values: \<^verbatim>\<open>toFixed\<close> after ECMA-262 (the nearest multiple of \<open>10^-d\<close>, the larger
  one at a tie; RangeError for more than 100 digits), the same digits grouped in threes
  for \<^verbatim>\<open>toLocaleString\<close>, the date of a time value in a zone \<open>tz\<close> milliseconds east of UTC
  printed as year/month/day, integers in decimal, and other finite values rounded to a
  number of significant digits with the trailing zeros removed. Everything is printed in
  plain decimal notation, without exponent. \<^verbatim>\<open>parseFloat\<close> reads a sign, digits and a
  fraction. The style engine accepts every value as it is, \<^verbatim>\<open>applyTint\<close> leaves the colour
  alone, and every character measures 7 pixels.
\<close>

definition fixedDigits :: "rat \<Rightarrow> nat \<Rightarrow> string \<times> string" where
  "fixedDigits x d =
     (let n = \<lfloor>x * 10 ^ d + 1 / 2\<rfloor>;
          frac = intDigits (n mod 10 ^ d)
      in (intDigits (n div 10 ^ d),
          if d = 0 then [] else CHR ''.'' # replicate (d - length frac) CHR ''0'' @ frac))"

fun groupRev :: "string \<Rightarrow> string" where
  "groupRev (a # b # c # d # rest) = a # b # c # CHR '','' # groupRev (d # rest)"
| "groupRev ds = ds"

definition nonFinite :: "jsnum \<Rightarrow> string" where
  "nonFinite x = (case x of PosInf \<Rightarrow> ''Infinity'' | NegInf \<Rightarrow> ''-Infinity'' | _ \<Rightarrow> ''NaN'')"

definition trimFraction :: "string \<times> string \<Rightarrow> string" where
  "trimFraction p =
     (let f = rev (dropWhile (\<lambda>ch. ch = CHR ''0'') (rev (snd p)))
      in fst p @ (if f = ''.'' then [] else f))"

fun leadingExp :: "nat \<Rightarrow> rat \<Rightarrow> nat" where
  "leadingExp 0 a = 0"
| "leadingExp (Suc n) a = (if a < 1 then Suc (leadingExp n (a * 10)) else 0)"

definition ref_toPrecision :: "nat \<Rightarrow> rat \<Rightarrow> string" where
  "ref_toPrecision p v =
     (let a = \<bar>v\<bar>;
          k = length (intDigits \<lfloor>a\<rfloor>);
          sgn = (if v < 0 then ''-'' else [])
      in if a = 0 then ''0''
         else if 1 \<le> a \<and> p < k then
           sgn @ intDigits (\<lfloor>a / 10 ^ (k - p) + 1 / 2\<rfloor> * 10 ^ (k - p))
         else if 1 \<le> a then sgn @ trimFraction (fixedDigits a (p - k))
         else sgn @ trimFraction (fixedDigits a (p - 1 + leadingExp 400 a)))"

definition ref_numberToString :: "jsnum \<Rightarrow> string" where
  "ref_numberToString x =
     (case x of
        Fin v \<Rightarrow>
          if v = of_int \<lfloor>v\<rfloor> then (if v < 0 then ''-'' else []) @ intDigits \<lfloor>\<bar>v\<bar>\<rfloor>
          else ref_toPrecision 17 v
      | _ \<Rightarrow> nonFinite x)"

definition ref_toPrecision10 :: "jsnum \<Rightarrow> string" where
  "ref_toPrecision10 x = (case x of Fin v \<Rightarrow> ref_toPrecision 10 v | _ \<Rightarrow> nonFinite x)"

definition isDecimalDigit :: "char \<Rightarrow> bool" where
  "isDecimalDigit ch = isRadixDigit 10 ch"

definition ref_parseFloat :: "string \<Rightarrow> jsnum" where
  "ref_parseFloat s =
     (let s1 = dropWhile isStrWhiteSpace s;
          neg = (take 1 s1 = ''-'');
          s2 = (if take 1 s1 = ''-'' \<or> take 1 s1 = ''+'' then drop 1 s1 else s1);
          ip = takeWhile isDecimalDigit s2;
          rest = drop (length ip) s2;
          fp = (if take 1 rest = ''.'' then takeWhile isDecimalDigit (drop 1 rest) else [])
      in if ip = [] \<and> fp = [] then NaN
         else Fin ((if neg then - 1 else 1) *
                   (of_nat (digitsValue 10 ip) + of_nat (digitsValue 10 fp) / 10 ^ length fp)))"

definition ref_toFixed :: "jsnum \<Rightarrow> int \<Rightarrow> jserror + string" where
  "ref_toFixed x d =
     (if d < 0 \<or> 100 < d then Inl RangeError
      else case x of
             Fin v \<Rightarrow>
               if 10 ^ 21 \<le> \<bar>v\<bar> then Inr (ref_numberToString x)
               else Inr ((if v < 0 then ''-'' else []) @ fst (fixedDigits \<bar>v\<bar> (nat d))
                          @ snd (fixedDigits \<bar>v\<bar> (nat d)))
           | _ \<Rightarrow> Inr (nonFinite x))"

definition ref_toLocaleString :: "jsnum \<Rightarrow> int \<Rightarrow> jserror + string" where
  "ref_toLocaleString x d =
     (if d < 0 \<or> 100 < d then Inl RangeError
      else case x of
             Fin v \<Rightarrow>
               Inr ((if v < 0 then ''-'' else []) @ rev (groupRev (rev (fst (fixedDigits \<bar>v\<bar> (nat d)))))
                      @ snd (fixedDigits \<bar>v\<bar> (nat d)))
           | _ \<Rightarrow> Inr (nonFinite x))"

text \<open>The civil date of a day number (days since 1970-01-01), proleptic Gregorian.\<close>

definition civilFromDays :: "int \<Rightarrow> int \<times> int \<times> int" where
  "civilFromDays days =
     (let z = days + 719468;
          era = z div 146097;
          doe = z mod 146097;
          yoe = (doe - doe div 1460 + doe div 36524 - doe div 146096) div 365;
          doy = doe - (365 * yoe + yoe div 4 - yoe div 100);
          mp = (5 * doy + 2) div 153;
          d = doy - (153 * mp + 2) div 5 + 1;
          m = (if mp < 10 then mp + 3 else mp - 9);
          y = yoe + era * 400 + (if m \<le> 2 then 1 else 0)
      in (y, m, d))"

definition ref_toLocaleDateString :: "int \<Rightarrow> int \<Rightarrow> string" where
  "ref_toLocaleDateString tz t =
     (case civilFromDays ((t + tz) div 86400000) of
        (y, m, d) \<Rightarrow> showInt y @ ''/'' @ showInt m @ ''/'' @ showInt d)"

definition refHost :: "int \<Rightarrow> host" where
  "refHost tz =
     \<lparr>h_applyTint = (\<lambda>color tint. color),
      h_css = Some,
      h_measureText = (\<lambda>style text. 7 * of_nat (length text)),
      h_parseFloat = ref_parseFloat,
      h_toFixed = ref_toFixed,
      h_toLocaleString = ref_toLocaleString,
      h_toLocaleDateString = ref_toLocaleDateString tz,
      h_numberToString = ref_numberToString,
      h_toPrecision10 = ref_toPrecision10\<rparr>"

section \<open>Text overflow\<close>

text \<open>
  \<^verbatim>\<open>cellXfs[styleIndex]\<close> for a resolved style index (\<open>None\<close>: \<^verbatim>\<open>null\<close>), and the alignment
  flags as \<^verbatim>\<open>getOverflowEndCol\<close> reads them through \<^verbatim>\<open>cellStyle && cellStyle.alignment && ...\<close>.
\<close>

definition cellStyleOf :: "env \<Rightarrow> int option \<Rightarrow> xf option" where
  "cellStyleOf E styleIndex =
     (case styleIndex of None \<Rightarrow> None | Some i \<Rightarrow> js_index (e_cellXfs E) (Some i))"

definition alignmentOf :: "xf option \<Rightarrow> alignment option" where
  "alignmentOf cellStyle = (case cellStyle of None \<Rightarrow> None | Some st \<Rightarrow> xfAlignment st)"

definition isTextType :: "string option \<Rightarrow> bool" where
  "isTextType cellType \<longleftrightarrow>
     cellType = Some ''s'' \<or> cellType = Some ''str'' \<or> cellType = Some ''inlineStr''"

text \<open>
  \<^verbatim>\<open>getCellDisplayText(cellElem, styleIndex)\<close>. A numeric cell is formatted by
  \<^verbatim>\<open>formatNumber\<close>, whose RangeError passes through.
\<close>

definition getCellDisplayText :: "env \<Rightarrow> cellElem option \<Rightarrow> int option \<Rightarrow> jserror + string" where
  "getCellDisplayText E cellElem styleIndex =
     (case cellElem of
        None \<Rightarrow> Inr []
      | Some cell \<Rightarrow>
          (let type = cell_t cell;
               v0 = (case cell_v cell of None \<Rightarrow> [] | Some s \<Rightarrow> s);
               v1 = (if type = Some ''s'' \<and> v0 \<noteq> [] then
                       (case js_index (e_sharedStrings E) (js_parseInt v0) of None \<Rightarrow> [] | Some s \<Rightarrow> s)
                     else if type = Some ''inlineStr'' then
                       (case cell_is cell of None \<Rightarrow> v0 | Some s \<Rightarrow> s)
                     else if type = Some ''b'' then
                       (if v0 = ''1'' then ''TRUE'' else ''FALSE'')
                     else v0)
           in if (\<not> truthyStr type \<or> type = Some ''n'') \<and> v1 \<noteq> [] then
                (case h_parseFloat (e_host E) v1 of
                   NaN \<Rightarrow> Inr v1
                 | numVal \<Rightarrow>
                     formatNumber (e_host E) (e_numFmts E) numVal
                       (case cellStyleOf E styleIndex of None \<Rightarrow> None | Some st \<Rightarrow> Some (numFmtId st)))
              else Inr v1))"

definition measureTextWidth :: "env \<Rightarrow> string \<Rightarrow> xf option \<Rightarrow> rat" where
  "measureTextWidth E text cellStyle =
     (if text = [] then 0 else h_measureText (e_host E) cellStyle text)"

text \<open>
  \<^verbatim>\<open>currentColWidths[colNum] || 8.43\<close>: a missing, zero or NaN width is replaced by the
  double that the literal \<^verbatim>\<open>8.43\<close> denotes.
\<close>

definition colWidthOrDefault :: "env \<Rightarrow> int \<Rightarrow> jsnum" where
  "colWidthOrDefault E c =
     (case e_currentColWidths E c of
        None \<Rightarrow> roundD (843 / 100)
      | Some w \<Rightarrow> if w = Fin 0 \<or> w = NaN then roundD (843 / 100) else w)"

definition mergeHas :: "(int \<times> int \<rightharpoonup> int \<times> int \<times> int \<times> int) \<Rightarrow> jsint \<Rightarrow> int \<Rightarrow> bool" where
  "mergeHas msm rowNum c = (case rowNum of None \<Rightarrow> False | Some r \<Rightarrow> msm (r, c) \<noteq> None)"

text \<open>
  The \<^verbatim>\<open>for\<close> loop of \<^verbatim>\<open>getOverflowEndCol\<close> from column \<open>c\<close> on, with the current
  \<^verbatim>\<open>endCol\<close>: it stops at a merged column, at a neighbour with display text, and after
  \<^verbatim>\<open>currentMaxCol\<close>.
\<close>

function scanOverflow ::
    "env \<Rightarrow> jsint \<Rightarrow> (int \<rightharpoonup> cellElem) \<Rightarrow> (int \<times> int \<rightharpoonup> int \<times> int \<times> int \<times> int) \<Rightarrow>
     (jsint \<Rightarrow> int \<Rightarrow> int option) \<Rightarrow> int \<Rightarrow> int \<Rightarrow> jserror + int" where
  "scanOverflow E rowNum cellMap msm rsi c endCol =
     (if c \<le> e_currentMaxCol E then
        (if mergeHas msm rowNum c then Inr endCol
         else case cellMap c of
                None \<Rightarrow> scanOverflow E rowNum cellMap msm rsi (c + 1) c
              | Some neighbor \<Rightarrow>
                  (case getCellDisplayText E (Some neighbor) (rsi rowNum c) of
                     Inl err \<Rightarrow> Inl err
                   | Inr neighborText \<Rightarrow>
                       if neighborText \<noteq> [] then Inr endCol
                       else scanOverflow E rowNum cellMap msm rsi (c + 1) c))
      else Inr endCol)"
  by pat_completeness auto
termination
  by (relation "measure (\<lambda>(E, rowNum, cellMap, msm, rsi, c, endCol). nat (e_currentMaxCol E + 1 - c))")
     auto

declare scanOverflow.simps [simp del]

text \<open>
  \<^verbatim>\<open>getOverflowEndCol\<close>. The display text of the cell itself is read with the cell format in
  the place of the style index; that argument is only read for a numeric cell, which does
  not get this far, so it is \<open>None\<close> here.
\<close>

definition getOverflowEndCol ::
    "env \<Rightarrow> cellElem option \<Rightarrow> int option \<Rightarrow> jsint \<Rightarrow> int \<Rightarrow> (int \<rightharpoonup> cellElem) \<Rightarrow>
     (int \<times> int \<rightharpoonup> int \<times> int \<times> int \<times> int) \<Rightarrow> (jsint \<Rightarrow> int \<Rightarrow> int option) \<Rightarrow> jserror + int option" where
  "getOverflowEndCol E cellElem styleIndex rowNum colNum cellMap msm rsi =
     (case cellElem of
        None \<Rightarrow> Inr None
      | Some cell \<Rightarrow>
          if \<not> isTextType (cell_t cell) then Inr None
          else
            (let cellStyle = cellStyleOf E styleIndex;
                 al = alignmentOf cellStyle
             in if (case al of None \<Rightarrow> False | Some a \<Rightarrow> wrapText a) then Inr None
                else if (case al of None \<Rightarrow> False
                         | Some a \<Rightarrow> horizontal a = Some ''center'' \<or> horizontal a = Some ''right'' \<or>
                                     horizontal a = Some ''justify'' \<or> horizontal a = Some ''distributed'')
                then Inr None
                else if (case al of None \<Rightarrow> False | Some a \<Rightarrow> shrinkToFit a) then Inr None
                else if (case al of None \<Rightarrow> False | Some a \<Rightarrow> textRotation a \<noteq> 0) then Inr None
                else
                  (case getCellDisplayText E (Some cell) None of
                     Inl err \<Rightarrow> Inl err
                   | Inr text \<Rightarrow>
                       if text = [] then Inr None
                       else if mergeHas msm rowNum colNum then Inr None
                       else
                         (let cellWidth = calcColumnWidthPx (e_currentMDW E) (colWidthOrDefault E colNum);
                              textWidth = measureTextWidth E text cellStyle;
                              paddingX = Fin 6
                          in if js_le (Fin textWidth) (js_max (Fin 0) (dsub cellWidth paddingX))
                             then Inr None
                             else
                               (case scanOverflow E rowNum cellMap msm rsi (colNum + 1) colNum of
                                  Inl err \<Rightarrow> Inl err
                                | Inr endCol \<Rightarrow>
                                    if endCol > colNum then Inr (Some endCol) else Inr None)))))"

subsection \<open>Vocabulary for the overflow rule\<close>

text \<open>
  A column is free when it is not merged and the cell there, if any, displays nothing; it
  is blocked when it is merged or displays something, and not empty when it displays
  something. (A neighbour whose formatting raises is neither.) The cell is eligible under
  the preconditions that the code tests; the last of them is that the comparison
  \<^verbatim>\<open>textWidth <= Math.max(0, cellWidth - paddingX)\<close> is false.
\<close>

definition freeColumn ::
    "env \<Rightarrow> jsint \<Rightarrow> (int \<rightharpoonup> cellElem) \<Rightarrow> (int \<times> int \<rightharpoonup> int \<times> int \<times> int \<times> int) \<Rightarrow>
     (jsint \<Rightarrow> int \<Rightarrow> int option) \<Rightarrow> int \<Rightarrow> bool" where
  "freeColumn E rowNum cellMap msm rsi c \<longleftrightarrow>
     \<not> mergeHas msm rowNum c \<and> getCellDisplayText E (cellMap c) (rsi rowNum c) = Inr []"

definition blockedColumn ::
    "env \<Rightarrow> jsint \<Rightarrow> (int \<rightharpoonup> cellElem) \<Rightarrow> (int \<times> int \<rightharpoonup> int \<times> int \<times> int \<times> int) \<Rightarrow>
     (jsint \<Rightarrow> int \<Rightarrow> int option) \<Rightarrow> int \<Rightarrow> bool" where
  "blockedColumn E rowNum cellMap msm rsi c \<longleftrightarrow>
     mergeHas msm rowNum c \<or>
     (case getCellDisplayText E (cellMap c) (rsi rowNum c) of Inl err \<Rightarrow> False | Inr t \<Rightarrow> t \<noteq> [])"

definition nonEmptyColumn ::
    "env \<Rightarrow> jsint \<Rightarrow> (int \<rightharpoonup> cellElem) \<Rightarrow> (jsint \<Rightarrow> int \<Rightarrow> int option) \<Rightarrow> int \<Rightarrow> bool" where
  "nonEmptyColumn E rowNum cellMap rsi c \<longleftrightarrow>
     (case getCellDisplayText E (cellMap c) (rsi rowNum c) of Inl err \<Rightarrow> False | Inr t \<Rightarrow> t \<noteq> [])"

definition cellText :: "env \<Rightarrow> cellElem \<Rightarrow> string" where
  "cellText E cell = (case getCellDisplayText E (Some cell) None of Inl err \<Rightarrow> [] | Inr t \<Rightarrow> t)"

definition overflowEligible ::
    "env \<Rightarrow> cellElem \<Rightarrow> int option \<Rightarrow> jsint \<Rightarrow> int \<Rightarrow> (int \<times> int \<rightharpoonup> int \<times> int \<times> int \<times> int) \<Rightarrow> bool" where
  "overflowEligible E cell styleIndex rowNum colNum msm \<longleftrightarrow>
     isTextType (cell_t cell) \<and>
     (case alignmentOf (cellStyleOf E styleIndex) of
        None \<Rightarrow> True
      | Some a \<Rightarrow>
          \<not> wrapText a \<and> \<not> shrinkToFit a \<and> textRotation a = 0 \<and>
          horizontal a \<notin> {Some ''center'', Some ''right'', Some ''justify'', Some ''distributed''}) \<and>
     \<not> mergeHas msm rowNum colNum \<and>
     cellText E cell \<noteq> [] \<and>
     \<not> js_le (Fin (measureTextWidth E (cellText E cell) (cellStyleOf E styleIndex)))
            (js_max (Fin 0)
               (dsub (calcColumnWidthPx (e_currentMDW E) (colWidthOrDefault E colNum)) (Fin 6)))"

text \<open>
  The preconditions as the specification words them: the raw type is textual, which
  leaves out the string result of a formula (\<^verbatim>\<open>t="str"\<close>) with the boolean and numeric cells,
  and the measured width exceeds the column width minus the padding.
\<close>

definition isTextual_spec :: "string option \<Rightarrow> bool" where
  "isTextual_spec cellType \<longleftrightarrow> cellType = Some ''s'' \<or> cellType = Some ''inlineStr''"

definition overflowEligible_spec ::
    "env \<Rightarrow> cellElem \<Rightarrow> int option \<Rightarrow> jsint \<Rightarrow> int \<Rightarrow> (int \<times> int \<rightharpoonup> int \<times> int \<times> int \<times> int) \<Rightarrow> bool" where
  "overflowEligible_spec E cell styleIndex rowNum colNum msm \<longleftrightarrow>
     isTextual_spec (cell_t cell) \<and>
     (case alignmentOf (cellStyleOf E styleIndex) of
        None \<Rightarrow> True
      | Some a \<Rightarrow>
          \<not> wrapText a \<and> \<not> shrinkToFit a \<and> textRotation a = 0 \<and>
          horizontal a \<notin> {Some ''center'', Some ''right'', Some ''justify'', Some ''distributed''}) \<and>
     \<not> mergeHas msm rowNum colNum \<and>
     js_lt (dsub (calcColumnWidthPx (e_currentMDW E) (colWidthOrDefault E colNum)) (Fin 6))
           (Fin (measureTextWidth E (cellText E cell) (cellStyleOf E styleIndex)))"

section \<open>An example workbook\<close>

text \<open>
  A small workbook for evaluating the layout functions: a default cell format and one
  with thin borders on all four sides, three shared strings, default column widths, four
  columns, an MDW of 7 pixels, and the reference host in the zone UTC.
\<close>

definition exampleEnv :: env where
  "exampleEnv =
     \<lparr>e_cellXfs =
        [\<lparr>fontId = 0, fillId = 0, borderId = 0, numFmtId = 0, xfId = None,
          applyAlignment = None, xfAlignment = None\<rparr>,
         \<lparr>fontId = 0, fillId = 0, borderId = 1, numFmtId = 0, xfId = None,
          applyAlignment = None, xfAlignment = None\<rparr>],
      e_borders =
        [\<lparr>b_left = None, b_right = None, b_top = None, b_bottom = None\<rparr>,
         \<lparr>b_left = Some \<lparr>bs_style = ''thin'', bs_color = None\<rparr>,
          b_right = Some \<lparr>bs_style = ''thin'', bs_color = None\<rparr>,
          b_top = Some \<lparr>bs_style = ''thin'', bs_color = None\<rparr>,
          b_bottom = Some \<lparr>bs_style = ''thin'', bs_color = None\<rparr>\<rparr>],
      e_sharedStrings = [''Quarterly revenue'', ''x'', []],
      e_numFmts = Map.empty,
      e_themeColors = (\<lambda>slot. None),
      e_currentMaxCol = 4,
      e_currentColWidths = Map.empty,
      e_currentMDW = 7,
      e_host = refHost 0\<rparr>"

text \<open>
  Four cells: a long shared string, a number, a shared string that is empty, and the
  string result of a formula.
\<close>

definition cellLong :: cellElem where
  "cellLong = \<lparr>cell_r = Some ''A1'', cell_s = None, cell_t = Some ''s'', cell_v = Some ''0'', cell_is = None\<rparr>"

definition cellShort :: cellElem where
  "cellShort = \<lparr>cell_r = Some ''D1'', cell_s = None, cell_t = None, cell_v = Some ''12.50'', cell_is = None\<rparr>"

definition cellEmptyText :: cellElem where
  "cellEmptyText = \<lparr>cell_r = Some ''A1'', cell_s = None, cell_t = Some ''s'', cell_v = Some ''2'', cell_is = None\<rparr>"

definition cellFormulaText :: cellElem where
  "cellFormulaText =
     \<lparr>cell_r = Some ''A1'', cell_s = None, cell_t = Some ''str'', cell_v = Some ''Quarterly revenue'',
      cell_is = None\<rparr>"

text \<open>
  A row with the long text in column 1 and the number in column 4, the same row with the
  formula result in column 1, a row with only the empty text in column 1, a sheet without
  merged ranges, and a sheet without style indices.
\<close>

definition exampleCellMap :: "int \<rightharpoonup> cellElem" where
  "exampleCellMap = [1 \<mapsto> cellLong, 4 \<mapsto> cellShort]"

definition formulaCellMap :: "int \<rightharpoonup> cellElem" where
  "formulaCellMap = [1 \<mapsto> cellFormulaText, 4 \<mapsto> cellShort]"

definition emptyTextCellMap :: "int \<rightharpoonup> cellElem" where
  "emptyTextCellMap = [1 \<mapsto> cellEmptyText]"

definition noMerges :: "int \<times> int \<rightharpoonup> int \<times> int \<times> int \<times> int" where
  "noMerges = Map.empty"

definition noStyleIndex :: "jsint \<Rightarrow> int \<Rightarrow> int option" where
  "noStyleIndex r c = None"

text \<open>The same workbook with a first column of width 0.0625, which is 5 pixels wide.\<close>

definition narrowEnv :: env where
  "narrowEnv = exampleEnv\<lparr>e_currentColWidths := [1 \<mapsto> Fin (1 / 16)]\<rparr>"

text \<open>
  The sheet of the example row in which \<^verbatim>\<open>B1:C1\<close> is a merged range, with the map
  \<^verbatim>\<open>mergeSpanMap\<close> that \<^verbatim>\<open>renderSheet\<close> builds for it.
\<close>

definition mergedBC :: "int \<times> int \<rightharpoonup> int \<times> int \<times> int \<times> int" where
  "mergedBC = mergeSpanMap (buildMerges [Some ''B1:C1''])"

text \<open>
  A row with the long text in column 99 (\<^verbatim>\<open>CU1\<close>) and the number in column 102 (\<^verbatim>\<open>CX1\<close>),
  its cell map, and the workbook with the \<^verbatim>\<open>currentMaxCol\<close> that \<^verbatim>\<open>renderSheet\<close> computes for
  a sheet of this row.
\<close>

definition cellFar :: cellElem where
  "cellFar = \<lparr>cell_r = Some ''CU1'', cell_s = None, cell_t = Some ''s'', cell_v = Some ''0'', cell_is = None\<rparr>"

definition cellFarNumber :: cellElem where
  "cellFarNumber =
     \<lparr>cell_r = Some ''CX1'', cell_s = None, cell_t = None, cell_v = Some ''12.50'', cell_is = None\<rparr>"

definition farRow :: rowElem where
  "farRow = \<lparr>row_r = Some ''1'', row_s = None, row_cells = [cellFar, cellFarNumber]\<rparr>"

definition farCellMap :: "int \<rightharpoonup> cellElem" where
  "farCellMap = buildCellMap (row_cells farRow)"

definition farEnv :: env where
  "farEnv = exampleEnv\<lparr>e_currentMaxCol := computeMaxCol [farRow]\<rparr>"

text \<open>
  Two panes with \<^verbatim>\<open>ySplit="2"\<close> and an \<^verbatim>\<open>xSplit\<close> of U+FEFF, U+00A0 and the digit 1: one
  frozen, one split.
\<close>

definition frozenPane :: pane where
  "frozenPane =
     \<lparr>state = Some (unitsOf ''frozen''), ySplit = Some (unitsOf ''2''),
      xSplit = Some (0xFEFF # 0xA0 # unitsOf ''1'')\<rparr>"

definition splitPane :: pane where
  "splitPane =
     \<lparr>state = Some (unitsOf ''split''), ySplit = Some (unitsOf ''2''),
      xSplit = Some (0xFEFF # 0xA0 # unitsOf ''1'')\<rparr>"

text \<open>
  The doubles that the literals \<^verbatim>\<open>7.68\<close> and \<^verbatim>\<open>0.5011160714285714\<close> denote, and the widths of
  the ten digit glyphs in two fonts: one whose widest digit measures 7.68 pixels and one
  whose widest digit measures 7 pixels.
\<close>

definition double_7_68 :: rat where
  "double_7_68 = 1080863910568919 / 140737488355328"

definition double_0_5011 :: rat where
  "double_0_5011 = 2256826152555081 / 4503599627370496"

definition wideDigits :: "rat list" where
  "wideDigits = [double_7_68, 7, 7, 7, 7, 7, 7, 7, 7, 7]"

definition plainDigits :: "rat list" where
  "plainDigits = [7, 6, 7, 7, 7, 7, 7, 7, 7, 7]"

text \<open>
  A base style with a centred, wrapping alignment, and three cell formats that name it as
  parent: one without alignment, one with \<^verbatim>\<open>applyAlignment="0"\<close>, one with an alignment of
  its own.
\<close>

definition exampleBaseXf :: baseXf where
  "exampleBaseXf =
     \<lparr>baseAlignment = Some \<lparr>horizontal = Some ''center'', vertical = None, wrapText = True,
        shrinkToFit = False, textRotation = 0, indent = 0\<rparr>\<rparr>"

definition exampleCellXfs :: "xf list" where
  "exampleCellXfs =
     [\<lparr>fontId = 0, fillId = 0, borderId = 0, numFmtId = 0, xfId = Some (Some 0),
        applyAlignment = None, xfAlignment = None\<rparr>,
      \<lparr>fontId = 1, fillId = 0, borderId = 0, numFmtId = 0, xfId = Some (Some 0),
        applyAlignment = Some ''0'', xfAlignment = None\<rparr>,
      \<lparr>fontId = 2, fillId = 0, borderId = 0, numFmtId = 0, xfId = Some (Some 0),
        applyAlignment = Some ''1'',
        xfAlignment = Some \<lparr>horizontal = Some ''right'', vertical = None, wrapText = False,
          shrinkToFit = False, textRotation = 0, indent = 0\<rparr>\<rparr>]"

text \<open>
  A sheet whose columns 1 and 2 have style 7, whose row 1 has style 4, and whose cell
  \<^verbatim>\<open>B1\<close> has style 3.
\<close>

definition cascadeSheet :: sheetDoc where
  "cascadeSheet =
     \<lparr>doc_pane = None,
      doc_cols = [\<lparr>col_min = Some ''1'', col_max = Some ''2'', col_width = Fin 10,
                   col_style = None, col_s = Some ''7''\<rparr>],
      doc_mergeCells = [],
      doc_rows = [\<lparr>row_r = Some ''1'', row_s = Some ''4'', row_cells =
        [\<lparr>cell_r = Some ''A1'', cell_s = None, cell_t = None, cell_v = Some ''5'', cell_is = None\<rparr>,
         \<lparr>cell_r = Some ''B1'', cell_s = Some ''3'', cell_t = None, cell_v = Some ''5'', cell_is = None\<rparr>]\<rparr>]\<rparr>"

text \<open>A sheet with a cell in column 105 (\<^verbatim>\<open>DA1\<close>) and a row numbered 1001.\<close>

definition wideSheet :: sheetDoc where
  "wideSheet =
     \<lparr>doc_pane = None, doc_cols = [], doc_mergeCells = [], doc_rows =
       [\<lparr>row_r = Some ''1'', row_s = None, row_cells =
         [\<lparr>cell_r = Some ''DA1'', cell_s = None, cell_t = None, cell_v = Some ''5'', cell_is = None\<rparr>]\<rparr>,
        \<lparr>row_r = Some ''1001'', row_s = None, row_cells =
         [\<lparr>cell_r = Some ''A1001'', cell_s = None, cell_t = None, cell_v = Some ''6'', cell_is = None\<rparr>]\<rparr>]\<rparr>"

section \<open>Properties of the double arithmetic\<close>

lemma two_powi_pos: "0 < (2::rat) powi e"
  by simp

lemma two_powi_mono: "m \<le> n \<Longrightarrow> (2::rat) powi m \<le> 2 powi n"
  by (rule power_int_increasing) simp_all

lemma two_powi_less_imp: "(2::rat) powi m < 2 powi n \<Longrightarrow> m < n"
proof (rule ccontr)
  assume a: "(2::rat) powi m < 2 powi n" and "\<not> m < n"
  then have "n \<le> m" by simp
  then have "(2::rat) powi n \<le> 2 powi m" by (rule two_powi_mono)
  with a show False by simp
qed

lemma two_powi_add: "(2::rat) powi (m + n) = 2 powi m * 2 powi n"
  by (rule power_int_add) simp

lemma two_powi_split53: "(2::rat) powi (e + 1) = 2 powi 53 * 2 powi (e - 52)"
proof -
  have "e + 1 = 53 + (e - 52)" by simp
  then have "(2::rat) powi (e + 1) = 2 powi (53 + (e - 52))" by (rule arg_cong)
  then show ?thesis by (simp only: two_powi_add)
qed

lemma two_powi_split52: "(2::rat) powi e = 2 powi 52 * 2 powi (e - 52)"
proof -
  have "e = 52 + (e - 52)" by simp
  then have "(2::rat) powi e = 2 powi (52 + (e - 52))" by (rule arg_cong)
  then show ?thesis by (simp only: two_powi_add)
qed

lemma two_powi_diff: "(2::rat) powi (m - n) = 2 powi m / 2 powi n"
  by (rule power_int_diff) simp

lemma bitlen_pos_bounds:
  assumes "0 < (n::int)"
  shows "1 \<le> bitlen n" and "(2::rat) powi (bitlen n - 1) \<le> of_int n"
    and "of_int n + 1 \<le> (2::rat) powi bitlen n"
proof -
  from bitlen_bounds [OF assms]
  have lo: "2 ^ nat (bitlen n - 1) \<le> n" and hi: "n < 2 ^ nat (bitlen n)" by simp_all
  show b1: "1 \<le> bitlen n"
  proof (rule ccontr)
    assume "\<not> 1 \<le> bitlen n"
    then have "nat (bitlen n) = 0" by simp
    with hi assms show False by simp
  qed
  have "(2::rat) powi (bitlen n - 1) = 2 ^ nat (bitlen n - 1)"
    using b1 by (simp add: power_int_def)
  also have "\<dots> = of_int (2 ^ nat (bitlen n - 1))" by simp
  also have "\<dots> \<le> of_int n" using lo by (simp only: of_int_le_iff)
  finally show "(2::rat) powi (bitlen n - 1) \<le> of_int n" .
  from hi have "n + 1 \<le> 2 ^ nat (bitlen n)" by simp
  then have "(of_int (n + 1) :: rat) \<le> of_int (2 ^ nat (bitlen n))" by (simp only: of_int_le_iff)
  also have "\<dots> = 2 powi bitlen n" using b1 by (simp add: power_int_def)
  finally show "of_int n + 1 \<le> (2::rat) powi bitlen n" by simp
qed

lemma floorLog2_bounds:
  assumes "0 < x"
  shows "2 powi floorLog2 x \<le> x" and "x < 2 powi (floorLog2 x + 1)"
proof -
  have "2 powi floorLog2 x \<le> x \<and> x < 2 powi (floorLog2 x + 1)"
  proof (cases "1 \<le> x")
    case True
    then have n: "0 < \<lfloor>x\<rfloor>" by simp
    have fl: "floorLog2 x = bitlen \<lfloor>x\<rfloor> - 1" using True by (simp add: floorLog2_def)
    have "2 powi (bitlen \<lfloor>x\<rfloor> - 1) \<le> (of_int \<lfloor>x\<rfloor> :: rat)" by (rule bitlen_pos_bounds(2) [OF n])
    also have "\<dots> \<le> x" by simp
    finally have lo: "2 powi floorLog2 x \<le> x" using fl by simp
    have "x < of_int \<lfloor>x\<rfloor> + 1" by linarith
    also have "\<dots> \<le> 2 powi bitlen \<lfloor>x\<rfloor>" by (rule bitlen_pos_bounds(3) [OF n])
    finally have "x < 2 powi (floorLog2 x + 1)" using fl by simp
    with lo show ?thesis by simp
  next
    case False
    with assms have x1: "x < 1" by simp
    define m where "m = \<lceil>1 / x\<rceil> - 1"
    have y1: "1 < 1 / x" using assms x1 by simp
    then have "1 < \<lceil>1 / x\<rceil>" by (simp add: less_ceiling_iff)
    then have m: "0 < m" by (simp add: m_def)
    have fl: "floorLog2 x = - bitlen m" using False by (simp add: floorLog2_def m_def)
    have up: "1 / x \<le> of_int m + 1" by (simp add: m_def)
    have low: "of_int m < 1 / x" unfolding m_def by linarith
    have "1 / x \<le> 2 powi bitlen m"
      using up bitlen_pos_bounds(3) [OF m] by simp
    then have "1 \<le> 2 powi bitlen m * x"
      using assms by (simp add: pos_divide_le_eq)
    then have "1 / 2 powi bitlen m \<le> x"
      by (simp add: pos_divide_le_eq mult.commute)
    then have lo: "2 powi floorLog2 x \<le> x"
      using fl by (simp add: power_int_minus_divide)
    have "2 powi (bitlen m - 1) < 1 / x"
      using low bitlen_pos_bounds(2) [OF m] by simp
    then have "2 powi (bitlen m - 1) * x < 1"
      using assms by (simp add: pos_less_divide_eq)
    then have "x < 1 / 2 powi (bitlen m - 1)"
      by (simp add: pos_less_divide_eq mult.commute)
    also have "\<dots> = 2 powi (- (bitlen m - 1))" by (simp only: power_int_minus_divide)
    also have "- (bitlen m - 1) = floorLog2 x + 1" using fl by simp
    finally have "x < 2 powi (floorLog2 x + 1)" .
    with lo show ?thesis by simp
  qed
  then show "2 powi floorLog2 x \<le> x" and "x < 2 powi (floorLog2 x + 1)" by simp_all
qed

lemma floorLog2_unique:
  assumes "0 < x" and "2 powi e \<le> x" and "x < 2 powi (e + 1)"
  shows "floorLog2 x = e"
proof -
  from floorLog2_bounds [OF assms(1)] assms
  have "(2::rat) powi floorLog2 x < 2 powi (e + 1)" and "(2::rat) powi e < 2 powi (floorLog2 x + 1)"
    by simp_all
  then have "floorLog2 x < e + 1" and "e < floorLog2 x + 1"
    by (auto dest: two_powi_less_imp)
  then show ?thesis by simp
qed

lemma floorLog2_mono:
  assumes "0 < x" and "x \<le> y"
  shows "floorLog2 x \<le> floorLog2 y"
proof -
  from assms have y: "0 < y" by simp
  from floorLog2_bounds(1) [OF assms(1)] floorLog2_bounds(2) [OF y] assms(2)
  have "(2::rat) powi floorLog2 x < 2 powi (floorLog2 y + 1)" by simp
  then have "floorLog2 x < floorLog2 y + 1" by (rule two_powi_less_imp)
  then show ?thesis by simp
qed

lemma roundEven_of_int: "roundEven (of_int n) = n"
  by (simp add: roundEven_def)

lemma roundEven_floor_le: "\<lfloor>a\<rfloor> \<le> roundEven a"
  by (simp add: roundEven_def Let_def)

lemma roundEven_le_floor1: "roundEven a \<le> \<lfloor>a\<rfloor> + 1"
  by (simp add: roundEven_def Let_def)

lemma roundEven_mono:
  assumes "a \<le> b"
  shows "roundEven a \<le> roundEven b"
proof (cases "\<lfloor>a\<rfloor> = \<lfloor>b\<rfloor>")
  case True
  with assms show ?thesis
    by (auto simp: roundEven_def Let_def)
next
  case False
  from assms have "\<lfloor>a\<rfloor> \<le> \<lfloor>b\<rfloor>" by (rule floor_mono)
  with False have "\<lfloor>a\<rfloor> + 1 \<le> \<lfloor>b\<rfloor>" by simp
  with roundEven_le_floor1 [of a] roundEven_floor_le [of b] show ?thesis by linarith
qed

lemma roundEven_ge: "of_int n \<le> a \<Longrightarrow> n \<le> roundEven a"
  using roundEven_mono [of "of_int n" a] by (simp add: roundEven_of_int)

lemma roundEven_le: "a \<le> of_int n \<Longrightarrow> roundEven a \<le> n"
  using roundEven_mono [of a "of_int n"] by (simp add: roundEven_of_int)


lemma roundMag_nonneg: "0 < a \<Longrightarrow> 0 \<le> roundMag a"
proof -
  assume a: "0 < a"
  have "0 \<le> a / 2 powi (max (floorLog2 a) (- 1022) - 52)" using a by simp
  then have "of_int 0 \<le> a / 2 powi (max (floorLog2 a) (- 1022) - 52)" by simp
  then have "0 \<le> roundEven (a / 2 powi (max (floorLog2 a) (- 1022) - 52))"
    by (rule roundEven_ge)
  then show ?thesis by (simp add: roundMag_def Let_def)
qed

lemma roundMag_upper:
  assumes "0 < a"
  shows "roundMag a \<le> 2 powi (max (floorLog2 a) (- 1022) + 1)"
proof -
  define e where "e = max (floorLog2 a) (- 1022)"
  define q :: rat where "q = 2 powi (e - 52)"
  have q: "0 < q" by (simp add: q_def)
  have "a < 2 powi (floorLog2 a + 1)" by (rule floorLog2_bounds(2) [OF assms])
  also have "\<dots> \<le> 2 powi (e + 1)" by (rule two_powi_mono) (simp add: e_def)
  also have "\<dots> = 2 powi 53 * q" unfolding q_def by (rule two_powi_split53)
  finally have "a / q \<le> 2 powi 53" using q by (simp add: pos_divide_le_eq)
  then have "a / q \<le> of_int (2 ^ 53)" by simp
  then have "roundEven (a / q) \<le> 2 ^ 53" by (rule roundEven_le)
  then have "(of_int (roundEven (a / q)) :: rat) \<le> of_int (2 ^ 53)" by (simp only: of_int_le_iff)
  then have "of_int (roundEven (a / q)) * q \<le> of_int (2 ^ 53) * q"
    using q by (simp only: mult_le_cancel_right_pos)
  also have "of_int (2 ^ 53) * q = 2 powi (e + 1)"
    unfolding q_def using two_powi_split53 [of e] by simp
  finally have "of_int (roundEven (a / q)) * q \<le> 2 powi (e + 1)" .
  moreover have "roundMag a = of_int (roundEven (a / q)) * q"
    by (simp only: roundMag_def Let_def e_def q_def)
  ultimately show ?thesis by (simp only: e_def)
qed

lemma roundMag_lower:
  assumes "0 < a" and "- 1022 \<le> floorLog2 a"
  shows "2 powi floorLog2 a \<le> roundMag a"
proof -
  define e where "e = floorLog2 a"
  define q :: rat where "q = 2 powi (e - 52)"
  have q: "0 < q" by (simp add: q_def)
  have m: "max (floorLog2 a) (- 1022) = e" using assms(2) by (simp add: e_def)
  have eq: "(2::rat) powi e = 2 powi 52 * q" unfolding q_def by (rule two_powi_split52)
  have "2 powi e \<le> a" unfolding e_def by (rule floorLog2_bounds(1) [OF assms(1)])
  then have "2 powi 52 \<le> a / q" using q eq by (simp add: pos_le_divide_eq)
  then have "of_int (2 ^ 52) \<le> a / q" by simp
  then have "2 ^ 52 \<le> roundEven (a / q)" by (rule roundEven_ge)
  then have "(of_int (2 ^ 52) :: rat) \<le> of_int (roundEven (a / q))" by (simp only: of_int_le_iff)
  then have "of_int (2 ^ 52) * q \<le> of_int (roundEven (a / q)) * q"
    using q by (simp only: mult_le_cancel_right_pos)
  moreover have "of_int (2 ^ 52) * q = 2 powi e" using eq by simp
  ultimately have "2 powi e \<le> of_int (roundEven (a / q)) * q" by simp
  moreover have "roundMag a = of_int (roundEven (a / q)) * q"
    by (simp only: roundMag_def Let_def m q_def)
  ultimately show ?thesis by (simp only: e_def)
qed

lemma roundMag_mono:
  assumes "0 < a" and "a \<le> b"
  shows "roundMag a \<le> roundMag b"
proof -
  from assms have b: "0 < b" by simp
  define ea where "ea = max (floorLog2 a) (- 1022)"
  define eb where "eb = max (floorLog2 b) (- 1022)"
  have le: "ea \<le> eb" using floorLog2_mono [OF assms] by (simp add: ea_def eb_def)
  show ?thesis
  proof (cases "ea = eb")
    case True
    have "a / 2 powi (eb - 52) \<le> b / 2 powi (eb - 52)"
      using assms(2) by (simp add: divide_right_mono)
    then have "roundEven (a / 2 powi (eb - 52)) \<le> roundEven (b / 2 powi (eb - 52))"
      by (rule roundEven_mono)
    then have "(of_int (roundEven (a / 2 powi (eb - 52))) :: rat)
                 \<le> of_int (roundEven (b / 2 powi (eb - 52)))"
      by (simp only: of_int_le_iff)
    then have "of_int (roundEven (a / 2 powi (eb - 52))) * 2 powi (eb - 52)
                 \<le> of_int (roundEven (b / 2 powi (eb - 52))) * (2::rat) powi (eb - 52)"
      by (simp only: mult_le_cancel_right_pos two_powi_pos)
    then show ?thesis using True by (simp add: roundMag_def Let_def ea_def eb_def)
  next
    case False
    with le have lt: "ea + 1 \<le> eb" by simp
    then have "- 1022 < eb" by (simp add: ea_def)
    then have fb: "eb = floorLog2 b" and fb2: "- 1022 \<le> floorLog2 b" by (simp_all add: eb_def)
    have "roundMag a \<le> 2 powi (ea + 1)" unfolding ea_def by (rule roundMag_upper [OF assms(1)])
    also have "\<dots> \<le> 2 powi eb" using lt by (rule two_powi_mono)
    also have "\<dots> \<le> roundMag b" unfolding fb by (rule roundMag_lower [OF b fb2])
    finally show ?thesis .
  qed
qed

lemma roundD_nonneg_cases:
  assumes "0 \<le> x"
  shows "roundD x = PosInf \<or> (\<exists>r. 0 \<le> r \<and> roundD x = Fin r)"
proof (cases "x = 0")
  case True
  then show ?thesis by (simp add: roundD_def)
next
  case False
  with assms have "0 < x" by simp
  with roundMag_nonneg [of x] show ?thesis by (simp add: roundD_def Let_def)
qed

lemma roundD_mono:
  assumes "0 \<le> x" and "x \<le> y"
  shows "js_le (roundD x) (roundD y)"
proof (cases "x = 0")
  case True
  then have "roundD x = Fin 0" by (simp add: roundD_def)
  moreover from assms have "0 \<le> y" by simp
  ultimately show ?thesis using roundD_nonneg_cases [of y] by auto
next
  case False
  with assms have x: "0 < x" and y: "0 < y" by simp_all
  from roundMag_mono [OF x assms(2)] x y show ?thesis
    by (simp add: roundD_def Let_def)
qed


lemma roundMag_eval:
  assumes "0 < a" and "2 powi e \<le> a" and "a < 2 powi (e + 1)" and "- 1022 \<le> e"
  shows "roundMag a = of_int (roundEven (a / 2 powi (e - 52))) * 2 powi (e - 52)"
proof -
  have "floorLog2 a = e" by (rule floorLog2_unique [OF assms(1-3)])
  with assms(4) have "max (floorLog2 a) (- 1022) = e" by simp
  then show ?thesis by (simp only: roundMag_def Let_def)
qed

lemma roundD_eval:
  assumes "0 < x" and "2 powi e \<le> x" and "x < 2 powi (e + 1)" and "- 1022 \<le> e" and "e \<le> 1022"
  shows "roundD x = Fin (of_int (roundEven (x / 2 powi (e - 52))) * 2 powi (e - 52))"
proof -
  have fl: "floorLog2 x = e" by (rule floorLog2_unique [OF assms(1-3)])
  with assms(4) have m: "max (floorLog2 x) (- 1022) = e" by simp
  have "roundMag x \<le> 2 powi (max (floorLog2 x) (- 1022) + 1)" by (rule roundMag_upper [OF assms(1)])
  also have "\<dots> = 2 powi (e + 1)" by (simp only: m)
  also have "\<dots> < 2 powi 1024" by (rule power_int_strict_increasing) (use assms(5) in simp_all)
  finally have "\<not> 2 powi 1024 \<le> roundMag x" by simp
  moreover have "\<bar>x\<bar> = x" using assms(1) by simp
  ultimately have "roundD x = Fin (roundMag x)"
    using assms(1) by (simp add: roundD_def Let_def)
  with roundMag_eval [OF assms(1-4)] show ?thesis by simp
qed


lemma roundEven_divide:
  assumes "0 < q"
  shows "roundEven (of_int p / of_int q) =
           (if 2 * (p mod q) < q then p div q
            else if q < 2 * (p mod q) then p div q + 1
            else if even (p div q) then p div q else p div q + 1)"
proof -
  have f: "\<lfloor>(of_int p :: rat) / of_int q\<rfloor> = p div q" by (rule floor_divide_of_int_eq)
  have "(of_int p :: rat) = of_int (q * (p div q) + p mod q)" by simp
  also have "\<dots> = of_int q * of_int (p div q) + of_int (p mod q)" by (simp only: of_int_add of_int_mult)
  finally have r: "(of_int p :: rat) / of_int q - of_int (p div q) = of_int (p mod q) / of_int q"
    using assms by (simp add: field_simps)
  have lt: "(of_int (p mod q) :: rat) / of_int q < 1 / 2 \<longleftrightarrow> 2 * (p mod q) < q"
  proof -
    have "(of_int (p mod q) :: rat) / of_int q < 1 / 2 \<longleftrightarrow> (of_int (2 * (p mod q)) :: rat) < of_int q"
      using assms by (simp add: field_simps)
    then show ?thesis by (simp only: of_int_less_iff)
  qed
  have gt: "1 / 2 < (of_int (p mod q) :: rat) / of_int q \<longleftrightarrow> q < 2 * (p mod q)"
  proof -
    have "1 / 2 < (of_int (p mod q) :: rat) / of_int q \<longleftrightarrow> (of_int q :: rat) < of_int (2 * (p mod q))"
      using assms by (simp add: field_simps)
    then show ?thesis by (simp only: of_int_less_iff)
  qed
  show ?thesis
    unfolding roundEven_def Let_def f r lt gt ..
qed

lemma roundEven_numeral:
  "roundEven (numeral a / numeral b) =
     (if 2 * (numeral a mod numeral b) < (numeral b :: int) then numeral a div numeral b
      else if (numeral b :: int) < 2 * (numeral a mod numeral b) then numeral a div numeral b + 1
      else if even (numeral a div numeral b :: int) then numeral a div numeral b
      else numeral a div numeral b + 1)"
  using roundEven_divide [of "numeral b" "numeral a"] by simp

lemma roundEven_numeral_int: "roundEven (numeral a) = numeral a"
  using roundEven_of_int [of "numeral a"] by simp


lemma nonNegative_roundD: "0 \<le> x \<Longrightarrow> nonNegative (roundD x)"
  using roundD_nonneg_cases [of x] by auto

lemma nonNegative_le: "nonNegative u \<Longrightarrow> js_le u v \<Longrightarrow> nonNegative v"
  by (cases u; cases v) simp_all

lemma js_le_PosInf: "nonNegative u \<Longrightarrow> js_le u PosInf"
  by (cases u) simp_all

lemma js_le_zero: "nonNegative u \<Longrightarrow> js_le (Fin 0) u"
  by (cases u) simp_all

lemma dmul_left:
  assumes "0 < a" and "nonNegative u"
  shows "nonNegative (dmul (Fin a) u)"
    and "js_le u v \<Longrightarrow> js_le (dmul (Fin a) u) (dmul (Fin a) v)"
proof -
  show "nonNegative (dmul (Fin a) u)"
    using assms by (cases u) (simp_all add: nonNegative_roundD)
  assume "js_le u v"
  with assms show "js_le (dmul (Fin a) u) (dmul (Fin a) v)"
    by (cases u; cases v)
       (simp_all add: roundD_mono js_le_PosInf nonNegative_roundD mult_left_mono)
qed

lemma dmul_right:
  assumes "0 < a" and "nonNegative u"
  shows "nonNegative (dmul u (Fin a))"
    and "js_le u v \<Longrightarrow> js_le (dmul u (Fin a)) (dmul v (Fin a))"
proof -
  show "nonNegative (dmul u (Fin a))"
    using assms by (cases u) (simp_all add: nonNegative_roundD)
  assume "js_le u v"
  with assms show "js_le (dmul u (Fin a)) (dmul v (Fin a))"
    by (cases u; cases v)
       (simp_all add: roundD_mono js_le_PosInf nonNegative_roundD mult_right_mono)
qed

lemma ddiv_right:
  assumes "0 < a" and "nonNegative u"
  shows "nonNegative (ddiv u (Fin a))"
    and "js_le u v \<Longrightarrow> js_le (ddiv u (Fin a)) (ddiv v (Fin a))"
proof -
  show "nonNegative (ddiv u (Fin a))"
    using assms by (cases u) (simp_all add: nonNegative_roundD)
  assume "js_le u v"
  with assms show "js_le (ddiv u (Fin a)) (ddiv v (Fin a))"
    by (cases u; cases v)
       (simp_all add: roundD_mono js_le_PosInf nonNegative_roundD divide_right_mono)
qed

lemma dadd_right:
  assumes "nonNegative c" and "nonNegative u"
  shows "nonNegative (dadd u c)"
    and "js_le u v \<Longrightarrow> js_le (dadd u c) (dadd v c)"
proof -
  show "nonNegative (dadd u c)"
    using assms by (cases u; cases c) (simp_all add: nonNegative_roundD)
  assume "js_le u v"
  with assms show "js_le (dadd u c) (dadd v c)"
    by (cases u; cases v; cases c)
       (simp_all add: roundD_mono js_le_PosInf nonNegative_roundD)
qed

lemma dfloor_mono:
  assumes "nonNegative u"
  shows "nonNegative (dfloor u)"
    and "js_le u v \<Longrightarrow> js_le (dfloor u) (dfloor v)"
proof -
  show "nonNegative (dfloor u)"
    using assms by (cases u) simp_all
  assume "js_le u v"
  with assms show "js_le (dfloor u) (dfloor v)"
    by (cases u; cases v) (simp_all add: floor_mono)
qed


lemma floor_rat_numeral: "\<lfloor>(numeral a :: rat) / numeral b\<rfloor> = numeral a div numeral b"
  using floor_divide_of_int_eq [of "numeral a" "numeral b", where ?'a = rat] by simp

lemmas double_numeral_simps = roundEven_numeral roundEven_numeral_int floor_rat_numeral

lemma roundD_neg: "roundD (- x) = dneg (roundD x)"
proof (cases "x = 0")
  case True
  then show ?thesis by (simp add: roundD_def)
next
  case False
  then show ?thesis by (cases "0 < x") (simp_all add: roundD_def Let_def)
qed

lemma roundD_cases: "roundD x \<noteq> NaN"
  by (simp add: roundD_def Let_def)

lemma roundMag_of_int:
  assumes "0 < n" and "n < 2 ^ 53"
  shows "roundMag (of_int n) = of_int n"
proof -
  define a :: rat where "a = of_int n"
  define e where "e = floorLog2 a"
  define k where "k = nat (52 - e)"
  have a: "0 < a" and a1: "1 \<le> a" using assms(1) by (simp_all add: a_def)
  have lo: "2 powi e \<le> a" and hi: "a < 2 powi (e + 1)"
    unfolding e_def by (rule floorLog2_bounds [OF a])+
  have "(2::rat) powi 0 < 2 powi (e + 1)" using a1 hi by simp
  then have "0 < e + 1" by (rule two_powi_less_imp)
  then have e0: "0 \<le> e" by simp
  have "(of_int n :: rat) < of_int (2 ^ 53)" using assms(2) by (simp only: of_int_less_iff)
  then have "a < 2 powi 53" by (simp add: a_def)
  with lo have "(2::rat) powi e < 2 powi 53" by simp
  then have "e < 53" by (rule two_powi_less_imp)
  then have e52: "e - 52 = - int k" by (simp add: k_def)
  have m: "max (floorLog2 a) (- 1022) = e" using e0 by (simp add: e_def)
  have q: "(2::rat) powi (e - 52) = 1 / 2 ^ k"
    unfolding e52 by (simp add: power_int_minus_divide)
  have "a / 2 powi (e - 52) = of_int (n * 2 ^ k)"
    unfolding q by (simp add: a_def)
  then have "roundEven (a / 2 powi (e - 52)) = n * 2 ^ k"
    by (simp only: roundEven_of_int)
  then have "roundMag a = of_int (n * 2 ^ k) * (1 / 2 ^ k)"
    by (simp only: roundMag_def Let_def m q)
  then show ?thesis by (simp add: a_def)
qed

lemma roundD_of_int:
  assumes "\<bar>n\<bar> < 2 ^ 53"
  shows "roundD (of_int n) = Fin (of_int n)"
proof -
  have pos: "roundD (of_int m) = Fin (of_int m)" if "0 < m" and "m < 2 ^ 53" for m :: int
  proof -
    have r: "roundMag (of_int m) = of_int m" by (rule roundMag_of_int [OF that])
    have "(of_int m :: rat) < of_int (2 ^ 53)" using that(2) by (simp only: of_int_less_iff)
    also have "\<dots> \<le> 2 powi 1024" by simp
    finally have "\<not> (2::rat) powi 1024 \<le> of_int m" by simp
    moreover have "\<bar>of_int m :: rat\<bar> = of_int m" using that(1) by simp
    ultimately show ?thesis
      using that(1) r by (simp add: roundD_def Let_def)
  qed
  show ?thesis
  proof (cases "n = 0")
    case True
    then show ?thesis by (simp add: roundD_def)
  next
    case False
    show ?thesis
    proof (cases "0 < n")
      case True
      with assms show ?thesis by (intro pos) simp_all
    next
      case neg: False
      with False assms have "0 < - n" and "- n < 2 ^ 53" by simp_all
      then have "roundD (of_int (- n)) = Fin (of_int (- n))" by (rule pos)
      then have "dneg (roundD (- of_int (- n))) = Fin (of_int (- n))"
        by (simp only: roundD_neg) (cases "roundD (of_int (- n))", simp_all)
      then show ?thesis by (cases "roundD (of_int n)") simp_all
    qed
  qed
qed

lemma roundD_numeral: "numeral k < (2 ^ 53 :: int) \<Longrightarrow> roundD (numeral k) = Fin (numeral k)"
  using roundD_of_int [of "numeral k"] by simp

lemma roundD_neg_numeral:
  "numeral k < (2 ^ 53 :: int) \<Longrightarrow> roundD (- numeral k) = Fin (- numeral k)"
  using roundD_of_int [of "- numeral k"] by simp

section \<open>Properties of the column width\<close>

lemma foldl_max_ge: "a \<le> foldl (\<lambda>mx w. if w > mx then w else mx) a (ws :: rat list)"
proof (induction ws arbitrary: a)
  case Nil
  show ?case by simp
next
  case (Cons w ws)
  have "a \<le> (if w > a then w else a)" by simp
  also have "\<dots> \<le> foldl (\<lambda>mx w. if w > mx then w else mx) (if w > a then w else a) ws"
    by (rule Cons.IH)
  finally show ?case by simp
qed

lemma measureMaxDigitWidth_pos: "0 < measureMaxDigitWidth ds"
proof -
  have "0 \<le> foldl (\<lambda>mx w. if w > mx then w else mx) 0 ds"
    by (rule foldl_max_ge)
  then show ?thesis
    by (auto simp: measureMaxDigitWidth_def Let_def)
qed

lemma widthFormulaDouble_mono:
  assumes mdw: "0 < mdw" and w1: "0 < w1" and le: "w1 \<le> w2"
  shows "js_le (widthFormulaDouble mdw w1) (widthFormulaDouble mdw w2)"
    and "nonNegative (widthFormulaDouble mdw w1)"
proof -
  let ?c = "dfloor (ddiv (Fin 128) (Fin mdw))"
  let ?a = "\<lambda>w. dmul (Fin 256) (Fin w)"
  let ?b = "\<lambda>w. dadd (?a w) ?c"
  let ?d = "\<lambda>w. ddiv (?b w) (Fin 256)"
  let ?e = "\<lambda>w. dmul (?d w) (Fin mdw)"
  let ?f = "\<lambda>w. dfloor (?e w)"
  have p256: "0 < (256::rat)" by simp
  have "nonNegative (ddiv (Fin 128) (Fin mdw))"
    by (rule ddiv_right(1) [OF mdw]) simp
  then have c: "nonNegative ?c" by (rule dfloor_mono(1))
  have w: "nonNegative (Fin w1)" "js_le (Fin w1) (Fin w2)" using w1 le by simp_all
  have a1: "nonNegative (?a w1)" by (rule dmul_left(1) [OF p256 w(1)])
  have a2: "js_le (?a w1) (?a w2)" by (rule dmul_left(2) [OF p256 w(1) w(2)])
  have b1: "nonNegative (?b w1)" by (rule dadd_right(1) [OF c a1])
  have b2: "js_le (?b w1) (?b w2)" by (rule dadd_right(2) [OF c a1 a2])
  have d1: "nonNegative (?d w1)" by (rule ddiv_right(1) [OF p256 b1])
  have d2: "js_le (?d w1) (?d w2)" by (rule ddiv_right(2) [OF p256 b1 b2])
  have e1: "nonNegative (?e w1)" by (rule dmul_right(1) [OF mdw d1])
  have e2: "js_le (?e w1) (?e w2)" by (rule dmul_right(2) [OF mdw d1 d2])
  have f1: "nonNegative (?f w1)" by (rule dfloor_mono(1) [OF e1])
  have f2: "js_le (?f w1) (?f w2)" by (rule dfloor_mono(2) [OF e1 e2])
  have five: "nonNegative (Fin 5)" by simp
  show "js_le (widthFormulaDouble mdw w1) (widthFormulaDouble mdw w2)"
    unfolding widthFormulaDouble_def Let_def by (rule dadd_right(2) [OF five f1 f2])
  show "nonNegative (widthFormulaDouble mdw w1)"
    unfolding widthFormulaDouble_def Let_def by (rule dadd_right(1) [OF five f1])
qed

lemma calcColumnWidthPx_widthFormula:
  "mdw \<noteq> 0 \<Longrightarrow>
   calcColumnWidthPx mdw (Fin w) = (if w \<le> 0 then Fin 0 else widthFormulaDouble mdw w)"
  by (simp add: calcColumnWidthPx_def widthFormulaDouble_def)

lemma calcColumnWidthPx_mono_pos:
  assumes mdw: "0 < mdw" and le: "w1 \<le> w2"
  shows "js_le (calcColumnWidthPx mdw (Fin w1)) (calcColumnWidthPx mdw (Fin w2))"
proof -
  from mdw have m: "mdw \<noteq> 0" by simp
  show ?thesis
  proof (cases "w2 \<le> 0")
    case True
    with le have "w1 \<le> 0" by simp
    with True m show ?thesis by (simp add: calcColumnWidthPx_widthFormula)
  next
    case False
    then have w2: "0 < w2" by simp
    show ?thesis
    proof (cases "w1 \<le> 0")
      case True
      from widthFormulaDouble_mono(2) [OF mdw w2 order_refl]
      have "js_le (Fin 0) (widthFormulaDouble mdw w2)" by (rule js_le_zero)
      with True False m show ?thesis by (simp add: calcColumnWidthPx_widthFormula)
    next
      case w1: False
      then have "0 < w1" by simp
      from widthFormulaDouble_mono(1) [OF mdw this le] w1 False m show ?thesis
        by (simp add: calcColumnWidthPx_widthFormula)
    qed
  qed
qed

lemma calcColumnWidthPx_nonNegative:
  assumes "0 < mdw"
  shows "nonNegative (calcColumnWidthPx mdw w)"
proof (cases w)
  case (Fin x)
  show ?thesis
  proof (cases "x \<le> 0")
    case True
    with Fin assms show ?thesis by (simp add: calcColumnWidthPx_widthFormula)
  next
    case False
    then have "0 < x" by simp
    from widthFormulaDouble_mono(2) [OF assms this order_refl] False Fin assms
    show ?thesis by (simp add: calcColumnWidthPx_widthFormula)
  qed
qed (simp_all add: calcColumnWidthPx_def)

text \<open>The values of the conversion at the widths of the examples.\<close>

lemma measureMaxDigitWidth_examples:
  "measureMaxDigitWidth plainDigits = 7" "measureMaxDigitWidth wideDigits = double_7_68"
  by (simp_all add: measureMaxDigitWidth_def plainDigits_def wideDigits_def double_7_68_def)

lemma roundD_128_7: "roundD (128 / 7) = Fin (2573485501354569 / 140737488355328)"
  using roundD_eval [of "128 / 7" 4] by (simp add: double_numeral_simps)

lemma calcColumnWidthPx_7_default: "calcColumnWidthPx 7 (roundD (843 / 100)) = Fin 64"
proof -
  have r0: "roundD (843 / 100) = Fin (1186417026835415 / 140737488355328)"
    using roundD_eval [of "843 / 100" 3] by (simp add: double_numeral_simps)
  have r1: "roundD (1186417026835415 / 549755813888) = Fin (1186417026835415 / 549755813888)"
    using roundD_eval [of "1186417026835415 / 549755813888" 11] by (simp add: double_numeral_simps)
  have r3: "roundD (1196312631485399 / 549755813888) = Fin (1196312631485399 / 549755813888)"
    using roundD_eval [of "1196312631485399 / 549755813888" 11] by (simp add: double_numeral_simps)
  have r4: "roundD (1196312631485399 / 140737488355328) = Fin (1196312631485399 / 140737488355328)"
    using roundD_eval [of "1196312631485399 / 140737488355328" 3] by (simp add: double_numeral_simps)
  have r5: "roundD (8374188420397793 / 140737488355328) = Fin (8374188420397793 / 140737488355328)"
    using roundD_eval [of "8374188420397793 / 140737488355328" 5] by (simp add: double_numeral_simps)
  show ?thesis
    by (simp add: calcColumnWidthPx_def r0 r1 r3 r4 r5 roundD_128_7 roundD_numeral double_numeral_simps)
qed

lemma calcColumnWidthPx_7_sixteenth: "calcColumnWidthPx 7 (Fin (1 / 16)) = Fin 5"
proof -
  have r4: "roundD (17 / 128) = Fin (17 / 128)"
    using roundD_eval [of "17 / 128" "- 3"] by (simp add: double_numeral_simps)
  have r5: "roundD (119 / 128) = Fin (119 / 128)"
    using roundD_eval [of "119 / 128" "- 1"] by (simp add: double_numeral_simps)
  show ?thesis
    by (simp add: calcColumnWidthPx_def r4 r5 roundD_128_7 roundD_numeral double_numeral_simps)
qed

lemma calcColumnWidthPx_7_255: "calcColumnWidthPx 7 (Fin 255) = Fin 1790"
proof -
  have r4: "roundD (32649 / 128) = Fin (32649 / 128)"
    using roundD_eval [of "32649 / 128" 7] by (simp add: double_numeral_simps)
  have r5: "roundD (228543 / 128) = Fin (228543 / 128)"
    using roundD_eval [of "228543 / 128" 10] by (simp add: double_numeral_simps)
  show ?thesis
    by (simp add: calcColumnWidthPx_def r4 r5 roundD_128_7 roundD_numeral double_numeral_simps)
qed

lemma calcColumnWidthPx_7_half: "calcColumnWidthPx 7 (Fin (17 / 2)) = Fin 64"
proof -
  have r4: "roundD (1097 / 128) = Fin (1097 / 128)"
    using roundD_eval [of "1097 / 128" 3] by (simp add: double_numeral_simps)
  have r5: "roundD (7679 / 128) = Fin (7679 / 128)"
    using roundD_eval [of "7679 / 128" 5] by (simp add: double_numeral_simps)
  show ?thesis
    by (simp add: calcColumnWidthPx_def r4 r5 roundD_128_7 roundD_numeral double_numeral_simps)
qed

lemma calcColumnWidthPx_7_0_5011: "calcColumnWidthPx 7 (Fin double_0_5011) = Fin 9"
proof -
  have r1: "roundD (2256826152555081 / 17592186044416) = Fin (2256826152555081 / 17592186044416)"
    using roundD_eval [of "2256826152555081 / 17592186044416" 7] by (simp add: double_numeral_simps)
  have r3: "roundD (2573485501354569 / 17592186044416) = Fin (2573485501354569 / 17592186044416)"
    using roundD_eval [of "2573485501354569 / 17592186044416" 7] by (simp add: double_numeral_simps)
  have r4: "roundD (2573485501354569 / 4503599627370496) = Fin (2573485501354569 / 4503599627370496)"
    using roundD_eval [of "2573485501354569 / 4503599627370496" "- 1"]
    by (simp add: double_numeral_simps)
  have r5: "roundD (18014398509481983 / 4503599627370496) = Fin 4"
    using roundD_eval [of "18014398509481983 / 4503599627370496" 1] by (simp add: double_numeral_simps)
  show ?thesis
    by (simp add: calcColumnWidthPx_def double_0_5011_def r1 r3 r4 r5 roundD_128_7 roundD_numeral
        double_numeral_simps)
qed

lemma calcColumnWidthPx_7_68_14: "calcColumnWidthPx double_7_68 (Fin 14) = Fin 113"
proof -
  have r2: "roundD (18014398509481984 / 1080863910568919)
              = Fin (4691249611844267 / 281474976710656)"
    using roundD_eval [of "18014398509481984 / 1080863910568919" 4]
    by (simp add: double_numeral_simps)
  have r4: "roundD (225 / 16) = Fin (225 / 16)"
    using roundD_eval [of "225 / 16" 3] by (simp add: double_numeral_simps)
  have r5: "roundD (243194379878006775 / 2251799813685248) = Fin 108"
    using roundD_eval [of "243194379878006775 / 2251799813685248" 6]
    by (simp add: double_numeral_simps)
  show ?thesis
    by (simp add: calcColumnWidthPx_def double_7_68_def r2 r4 r5 roundD_numeral double_numeral_simps)
qed

text \<open>
  C3, as the claim states it, fails. With a widest digit of 7.68 pixels the width 14 is
  113 pixels wide, and the formula gives 112: the product \<open>14.0625 * 7.68\<close> is below 108 and
  rounds to the double 108. With a widest digit of 7 pixels the width
  0.5011160714285714 is 9 pixels wide, and the formula gives 8. The two literals are the
  doubles in the example.
\<close>

theorem calcColumnWidthPx_not_exact:
  "roundD (768 / 100) = Fin double_7_68 \<and>
   calcColumnWidthPx (measureMaxDigitWidth wideDigits) (Fin 14) = Fin 113 \<and>
   widthFormulaExact (measureMaxDigitWidth wideDigits) 14 = 112 \<and>
   roundD (5011160714285714 / 10000000000000000) = Fin double_0_5011 \<and>
   calcColumnWidthPx (measureMaxDigitWidth plainDigits) (Fin double_0_5011) = Fin 9 \<and>
   widthFormulaExact (measureMaxDigitWidth plainDigits) double_0_5011 = 8"
proof -
  have a: "roundD (768 / 100) = Fin double_7_68"
    using roundD_eval [of "768 / 100" 2] by (simp add: double_numeral_simps double_7_68_def)
  have b: "calcColumnWidthPx (measureMaxDigitWidth wideDigits) (Fin 14) = Fin 113"
    by (simp only: measureMaxDigitWidth_examples calcColumnWidthPx_7_68_14)
  have c: "widthFormulaExact (measureMaxDigitWidth wideDigits) 14 = 112"
    by (simp add: measureMaxDigitWidth_examples widthFormulaExact_def double_7_68_def
        double_numeral_simps)
  have d: "roundD (5011160714285714 / 10000000000000000) = Fin double_0_5011"
    using roundD_eval [of "5011160714285714 / 10000000000000000" "- 1"]
    by (simp add: double_numeral_simps double_0_5011_def)
  have e: "calcColumnWidthPx (measureMaxDigitWidth plainDigits) (Fin double_0_5011) = Fin 9"
    by (simp only: measureMaxDigitWidth_examples calcColumnWidthPx_7_0_5011)
  have f: "widthFormulaExact (measureMaxDigitWidth plainDigits) double_0_5011 = 8"
    by (simp add: measureMaxDigitWidth_examples widthFormulaExact_def double_0_5011_def
        double_numeral_simps)
  from a b c d e f show ?thesis by simp
qed

text \<open>
  C3, amended. For a finite column width \<open>w\<close> and the MDW measured at load: a width
  \<open>w \<le> 0\<close> gives 0 pixels, any other width gives
  \<open>floor(((256 w + floor(128 / mdw)) / 256) mdw) + 5\<close> with every operation on doubles.
\<close>

theorem calcColumnWidthPx_formula:
  "calcColumnWidthPx (measureMaxDigitWidth ds) (Fin w) =
     (if w \<le> 0 then Fin 0 else widthFormulaDouble (measureMaxDigitWidth ds) w)"
  using measureMaxDigitWidth_pos [of ds]
  by (simp add: calcColumnWidthPx_def widthFormulaDouble_def Let_def)

text \<open>
  C7, as the claim states it, fails: the width \<^verbatim>\<open>Infinity\<close> is 64 pixels wide and the smaller
  width 255 is 1790 pixels wide; the width \<^verbatim>\<open>-Infinity\<close> is 64 pixels wide and the larger
  width -1 is 0 pixels wide.
\<close>

theorem calcColumnWidthPx_infinite_width:
  "js_le (Fin 255) PosInf \<and>
   calcColumnWidthPx (measureMaxDigitWidth plainDigits) (Fin 255) = Fin 1790 \<and>
   calcColumnWidthPx (measureMaxDigitWidth plainDigits) PosInf = Fin 64 \<and>
   \<not> js_le (calcColumnWidthPx (measureMaxDigitWidth plainDigits) (Fin 255))
           (calcColumnWidthPx (measureMaxDigitWidth plainDigits) PosInf) \<and>
   js_le NegInf (Fin (- 1)) \<and>
   calcColumnWidthPx (measureMaxDigitWidth plainDigits) NegInf = Fin 64 \<and>
   calcColumnWidthPx (measureMaxDigitWidth plainDigits) (Fin (- 1)) = Fin 0 \<and>
   \<not> js_le (calcColumnWidthPx (measureMaxDigitWidth plainDigits) NegInf)
           (calcColumnWidthPx (measureMaxDigitWidth plainDigits) (Fin (- 1)))"
proof -
  have a: "calcColumnWidthPx (measureMaxDigitWidth plainDigits) (Fin 255) = Fin 1790"
    by (simp only: measureMaxDigitWidth_examples calcColumnWidthPx_7_255)
  have b: "calcColumnWidthPx (measureMaxDigitWidth plainDigits) PosInf = Fin 64"
    by (simp add: calcColumnWidthPx_def)
  have c: "calcColumnWidthPx (measureMaxDigitWidth plainDigits) NegInf = Fin 64"
    by (simp add: calcColumnWidthPx_def)
  have d: "calcColumnWidthPx (measureMaxDigitWidth plainDigits) (Fin (- 1)) = Fin 0"
    by (simp add: calcColumnWidthPx_def)
  show ?thesis by (simp add: a b c d)
qed

text \<open>
  C7, amended. The conversion is monotonic in the finite widths for the MDW measured at
  load, also across the case \<open>w \<le> 0\<close>; the order is \<^verbatim>\<open><=\<close> on Numbers.
\<close>

theorem calcColumnWidthPx_monotonic:
  "w1 \<le> w2 \<Longrightarrow>
   js_le (calcColumnWidthPx (measureMaxDigitWidth ds) (Fin w1))
         (calcColumnWidthPx (measureMaxDigitWidth ds) (Fin w2))"
  by (rule calcColumnWidthPx_mono_pos [OF measureMaxDigitWidth_pos])

theorem calcColumnWidthPx_monotonic_witness:
  "(- 1 :: rat) \<le> 17 / 2 \<and>
   calcColumnWidthPx (measureMaxDigitWidth plainDigits) (Fin (- 1)) = Fin 0 \<and>
   calcColumnWidthPx (measureMaxDigitWidth plainDigits) (Fin (17 / 2)) = Fin 64 \<and>
   js_le (calcColumnWidthPx (measureMaxDigitWidth plainDigits) (Fin (- 1)))
         (calcColumnWidthPx (measureMaxDigitWidth plainDigits) (Fin (17 / 2)))"
proof -
  have h: "(- 1 :: rat) \<le> 17 / 2" by simp
  have a: "calcColumnWidthPx (measureMaxDigitWidth plainDigits) (Fin (- 1)) = Fin 0"
    by (simp add: calcColumnWidthPx_def)
  have b: "calcColumnWidthPx (measureMaxDigitWidth plainDigits) (Fin (17 / 2)) = Fin 64"
    by (simp only: measureMaxDigitWidth_examples calcColumnWidthPx_7_half)
  show ?thesis
    using h a b calcColumnWidthPx_monotonic [OF h, of plainDigits]
    by simp
qed

section \<open>Properties of the freeze-pane parser\<close>

text \<open>On an 8-bit string, \<open>js_parseInt\<close> is \<^verbatim>\<open>parseInt\<close> on its code units.\<close>

lemma of_char_int_bounds: "0 \<le> (of_char ch :: int)" "(of_char ch :: int) < 256"
proof -
  have m: "(of_char ch :: int) mod 256 = of_char ch" by (rule of_char_mod_256)
  have "0 \<le> (of_char ch :: int) mod 256" by (rule pos_mod_sign) simp
  then show "0 \<le> (of_char ch :: int)" by (simp only: m)
  have "(of_char ch :: int) mod 256 < 256" by (rule pos_mod_bound) simp
  then show "(of_char ch :: int) < 256" by (simp only: m)
qed

lemma of_char_int_eq: "(of_char ch :: int) = of_char d \<longleftrightarrow> ch = d"
  by (rule of_char_eq_iff)

lemma isWhiteSpaceUnit_of_char: "isWhiteSpaceUnit (of_char ch) = isStrWhiteSpace ch"
proof -
  have c: "(9::int) = of_char (CHR 0x09)" "(10::int) = of_char (CHR 0x0A)"
    "(11::int) = of_char (CHR 0x0B)" "(12::int) = of_char (CHR 0x0C)"
    "(13::int) = of_char (CHR 0x0D)" "(32::int) = of_char (CHR '' '')"
    "(160::int) = of_char (CHR 0xA0)"
    by simp_all
  have "isWhiteSpaceUnit (of_char ch) \<longleftrightarrow>
          (of_char ch :: int) \<in> {9, 10, 11, 12, 13, 32, 160}"
    using of_char_int_bounds [of ch] by (auto simp: isWhiteSpaceUnit_def)
  also have "\<dots> \<longleftrightarrow> ch \<in> {CHR 0x09, CHR 0x0A, CHR 0x0B, CHR 0x0C, CHR 0x0D, CHR '' '', CHR 0xA0}"
    unfolding c by (simp only: insert_iff empty_iff of_char_int_eq)
  also have "\<dots> \<longleftrightarrow> isStrWhiteSpace ch"
    by (auto simp: isStrWhiteSpace_def)
  finally show ?thesis .
qed

lemma unitDigitVal_of_char: "unitDigitVal (of_char ch) = digitVal ch"
proof -
  have "(of_char ch :: int) = int (of_char ch)" by (simp add: of_char_def)
  then show ?thesis
    by (auto simp: unitDigitVal_def digitVal_def Let_def nat_diff_distrib)
qed

lemma isRadixDigitUnit_of_char: "isRadixDigitUnit R (of_char ch) = isRadixDigit R ch"
  by (simp add: isRadixDigitUnit_def isRadixDigit_def unitDigitVal_of_char)

lemma unitsValue_unitsOf: "unitsValue R (unitsOf z) = digitsValue R z"
  by (simp add: unitsValue_def digitsValue_def unitsOf_def foldl_map unitDigitVal_of_char)

lemma unitsOf_eq_iff: "unitsOf s = unitsOf t \<longleftrightarrow> s = t"
  unfolding unitsOf_def by (rule inj_map_eq_map [OF inj_of_char])

lemma unitsOf_nil: "unitsOf t = [] \<longleftrightarrow> t = []"
  by (simp add: unitsOf_def)

lemma js_parseInt_units: "js_parseInt s = parseIntUnits (unitsOf s)"
proof -
  have dw: "dropWhile isWhiteSpaceUnit (unitsOf s) = unitsOf (dropWhile isStrWhiteSpace s)"
    by (simp add: unitsOf_def dropWhile_map comp_def isWhiteSpaceUnit_of_char)
  have tk: "take n (unitsOf t) = unitsOf (take n t)" for n t
    by (simp add: unitsOf_def take_map)
  have dr: "drop n (unitsOf t) = unitsOf (drop n t)" for n t
    by (simp add: unitsOf_def drop_map)
  have tw: "takeWhile (isRadixDigitUnit R) (unitsOf t) = unitsOf (takeWhile (isRadixDigit R) t)"
    for R t
    by (simp add: unitsOf_def takeWhile_map comp_def isRadixDigitUnit_of_char)
  note nil = unitsOf_nil
  have ifu: "(if b then unitsOf x else unitsOf y) = unitsOf (if b then x else y)" for b x y
    by simp
  show ?thesis
    unfolding parseIntUnits_def js_parseInt_def Let_def dw tk dr unitsOf_eq_iff ifu tw nil
      unitsValue_unitsOf ..
qed

lemma parseIntUnits_no_minus:
  assumes "45 \<notin> set s" and "parseIntUnits s = Some n"
  shows "0 \<le> n"
proof -
  have m: "unitsOf ''-'' = [45]" by (simp add: unitsOf_def)
  have "take 1 (dropWhile isWhiteSpaceUnit s) \<noteq> [45]"
  proof
    assume "take 1 (dropWhile isWhiteSpaceUnit s) = [45]"
    then have "45 \<in> set (take 1 (dropWhile isWhiteSpaceUnit s))" by simp
    then have "45 \<in> set (dropWhile isWhiteSpaceUnit s)" by (rule in_set_takeD)
    then have "45 \<in> set s" by (rule set_dropWhileD)
    with assms(1) show False by simp
  qed
  with assms(2) show ?thesis
    by (auto simp: parseIntUnits_def m Let_def split: if_splits)
qed

lemma parseIntNumber_no_minus:
  assumes "45 \<notin> set s"
  shows "parseIntNumber s = NaN \<or> nonNegative (parseIntNumber s)"
proof (cases "parseIntUnits s")
  case None
  then show ?thesis by (simp add: parseIntNumber_def)
next
  case (Some n)
  from parseIntUnits_no_minus [OF assms Some] have "(0::rat) \<le> of_int n" by simp
  then have "nonNegative (roundD (of_int n))" by (rule nonNegative_roundD)
  with Some show ?thesis by (simp add: parseIntNumber_def)
qed

lemma parseIntNumber_exact:
  "parseIntUnits s = Some n \<Longrightarrow> \<bar>n\<bar> < 2 ^ 53 \<Longrightarrow> parseIntNumber s = Fin (of_int n)"
  by (simp add: parseIntNumber_def roundD_of_int)

lemma splitCount_no_minus:
  assumes "\<forall>s. a = Some s \<longrightarrow> 45 \<notin> set s"
  shows "js_le (Fin 0) (splitCount a)"
proof (cases a)
  case None
  then show ?thesis by (simp add: splitCount_def)
next
  case (Some s)
  with assms have "45 \<notin> set s" by simp
  from parseIntNumber_no_minus [OF this] Some show ?thesis
    by (auto simp: splitCount_def intro: js_le_zero)
qed

lemma orZero_splitCount: "s \<noteq> [] \<Longrightarrow> orZero (parseIntNumber s) = splitCount (Some s)"
  by (simp add: orZero_def splitCount_def)

lemma parseFreezePanes_when_frozen:
  assumes "state p = Some (unitsOf ''frozen'') \<or> state p = Some (unitsOf ''frozenSplit'')"
  shows "isFrozen (parseFreezePanes (Some p))"
    and "frozenRows (parseFreezePanes (Some p)) = splitCount (ySplit p)"
    and "frozenCols (parseFreezePanes (Some p)) = splitCount (xSplit p)"
proof -
  from assms
  have s: "\<not> (state p \<noteq> Some (unitsOf ''frozen'') \<and> state p \<noteq> Some (unitsOf ''frozenSplit''))"
    by simp
  have pf: "parseFreezePanes (Some p) =
     (let r1 = \<lparr>frozenRows = Fin 0, frozenCols = Fin 0, isFrozen = True\<rparr>;
          r2 = (case ySplit p of
                  None \<Rightarrow> r1
                | Some y \<Rightarrow> if y \<noteq> [] then r1\<lparr>frozenRows := orZero (parseIntNumber y)\<rparr> else r1);
          r3 = (case xSplit p of
                  None \<Rightarrow> r2
                | Some x \<Rightarrow> if x \<noteq> [] then r2\<lparr>frozenCols := orZero (parseIntNumber x)\<rparr> else r2)
      in r3)"
    using s by (auto simp: parseFreezePanes_def Let_def)
  show "isFrozen (parseFreezePanes (Some p))"
    unfolding pf by (cases "ySplit p"; cases "xSplit p") (simp_all add: Let_def)
  show "frozenRows (parseFreezePanes (Some p)) = splitCount (ySplit p)"
  proof (cases "ySplit p")
    case None
    then show ?thesis
      unfolding pf by (cases "xSplit p") (simp_all add: Let_def splitCount_def)
  next
    case (Some y)
    show ?thesis
    proof (cases "y = []")
      case True
      with Some show ?thesis
        unfolding pf by (cases "xSplit p") (simp_all add: Let_def splitCount_def)
    next
      case False
      with Some orZero_splitCount [OF False] show ?thesis
        unfolding pf by (cases "xSplit p") (simp_all add: Let_def)
    qed
  qed
  show "frozenCols (parseFreezePanes (Some p)) = splitCount (xSplit p)"
  proof (cases "xSplit p")
    case None
    then show ?thesis
      unfolding pf by (cases "ySplit p") (simp_all add: Let_def splitCount_def)
  next
    case (Some x)
    show ?thesis
    proof (cases "x = []")
      case True
      with Some show ?thesis
        unfolding pf by (cases "ySplit p") (simp_all add: Let_def splitCount_def)
    next
      case False
      with Some orZero_splitCount [OF False] show ?thesis
        unfolding pf by (cases "ySplit p") (simp_all add: Let_def)
    qed
  qed
qed

lemma parseIntUnits_examples:
  "parseIntUnits (unitsOf ''-3'') = Some (- 3)" "parseIntUnits (unitsOf ''2'') = Some 2"
  "parseIntUnits (0xFEFF # 0xA0 # unitsOf ''1'') = Some 1"
  by (simp_all add: parseIntUnits_def unitsOf_def isWhiteSpaceUnit_def isRadixDigitUnit_def
      unitDigitVal_def unitsValue_def Let_def)

lemma parseIntNumber_examples:
  "parseIntNumber (unitsOf ''-3'') = Fin (- 3)" "parseIntNumber (unitsOf ''2'') = Fin 2"
  "parseIntNumber (0xFEFF # 0xA0 # unitsOf ''1'') = Fin 1"
  using roundD_of_int [of "- 3"] roundD_of_int [of 2] roundD_of_int [of 1]
  by (simp_all add: parseIntNumber_def parseIntUnits_examples)

text \<open>
  C9, as the claim states it, fails: a pane with \<^verbatim>\<open>state="frozen"\<close> and \<^verbatim>\<open>ySplit="-3"\<close>
  gives \<open>frozenRows = -3\<close>.
\<close>

theorem parseFreezePanes_negative_rows:
  "isFrozen (parseFreezePanes
      (Some \<lparr>state = Some (unitsOf ''frozen''), ySplit = Some (unitsOf ''-3''), xSplit = None\<rparr>)) \<and>
   frozenRows (parseFreezePanes
      (Some \<lparr>state = Some (unitsOf ''frozen''), ySplit = Some (unitsOf ''-3''), xSplit = None\<rparr>))
     = Fin (- 3) \<and>
   \<not> js_le (Fin 0) (frozenRows (parseFreezePanes
      (Some \<lparr>state = Some (unitsOf ''frozen''), ySplit = Some (unitsOf ''-3''), xSplit = None\<rparr>)))"
proof -
  have ne: "unitsOf ''-3'' \<noteq> []" by (simp add: unitsOf_nil)
  show ?thesis
    by (simp add: parseFreezePanes_def orZero_def parseIntNumber_examples ne Let_def)
qed

text \<open>
  C9, amended. The sheet is frozen exactly when its first pane declares the state
  \<^verbatim>\<open>frozen\<close> or \<^verbatim>\<open>frozenSplit\<close>; a sheet that is not frozen has both counts 0; in a frozen
  sheet the counts are what \<^verbatim>\<open>parseInt\<close> reads from \<^verbatim>\<open>ySplit\<close> and \<^verbatim>\<open>xSplit\<close>, with 0 for an
  attribute that is absent, empty or read as NaN; and a count is not negative when its
  attribute contains no minus sign (the code unit 45).
\<close>

theorem parseFreezePanes_frozen_counts:
  "(isFrozen (parseFreezePanes doc) \<longleftrightarrow>
      (\<exists>p. doc = Some p \<and>
           (state p = Some (unitsOf ''frozen'') \<or> state p = Some (unitsOf ''frozenSplit'')))) \<and>
   (\<not> isFrozen (parseFreezePanes doc) \<longrightarrow>
      frozenRows (parseFreezePanes doc) = Fin 0 \<and> frozenCols (parseFreezePanes doc) = Fin 0) \<and>
   (\<forall>p. doc = Some p \<and> isFrozen (parseFreezePanes doc) \<longrightarrow>
      frozenRows (parseFreezePanes doc) = splitCount (ySplit p) \<and>
      frozenCols (parseFreezePanes doc) = splitCount (xSplit p)) \<and>
   ((\<forall>p s. doc = Some p \<and> ySplit p = Some s \<longrightarrow> 45 \<notin> set s) \<longrightarrow>
      js_le (Fin 0) (frozenRows (parseFreezePanes doc))) \<and>
   ((\<forall>p s. doc = Some p \<and> xSplit p = Some s \<longrightarrow> 45 \<notin> set s) \<longrightarrow>
      js_le (Fin 0) (frozenCols (parseFreezePanes doc)))"
proof (cases doc)
  case None
  then show ?thesis by (simp add: parseFreezePanes_def)
next
  case (Some p)
  show ?thesis
  proof (cases "state p = Some (unitsOf ''frozen'') \<or> state p = Some (unitsOf ''frozenSplit'')")
    case False
    with Some show ?thesis by (auto simp: parseFreezePanes_def)
  next
    case True
    note fz = parseFreezePanes_when_frozen(1) [OF True]
    note fr = parseFreezePanes_when_frozen(2) [OF True]
    note fc = parseFreezePanes_when_frozen(3) [OF True]
    have r: "js_le (Fin 0) (frozenRows (parseFreezePanes doc))"
      if "\<forall>p s. doc = Some p \<and> ySplit p = Some s \<longrightarrow> 45 \<notin> set s"
    proof -
      from that Some have "\<forall>s. ySplit p = Some s \<longrightarrow> 45 \<notin> set s" by simp
      then have "js_le (Fin 0) (splitCount (ySplit p))" by (rule splitCount_no_minus)
      with fr Some show ?thesis by simp
    qed
    have c: "js_le (Fin 0) (frozenCols (parseFreezePanes doc))"
      if "\<forall>p s. doc = Some p \<and> xSplit p = Some s \<longrightarrow> 45 \<notin> set s"
    proof -
      from that Some have "\<forall>s. xSplit p = Some s \<longrightarrow> 45 \<notin> set s" by simp
      then have "js_le (Fin 0) (splitCount (xSplit p))" by (rule splitCount_no_minus)
      with fc Some show ?thesis by simp
    qed
    from fz fr fc Some True r c show ?thesis by auto
  qed
qed

theorem parseFreezePanes_frozen_counts_witness:
  "isFrozen (parseFreezePanes (Some frozenPane)) \<and>
   frozenRows (parseFreezePanes (Some frozenPane)) = Fin 2 \<and>
   frozenCols (parseFreezePanes (Some frozenPane)) = Fin 1 \<and>
   js_le (Fin 0) (frozenRows (parseFreezePanes (Some frozenPane))) \<and>
   js_le (Fin 0) (frozenCols (parseFreezePanes (Some frozenPane))) \<and>
   \<not> isFrozen (parseFreezePanes (Some splitPane)) \<and>
   frozenRows (parseFreezePanes (Some splitPane)) = Fin 0 \<and>
   frozenCols (parseFreezePanes (Some splitPane)) = Fin 0"
proof -
  have sc: "splitCount (ySplit frozenPane) = Fin 2" "splitCount (xSplit frozenPane) = Fin 1"
    by (simp_all add: splitCount_def frozenPane_def parseIntNumber_examples unitsOf_nil)
  have st: "state frozenPane = Some (unitsOf ''frozen'')" "state splitPane = Some (unitsOf ''split'')"
    by (simp_all add: frozenPane_def splitPane_def)
  have ne: "unitsOf ''split'' \<noteq> unitsOf ''frozen''" "unitsOf ''split'' \<noteq> unitsOf ''frozenSplit''"
    by (simp_all add: unitsOf_eq_iff)
  have nm: "\<forall>p s. Some frozenPane = Some p \<and> ySplit p = Some s \<longrightarrow> 45 \<notin> set s"
    "\<forall>p s. Some frozenPane = Some p \<and> xSplit p = Some s \<longrightarrow> 45 \<notin> set s"
    by (auto simp: frozenPane_def unitsOf_def)
  show ?thesis
    using sc st ne nm
      parseFreezePanes_frozen_counts [of "Some frozenPane"]
      parseFreezePanes_frozen_counts [of "Some splitPane"]
    by simp
qed

section \<open>Properties of the alignment pass\<close>

text \<open>
  C8. After the pass over \<^verbatim>\<open>cellXfs\<close>: a format with \<^verbatim>\<open>applyAlignment="0"\<close> has no
  alignment, whatever its parent; a format without alignment that does not disable it
  and whose parent id names a base style with an alignment has the parent's alignment;
  every other format keeps its alignment. No other field changes.
\<close>

theorem mergeBaseAlignments_rule:
  assumes "i < length cellXfs"
  shows
    "length (mergeBaseAlignments baseCellXfs cellXfs) = length cellXfs \<and>
     (mergeBaseAlignments baseCellXfs cellXfs ! i)\<lparr>xfAlignment := xfAlignment (cellXfs ! i)\<rparr> =
       cellXfs ! i \<and>
     (applyAlignment (cellXfs ! i) = Some ''0'' \<longrightarrow>
        xfAlignment (mergeBaseAlignments baseCellXfs cellXfs ! i) = None) \<and>
     (\<forall>j b a. applyAlignment (cellXfs ! i) \<noteq> Some ''0'' \<and> xfAlignment (cellXfs ! i) = None \<and>
        xfId (cellXfs ! i) = Some j \<and> js_index baseCellXfs j = Some b \<and> baseAlignment b = Some a \<longrightarrow>
        xfAlignment (mergeBaseAlignments baseCellXfs cellXfs ! i) = Some a) \<and>
     (applyAlignment (cellXfs ! i) \<noteq> Some ''0'' \<and>
      \<not> (\<exists>j b a. xfAlignment (cellXfs ! i) = None \<and> xfId (cellXfs ! i) = Some j \<and>
             js_index baseCellXfs j = Some b \<and> baseAlignment b = Some a) \<longrightarrow>
        xfAlignment (mergeBaseAlignments baseCellXfs cellXfs ! i) = xfAlignment (cellXfs ! i))"
proof -
  have nth: "mergeBaseAlignments baseCellXfs cellXfs ! i = mergeBaseAlignment baseCellXfs (cellXfs ! i)"
    using assms by (simp add: mergeBaseAlignments_def)
  have len: "length (mergeBaseAlignments baseCellXfs cellXfs) = length cellXfs"
    by (simp add: mergeBaseAlignments_def)
  show ?thesis
    unfolding nth len
    by (cases "xfAlignment (cellXfs ! i)"; cases "xfId (cellXfs ! i)";
        cases "js_index baseCellXfs (the (xfId (cellXfs ! i)))";
        cases "baseAlignment (the (js_index baseCellXfs (the (xfId (cellXfs ! i)))))")
       (auto simp: mergeBaseAlignment_def)
qed

theorem mergeBaseAlignments_rule_witness:
  "xfAlignment (mergeBaseAlignments [exampleBaseXf] exampleCellXfs ! 0) = baseAlignment exampleBaseXf \<and>
   baseAlignment exampleBaseXf \<noteq> None \<and>
   xfAlignment (mergeBaseAlignments [exampleBaseXf] exampleCellXfs ! 1) = None \<and>
   xfAlignment (mergeBaseAlignments [exampleBaseXf] exampleCellXfs ! 2) = xfAlignment (exampleCellXfs ! 2) \<and>
   xfAlignment (exampleCellXfs ! 2) \<noteq> None"
proof -
  let ?b = "[exampleBaseXf]"
  let ?xs = "exampleCellXfs"
  have i0: "(0::nat) < length ?xs" and i1: "(1::nat) < length ?xs" and i2: "(2::nat) < length ?xs"
    by (simp_all add: exampleCellXfs_def)
  have x0: "applyAlignment (?xs ! 0) \<noteq> Some ''0'' \<and> xfAlignment (?xs ! 0) = None \<and>
        xfId (?xs ! 0) = Some (Some 0) \<and> js_index ?b (Some 0) = Some exampleBaseXf"
    by (simp add: exampleCellXfs_def js_index_def)
  have ba: "baseAlignment exampleBaseXf \<noteq> None"
    by (simp add: exampleBaseXf_def)
  then obtain a where a: "baseAlignment exampleBaseXf = Some a" by blast
  have "\<forall>j b a. applyAlignment (?xs ! 0) \<noteq> Some ''0'' \<and> xfAlignment (?xs ! 0) = None \<and>
        xfId (?xs ! 0) = Some j \<and> js_index ?b j = Some b \<and> baseAlignment b = Some a \<longrightarrow>
        xfAlignment (mergeBaseAlignments ?b ?xs ! 0) = Some a"
    using mergeBaseAlignments_rule [OF i0, of ?b] by blast
  with x0 a have r0: "xfAlignment (mergeBaseAlignments ?b ?xs ! 0) = baseAlignment exampleBaseXf"
    by simp
  have "applyAlignment (?xs ! 1) = Some ''0'' \<longrightarrow>
        xfAlignment (mergeBaseAlignments ?b ?xs ! 1) = None"
    using mergeBaseAlignments_rule [OF i1, of ?b] by blast
  then have r1: "xfAlignment (mergeBaseAlignments ?b ?xs ! 1) = None"
    by (simp add: exampleCellXfs_def)
  have x2: "applyAlignment (?xs ! 2) \<noteq> Some ''0''" "xfAlignment (?xs ! 2) \<noteq> None"
    by (simp_all add: exampleCellXfs_def)
  have "applyAlignment (?xs ! 2) \<noteq> Some ''0'' \<and>
      \<not> (\<exists>j b a. xfAlignment (?xs ! 2) = None \<and> xfId (?xs ! 2) = Some j \<and>
             js_index ?b j = Some b \<and> baseAlignment b = Some a) \<longrightarrow>
        xfAlignment (mergeBaseAlignments ?b ?xs ! 2) = xfAlignment (?xs ! 2)"
    using mergeBaseAlignments_rule [OF i2, of ?b] by blast
  with x2 have r2: "xfAlignment (mergeBaseAlignments ?b ?xs ! 2) = xfAlignment (?xs ! 2)"
    by simp
  from r0 ba r1 r2 x2 show ?thesis by blast
qed

section \<open>Properties of the colour resolver\<close>

lemma indexedColors_length: "length indexedColors = 64"
  by (simp add: indexedColors_def)

lemma indexedColors_nonempty: "s \<in> set indexedColors \<Longrightarrow> s \<noteq> []"
  by (auto simp: indexedColors_def)

lemma DEFAULT_THEME_nonempty: "js_index DEFAULT_THEME theme = Some b \<Longrightarrow> b \<noteq> []"
proof -
  assume "js_index DEFAULT_THEME theme = Some b"
  then obtain n where "0 \<le> n" "n < int (length DEFAULT_THEME)" "b = DEFAULT_THEME ! nat n"
    by (auto simp: js_index_def split: option.splits if_splits)
  then have "b \<in> set DEFAULT_THEME" by simp
  then show "b \<noteq> []" by (auto simp: DEFAULT_THEME_def)
qed

lemma resolveColor_theme_None:
  "resolveColor applyTint themeColors (Some (ThemeColor theme tint)) = None \<longleftrightarrow>
     \<not> truthyStr (themeColors theme) \<and> js_index DEFAULT_THEME theme = None"
proof (cases "truthyStr (themeColors theme)")
  case True
  then show ?thesis
    by (auto simp: resolveColor_def orElse_def truthyStr_def Let_def split: option.splits)
next
  case False
  show ?thesis
  proof (cases "js_index DEFAULT_THEME theme")
    case None
    with False show ?thesis by (simp add: resolveColor_def orElse_def Let_def)
  next
    case (Some b)
    with False DEFAULT_THEME_nonempty [OF Some] show ?thesis
      by (simp add: resolveColor_def orElse_def Let_def)
  qed
qed

text \<open>
  C6. \<^verbatim>\<open>resolveColor\<close> is a function of the colour reference and the theme palette with
  no failing branch: every reference has a result, \<open>None\<close> (\<^verbatim>\<open>null\<close>) or a string. No
  reference gives \<open>None\<close>; a direct colour gives a string; a theme colour gives \<open>None\<close>
  only when neither the palette nor the default theme has the slot. The legacy palette
  has 64 entries; an indexed reference outside it (or with an index that did not parse)
  resolves to \<open>None\<close>, one inside it resolves to its palette entry.
\<close>

theorem resolveColor_cases:
  "resolveColor applyTint themeColors None = None \<and>
   (\<forall>argb. argb \<noteq> [] \<longrightarrow>
      resolveColor applyTint themeColors (Some (Argb argb)) =
        Some (CHR ''#'' # (if length argb = 8 then drop 2 argb else argb))) \<and>
   (\<forall>theme tint. resolveColor applyTint themeColors (Some (ThemeColor theme tint)) = None \<longleftrightarrow>
      \<not> truthyStr (themeColors theme) \<and> js_index DEFAULT_THEME theme = None) \<and>
   length indexedColors = 64 \<and>
   resolveColor applyTint themeColors (Some (Indexed None)) = None \<and>
   (\<forall>n. n < 0 \<or> 64 \<le> n \<longrightarrow> resolveColor applyTint themeColors (Some (Indexed (Some n))) = None) \<and>
   (\<forall>n. 0 \<le> n \<and> n < 64 \<longrightarrow>
      resolveColor applyTint themeColors (Some (Indexed (Some n))) = Some (indexedColors ! nat n))"
proof -
  have "resolveColor applyTint themeColors (Some (Indexed (Some n))) = Some (indexedColors ! nat n)"
    if "0 \<le> n \<and> n < 64" for n
  proof -
    from that have "nat n < length indexedColors" by (auto simp: indexedColors_length)
    then have "indexedColors ! nat n \<in> set indexedColors" by (rule nth_mem)
    then have "indexedColors ! nat n \<noteq> []" by (rule indexedColors_nonempty)
    with that show ?thesis
      by (auto simp: resolveColor_def js_index_def indexedColors_length)
  qed
  moreover have "resolveColor applyTint themeColors (Some (Indexed (Some n))) = None"
    if "n < 0 \<or> 64 \<le> n" for n
    using that by (auto simp: resolveColor_def js_index_def indexedColors_length)
  moreover have "resolveColor applyTint themeColors (Some (Indexed None)) = None"
    by (simp add: resolveColor_def js_index_def)
  moreover have "resolveColor applyTint themeColors None = None"
    by (simp add: resolveColor_def)
  moreover have "resolveColor applyTint themeColors (Some (Argb argb)) =
        Some (CHR ''#'' # (if length argb = 8 then drop 2 argb else argb))" if "argb \<noteq> []" for argb
    using that by (simp add: resolveColor_def)
  ultimately show ?thesis using indexedColors_length resolveColor_theme_None by blast
qed

theorem resolveColor_cases_witness:
  "resolveColor (\<lambda>c t. c) (\<lambda>i. None) (Some (Indexed (Some 64))) = None \<and>
   resolveColor (\<lambda>c t. c) (\<lambda>i. None) (Some (Indexed (Some (- 1)))) = None \<and>
   resolveColor (\<lambda>c t. c) (\<lambda>i. None) (Some (Indexed (Some 63))) = Some ''#333333'' \<and>
   resolveColor (\<lambda>c t. c) (\<lambda>i. None) (Some (Indexed (Some 2))) = Some ''#FF0000'' \<and>
   resolveColor (\<lambda>c t. c) (\<lambda>i. None) (Some (Argb ''FF112233'')) = Some ''#112233'' \<and>
   resolveColor (\<lambda>c t. c) (\<lambda>i. None) (Some (ThemeColor (Some 12) 0)) = None"
proof -
  have a: "indexedColors ! nat 63 = ''#333333''" "indexedColors ! nat 2 = ''#FF0000''"
    by (simp_all add: indexedColors_def)
  have b: "js_index DEFAULT_THEME (Some 12) = None"
    by (simp add: js_index_def DEFAULT_THEME_def)
  show ?thesis
    using a b resolveColor_cases [of "\<lambda>c t. c" "\<lambda>i. None"]
    by (simp add: truthyStr_def)
qed

section \<open>Properties of the style cascade\<close>

text \<open>
  C2. \<^verbatim>\<open>resolveStyleIndex\<close> returns the cell's style index when the cell declares one,
  otherwise the row's when the row declares one, otherwise the column's when a column
  definition gives one, otherwise none. A cell without style of its own in a row with style
  \<open>R\<close> and a column with style \<open>C\<close> resolves to \<open>R\<close>.
\<close>

theorem resolveStyleIndex_precedence:
  "(\<forall>s. cellStyleMap (r, c) = Some s \<longrightarrow>
      resolveStyleIndex cellStyleMap rowStyleMap colStyles (Some r) c = Some s) \<and>
   (\<forall>R. cellStyleMap (r, c) = None \<and> rowStyleMap (Some r) = Some R \<longrightarrow>
      resolveStyleIndex cellStyleMap rowStyleMap colStyles (Some r) c = Some R) \<and>
   (cellStyleMap (r, c) = None \<and> rowStyleMap (Some r) = None \<longrightarrow>
      resolveStyleIndex cellStyleMap rowStyleMap colStyles (Some r) c = colStyles c) \<and>
   (\<forall>R C. cellStyleMap (r, c) = None \<and> rowStyleMap (Some r) = Some R \<and> colStyles c = Some C \<longrightarrow>
      resolveStyleIndex cellStyleMap rowStyleMap colStyles (Some r) c = Some R)"
  by (auto simp: resolveStyleIndex_def split: option.splits)



theorem resolveStyleIndex_precedence_witness:
  "sheetStyleIndex cascadeSheet (Some 1) 1 = Some 4 \<and>
   sheetStyleIndex cascadeSheet (Some 1) 2 = Some 3 \<and>
   sheetStyleIndex cascadeSheet (Some 2) 1 = Some 7 \<and>
   sheetStyleIndex cascadeSheet (Some 2) 3 = None"
proof -
  let ?csm = "buildCellStyleMap (doc_rows cascadeSheet)"
  let ?rsm = "buildRowStyleMap (doc_rows cascadeSheet)"
  let ?cst = "buildColStyles (doc_cols cascadeSheet)"
  have a1: "?csm (1, 1) = None" by code_simp
  have b1: "?csm (1, 2) = Some 3" by code_simp
  have a2: "?csm (2, 1) = None" by code_simp
  have a3: "?csm (2, 3) = None" by code_simp
  have r1: "?rsm (Some 1) = Some 4" by code_simp
  have r2: "?rsm (Some 2) = None" by code_simp
  have c1: "?cst 1 = Some 7" by code_simp
  have c3: "?cst 3 = None" by code_simp
  from a1 r1 c1 resolveStyleIndex_precedence [of ?csm 1 1 ?rsm ?cst]
  have x: "resolveStyleIndex ?csm ?rsm ?cst (Some 1) 1 = Some 4"
    by simp
  from b1 resolveStyleIndex_precedence [of ?csm 1 2 ?rsm ?cst]
  have y: "resolveStyleIndex ?csm ?rsm ?cst (Some 1) 2 = Some 3"
    by simp
  from a2 r2 c1 resolveStyleIndex_precedence [of ?csm 2 1 ?rsm ?cst]
  have z: "resolveStyleIndex ?csm ?rsm ?cst (Some 2) 1 = Some 7"
    by simp
  from a3 r2 c3 resolveStyleIndex_precedence [of ?csm 2 3 ?rsm ?cst]
  have w: "resolveStyleIndex ?csm ?rsm ?cst (Some 2) 3 = None"
    by simp
  from x y z w show ?thesis by (simp add: sheetStyleIndex_def)
qed

section \<open>Properties of the rendered grid\<close>

lemma computeMaxCol_le: "computeMaxCol rows \<le> 100"
  by (simp add: computeMaxCol_def)

lemma fillEmptyRows_rows:
  "t \<in> set (fillEmptyRows maxCol lastRow rowNum) \<Longrightarrow>
     (\<exists>n. tr_label t = Some n \<and> lastRow < n \<and> n \<le> 1000) \<and>
     tr_tds t = map (\<lambda>c. \<lparr>td_col = c, td_cell = None\<rparr>) [1..maxCol]"
proof (induction maxCol lastRow rowNum rule: fillEmptyRows.induct)
  case (1 maxCol lastRow rowNum)
  show ?case
  proof (cases "lastRow < rowNum - 1 \<and> lastRow < 1000")
    case True
    with "1.prems" have "t = emptyTr maxCol (lastRow + 1) \<or> t \<in> set (fillEmptyRows maxCol (lastRow + 1) rowNum)"
      by (simp add: fillEmptyRows.simps [of maxCol lastRow rowNum])
    then show ?thesis
    proof
      assume "t = emptyTr maxCol (lastRow + 1)"
      with True show ?thesis by (simp add: emptyTr_def)
    next
      assume "t \<in> set (fillEmptyRows maxCol (lastRow + 1) rowNum)"
      from "1.IH" [OF True this] show ?thesis by auto
    qed
  next
    case False
    with "1.prems" show ?thesis by (simp add: fillEmptyRows.simps [of maxCol lastRow rowNum])
  qed
qed

lemma upto_cols_length: "maxCol \<le> 100 \<Longrightarrow> length (filter P [1..maxCol]) \<le> 100"
proof -
  assume m: "maxCol \<le> 100"
  have "length (filter P [1..maxCol]) \<le> length [1..maxCol]" by (rule length_filter_le)
  also have "\<dots> = nat maxCol" by simp
  also have "\<dots> \<le> 100" using m by simp
  finally show ?thesis .
qed

lemma renderRow_rows:
  assumes m: "maxCol \<le> 100" and t: "t \<in> set (renderRow maxCol mg lastRow rowE)"
  shows "length (tr_tds t) \<le> 100 \<and> (\<forall>d \<in> set (tr_tds t). 1 \<le> td_col d \<and> td_col d \<le> 100) \<and>
         (\<forall>n. tr_label t = Some n \<longrightarrow> n \<le> 1000)"
proof -
  let ?rowNum = "parseIntAttr (row_r rowE)"
  let ?filled = "(case (lastRow, ?rowNum) of (Some l, Some r) \<Rightarrow> fillEmptyRows maxCol l r | _ \<Rightarrow> [])"
  let ?own = "\<lparr>tr_label = ?rowNum,
                 tr_tds = map (\<lambda>c. \<lparr>td_col = c, td_cell = buildCellMap (row_cells rowE) c\<rparr>)
                            (filter (\<lambda>c. \<not> isHidden mg ?rowNum c) [1..maxCol])\<rparr>"
  have filled: ?thesis if "t \<in> set ?filled"
  proof -
    from that obtain l r where "t \<in> set (fillEmptyRows maxCol l r)"
      by (auto split: option.splits)
    from fillEmptyRows_rows [OF this] m upto_cols_length [OF m, of "\<lambda>c. True"]
    show ?thesis by auto
  qed
  have own: ?thesis if "t = ?own" and "\<not> (case ?rowNum of None \<Rightarrow> False | Some r \<Rightarrow> r > 1000)"
    using that m upto_cols_length [OF m, of "\<lambda>c. \<not> isHidden mg ?rowNum c"]
    by (auto split: option.splits)
  from t have "t \<in> set ?filled \<or> (t = ?own \<and> \<not> (case ?rowNum of None \<Rightarrow> False | Some r \<Rightarrow> r > 1000))"
    by (auto simp: renderRow_def Let_def split: if_splits)
  with filled own show ?thesis by blast
qed

lemma renderRows_rows:
  assumes m: "maxCol \<le> 100"
  shows "t \<in> set (renderRows maxCol mg lastRow rows) \<Longrightarrow>
         length (tr_tds t) \<le> 100 \<and> (\<forall>d \<in> set (tr_tds t). 1 \<le> td_col d \<and> td_col d \<le> 100) \<and>
         (\<forall>n. tr_label t = Some n \<longrightarrow> n \<le> 1000)"
proof (induction rows arbitrary: lastRow)
  case Nil
  then show ?case by simp
next
  case (Cons rowE rows)
  from Cons.prems have "t \<in> set (renderRow maxCol mg lastRow rowE) \<or>
      t \<in> set (renderRows maxCol mg (parseIntAttr (row_r rowE)) rows)"
    by simp
  then show ?case
  proof
    assume "t \<in> set (renderRow maxCol mg lastRow rowE)"
    from renderRow_rows [OF m this] show ?thesis .
  next
    assume "t \<in> set (renderRows maxCol mg (parseIntAttr (row_r rowE)) rows)"
    from Cons.IH [OF this] show ?thesis .
  qed
qed

lemma renderRow_skipped:
  assumes "parseIntAttr (row_r rowE) = Some n" and "1000 < n"
      and "t \<in> set (renderRow maxCol mg lastRow rowE)"
  shows "\<forall>d \<in> set (tr_tds t). td_cell d = None"
proof -
  from assms have "t \<in> set (case lastRow of None \<Rightarrow> [] | Some l \<Rightarrow> fillEmptyRows maxCol l n)"
    by (auto simp: renderRow_def Let_def split: option.splits)
  then obtain l where "t \<in> set (fillEmptyRows maxCol l n)"
    by (auto split: option.splits)
  from fillEmptyRows_rows [OF this] show ?thesis by auto
qed

text \<open>
  C10. The grid is truncated at every load: the computed maximum column is at most 100,
  the header and every row have at most 100 cells, all for columns 1 to 100; no row of the
  table is numbered above 1000, and a row element numbered above 1000 contributes no cell
  content (before it, only empty rows up to row 1000 are filled in).
\<close>

theorem renderSheet_truncated:
  assumes "renderSheet doc = Some g"
  shows "computeMaxCol (doc_rows doc) \<le> 100 \<and>
         headerCols g = [1..computeMaxCol (doc_rows doc)] \<and>
         length (headerCols g) \<le> 100 \<and>
         (\<forall>t \<in> set (bodyRows g).
            length (tr_tds t) \<le> 100 \<and>
            (\<forall>d \<in> set (tr_tds t). 1 \<le> td_col d \<and> td_col d \<le> 100) \<and>
            (\<forall>n. tr_label t = Some n \<longrightarrow> n \<le> 1000)) \<and>
         (\<forall>rowE n lastRow. parseIntAttr (row_r rowE) = Some n \<and> 1000 < n \<longrightarrow>
            (\<forall>t \<in> set (renderRow (computeMaxCol (doc_rows doc))
                          (merges (buildMerges (doc_mergeCells doc))) lastRow rowE).
               \<forall>d \<in> set (tr_tds t). td_cell d = None))"
proof -
  let ?m = "computeMaxCol (doc_rows doc)"
  have m: "?m \<le> 100" by (rule computeMaxCol_le)
  from assms have g: "g = \<lparr>headerCols = [1..?m],
      bodyRows = renderRows ?m (merges (buildMerges (doc_mergeCells doc))) (Some 0) (doc_rows doc)\<rparr>"
    by (auto simp: renderSheet_def Let_def split: if_splits)
  have h: "length (headerCols g) \<le> 100" using g m by simp
  have b: "\<forall>t \<in> set (bodyRows g).
            length (tr_tds t) \<le> 100 \<and>
            (\<forall>d \<in> set (tr_tds t). 1 \<le> td_col d \<and> td_col d \<le> 100) \<and>
            (\<forall>n. tr_label t = Some n \<longrightarrow> n \<le> 1000)"
    using g renderRows_rows [OF m] by simp
  have s: "\<forall>rowE n lastRow. parseIntAttr (row_r rowE) = Some n \<and> 1000 < n \<longrightarrow>
            (\<forall>t \<in> set (renderRow ?m (merges (buildMerges (doc_mergeCells doc))) lastRow rowE).
               \<forall>d \<in> set (tr_tds t). td_cell d = None)"
    using renderRow_skipped by blast
  from m g h b s show ?thesis by simp
qed


theorem renderSheet_truncated_witness:
  "snd (cellRef (Some ''DA1'')) = 105 \<and>
   computeMaxCol (doc_rows wideSheet) = 100 \<and>
   length (headerCols (the (renderSheet wideSheet))) \<le> 100 \<and>
   list_all (\<lambda>t. length (tr_tds t) \<le> 100 \<and> tr_label t \<noteq> Some 1001)
     (bodyRows (the (renderSheet wideSheet)))"
proof -
  have c: "snd (cellRef (Some ''DA1'')) = 105"
    by code_simp
  have m: "computeMaxCol (doc_rows wideSheet) = 100"
    by code_simp
  have r: "renderSheet wideSheet = Some (the (renderSheet wideSheet))"
    by (simp add: renderSheet_def wideSheet_def Let_def)
  note T = renderSheet_truncated [OF r]
  from T have h: "length (headerCols (the (renderSheet wideSheet))) \<le> 100"
    by blast
  from T have "\<forall>t \<in> set (bodyRows (the (renderSheet wideSheet))).
           length (tr_tds t) \<le> 100 \<and> (\<forall>n. tr_label t = Some n \<longrightarrow> n \<le> 1000)"
    by blast
  then have b: "list_all (\<lambda>t. length (tr_tds t) \<le> 100 \<and> tr_label t \<noteq> Some 1001)
           (bodyRows (the (renderSheet wideSheet)))"
    by (fastforce simp: list_all_iff)
  from c m h b show ?thesis by blast
qed

section \<open>Properties of the merged borders\<close>

lemma applyBorderSideM_top:
  "applyBorderSideM E sc ec td SideTop bs = td\<lparr>borderTop := assigned E sc ec SideTop bs (borderTop td)\<rparr>"
  by (simp add: applyBorderSideM_def assigned_def setStyleBorder_def split: option.splits)

lemma applyBorderSideM_bottom:
  "applyBorderSideM E sc ec td SideBottom bs =
     td\<lparr>borderBottom := assigned E sc ec SideBottom bs (borderBottom td)\<rparr>"
  by (simp add: applyBorderSideM_def assigned_def setStyleBorder_def split: option.splits)

lemma applyBorderSideM_left:
  "applyBorderSideM E sc ec td SideLeft bs = td\<lparr>borderLeft := assigned E sc ec SideLeft bs (borderLeft td)\<rparr>"
  by (simp add: applyBorderSideM_def assigned_def setStyleBorder_def split: option.splits)

lemma applyBorderSideM_right:
  "applyBorderSideM E sc ec td SideRight bs =
     td\<lparr>borderRight := assigned E sc ec SideRight bs (borderRight td)\<rparr>"
  by (simp add: applyBorderSideM_def assigned_def setStyleBorder_def split: option.splits)

lemma filled_idem: "filled E sc ec sd bs (filled E sc ec sd bs old) = filled E sc ec sd bs old"
  by (simp add: filled_def)

lemma filled_set: "old \<noteq> [] \<Longrightarrow> filled E sc ec sd bs old = old"
  by (simp add: filled_def)

lemma applyMergedBorders_sides:
  "applyMergedBorders E rsi td r c rs cs =
     td\<lparr>borderTop := filled E c (c + cs - 1) SideTop
          (firstSide b_top (map (\<lambda>k. getBorderForCell E rsi r k) [c..c + cs - 1])) (borderTop td),
        borderBottom := filled E c (c + cs - 1) SideBottom
          (firstSide b_bottom (map (\<lambda>k. getBorderForCell E rsi (r + rs - 1) k) [c..c + cs - 1]))
          (borderBottom td),
        borderLeft := filled E c (c + cs - 1) SideLeft
          (firstSide b_left (map (\<lambda>k. getBorderForCell E rsi k c) [r..r + rs - 1])) (borderLeft td),
        borderRight := filled E c (c + cs - 1) SideRight
          (firstSide b_right (map (\<lambda>k. getBorderForCell E rsi k (c + cs - 1)) [r..r + rs - 1]))
          (borderRight td)\<rparr>"
  by (simp add: applyMergedBorders_def Let_def filled_def applyBorderSideM_top applyBorderSideM_bottom
      applyBorderSideM_left applyBorderSideM_right)

text \<open>
  C5. Aggregation fills a side only while that side is not set: a side that is set keeps
  its value, an anchor with all four sides set is returned as it is, and running the
  aggregation a second time changes nothing.
\<close>

theorem applyMergedBorders_idempotent:
  "(borderTop td \<noteq> [] \<longrightarrow> borderTop (applyMergedBorders E rsi td r c rs cs) = borderTop td) \<and>
   (borderBottom td \<noteq> [] \<longrightarrow> borderBottom (applyMergedBorders E rsi td r c rs cs) = borderBottom td) \<and>
   (borderLeft td \<noteq> [] \<longrightarrow> borderLeft (applyMergedBorders E rsi td r c rs cs) = borderLeft td) \<and>
   (borderRight td \<noteq> [] \<longrightarrow> borderRight (applyMergedBorders E rsi td r c rs cs) = borderRight td) \<and>
   (borderTop td \<noteq> [] \<and> borderBottom td \<noteq> [] \<and> borderLeft td \<noteq> [] \<and> borderRight td \<noteq> [] \<longrightarrow>
      applyMergedBorders E rsi td r c rs cs = td) \<and>
   applyMergedBorders E rsi (applyMergedBorders E rsi td r c rs cs) r c rs cs =
     applyMergedBorders E rsi td r c rs cs"
proof -
  have idem: "applyMergedBorders E rsi (applyMergedBorders E rsi td r c rs cs) r c rs cs =
     applyMergedBorders E rsi td r c rs cs"
    by (simp add: applyMergedBorders_sides filled_idem)
  have sides:
    "borderTop td \<noteq> [] \<longrightarrow> borderTop (applyMergedBorders E rsi td r c rs cs) = borderTop td"
    "borderBottom td \<noteq> [] \<longrightarrow> borderBottom (applyMergedBorders E rsi td r c rs cs) = borderBottom td"
    "borderLeft td \<noteq> [] \<longrightarrow> borderLeft (applyMergedBorders E rsi td r c rs cs) = borderLeft td"
    "borderRight td \<noteq> [] \<longrightarrow> borderRight (applyMergedBorders E rsi td r c rs cs) = borderRight td"
    by (simp_all add: applyMergedBorders_sides filled_set)
  have full: "borderTop td \<noteq> [] \<and> borderBottom td \<noteq> [] \<and> borderLeft td \<noteq> [] \<and> borderRight td \<noteq> [] \<longrightarrow>
      applyMergedBorders E rsi td r c rs cs = td"
    by (simp add: applyMergedBorders_sides filled_set)
  from idem sides full show ?thesis by blast
qed


theorem applyMergedBorders_idempotent_witness:
  "applyMergedBorders exampleEnv (\<lambda>r c. Some 1)
     \<lparr>borderTop = ''2px solid red'', borderRight = ''2px solid red'',
      borderBottom = ''2px solid red'', borderLeft = ''2px solid red''\<rparr> 2 2 2 2 =
     \<lparr>borderTop = ''2px solid red'', borderRight = ''2px solid red'',
      borderBottom = ''2px solid red'', borderLeft = ''2px solid red''\<rparr> \<and>
   applyMergedBorders exampleEnv (\<lambda>r c. Some 1)
     \<lparr>borderTop = [], borderRight = [], borderBottom = [], borderLeft = []\<rparr> 2 2 2 2 =
     \<lparr>borderTop = ''1px solid #000'', borderRight = ''1px solid #000'',
      borderBottom = ''1px solid #000'', borderLeft = ''1px solid #000''\<rparr> \<and>
   applyMergedBorders exampleEnv (\<lambda>r c. Some 1)
     (applyMergedBorders exampleEnv (\<lambda>r c. Some 1)
        \<lparr>borderTop = [], borderRight = [], borderBottom = [], borderLeft = []\<rparr> 2 2 2 2) 2 2 2 2 =
     \<lparr>borderTop = ''1px solid #000'', borderRight = ''1px solid #000'',
      borderBottom = ''1px solid #000'', borderLeft = ''1px solid #000''\<rparr>"
proof -
  let ?rsi = "\<lambda>(r :: jsint) (c :: int). Some (1 :: int)"
  let ?full = "\<lparr>borderTop = ''2px solid red'', borderRight = ''2px solid red'',
      borderBottom = ''2px solid red'', borderLeft = ''2px solid red''\<rparr>"
  let ?none = "\<lparr>borderTop = [], borderRight = [], borderBottom = [], borderLeft = []\<rparr>"
  have s: "borderTop ?full \<noteq> [] \<and> borderBottom ?full \<noteq> [] \<and> borderLeft ?full \<noteq> [] \<and>
           borderRight ?full \<noteq> []"
    by simp
  from applyMergedBorders_idempotent [of ?full exampleEnv ?rsi 2 2 2 2] s
  have a: "applyMergedBorders exampleEnv ?rsi ?full 2 2 2 2 = ?full"
    by blast
  have b: "applyMergedBorders exampleEnv ?rsi ?none 2 2 2 2 =
     \<lparr>borderTop = ''1px solid #000'', borderRight = ''1px solid #000'',
      borderBottom = ''1px solid #000'', borderLeft = ''1px solid #000''\<rparr>"
    by code_simp
  from applyMergedBorders_idempotent [of ?none exampleEnv ?rsi 2 2 2 2]
  have "applyMergedBorders exampleEnv ?rsi (applyMergedBorders exampleEnv ?rsi ?none 2 2 2 2) 2 2 2 2
          = applyMergedBorders exampleEnv ?rsi ?none 2 2 2 2"
    by blast
  with b have c: "applyMergedBorders exampleEnv ?rsi
                    (applyMergedBorders exampleEnv ?rsi ?none 2 2 2 2) 2 2 2 2 =
     \<lparr>borderTop = ''1px solid #000'', borderRight = ''1px solid #000'',
      borderBottom = ''1px solid #000'', borderLeft = ''1px solid #000''\<rparr>"
    by simp
  from a b c show ?thesis by blast
qed

section \<open>Properties of the number formatter\<close>


























section \<open>Properties of the text overflow\<close>

lemma free_not_blocked:
  "freeColumn E rowNum cellMap msm rsi c \<Longrightarrow> \<not> blockedColumn E rowNum cellMap msm rsi c"
  by (simp add: freeColumn_def blockedColumn_def)

lemma getCellDisplayText_None: "getCellDisplayText E None idx = Inr []"
  by (simp add: getCellDisplayText_def)

lemma scanOverflow_end:
  "scanOverflow E rowNum cellMap msm rsi c (c - 1) = Inr e \<longleftrightarrow>
     c - 1 \<le> e \<and>
     (\<forall>k. c \<le> k \<and> k \<le> e \<longrightarrow> k \<le> e_currentMaxCol E \<and> freeColumn E rowNum cellMap msm rsi k) \<and>
     (e_currentMaxCol E \<le> e \<or> blockedColumn E rowNum cellMap msm rsi (e + 1))"
  (is "?L c = Inr e \<longleftrightarrow> ?R c")
proof (induction E rowNum cellMap msm rsi c "c - 1" arbitrary: e rule: scanOverflow.induct)
  case (1 E rowNum cellMap msm rsi c)
  let ?free = "freeColumn E rowNum cellMap msm rsi"
  let ?blocked = "blockedColumn E rowNum cellMap msm rsi"
  let ?R = "\<lambda>c. c - 1 \<le> e \<and> (\<forall>k. c \<le> k \<and> k \<le> e \<longrightarrow> k \<le> e_currentMaxCol E \<and> ?free k) \<and>
     (e_currentMaxCol E \<le> e \<or> ?blocked (e + 1))"
  have stop: "?R c \<longleftrightarrow> e = c - 1" if "\<not> ?free c" "e_currentMaxCol E < c \<or> ?blocked c"
  proof
    assume r: "?R c"
    show "e = c - 1"
    proof (rule ccontr)
      assume "e \<noteq> c - 1"
      with r have "c \<le> e" by simp
      with r have "?free c" by simp
      with that show False by simp
    qed
  next
    assume "e = c - 1"
    with that show "?R c" by auto
  qed
  have step: "?R c \<longleftrightarrow> ?R (c + 1)" if f: "?free c" and le: "c \<le> e_currentMaxCol E"
  proof
    assume r: "?R c"
    have "e \<noteq> c - 1"
    proof
      assume "e = c - 1"
      with r have "e_currentMaxCol E \<le> c - 1 \<or> ?blocked c" by simp
      with le free_not_blocked [OF f] show False by simp
    qed
    with r show "?R (c + 1)" by simp
  next
    assume r: "?R (c + 1)"
    have "\<forall>k. c \<le> k \<and> k \<le> e \<longrightarrow> k \<le> e_currentMaxCol E \<and> ?free k"
    proof (intro allI impI)
      fix k assume k: "c \<le> k \<and> k \<le> e"
      show "k \<le> e_currentMaxCol E \<and> ?free k"
      proof (cases "k = c")
        case True
        with f le show ?thesis by simp
      next
        case False
        with k have "c + 1 \<le> k \<and> k \<le> e" by simp
        with r show ?thesis by blast
      qed
    qed
    with r show "?R c" by simp
  qed
  show ?case
  proof (cases "c \<le> e_currentMaxCol E")
    case False
    then have "scanOverflow E rowNum cellMap msm rsi c (c - 1) = Inr (c - 1)"
      by (simp add: scanOverflow.simps [of E rowNum cellMap msm rsi c])
    moreover have "\<not> ?free c \<or> True" by simp
    moreover have "?R c \<longleftrightarrow> e = c - 1"
    proof
      assume r: "?R c"
      show "e = c - 1"
      proof (rule ccontr)
        assume "e \<noteq> c - 1"
        with r have "c \<le> e" by simp
        with r have "c \<le> e_currentMaxCol E" by simp
        with False show False by simp
      qed
    next
      assume "e = c - 1"
      with False show "?R c" by auto
    qed
    ultimately show ?thesis by auto
  next
    case le: True
    show ?thesis
    proof (cases "mergeHas msm rowNum c")
      case True
      then have "scanOverflow E rowNum cellMap msm rsi c (c - 1) = Inr (c - 1)"
        using le by (simp add: scanOverflow.simps [of E rowNum cellMap msm rsi c])
      moreover from True have "\<not> ?free c" "?blocked c"
        by (simp_all add: freeColumn_def blockedColumn_def)
      ultimately show ?thesis using stop by auto
    next
      case nm: False
      show ?thesis
      proof (cases "cellMap c")
        case None
        then have s: "scanOverflow E rowNum cellMap msm rsi c (c - 1) =
                      scanOverflow E rowNum cellMap msm rsi (c + 1) c"
          using le nm by (simp add: scanOverflow.simps [of E rowNum cellMap msm rsi c "c - 1"])
        from None nm have f: "?free c"
          by (simp add: freeColumn_def getCellDisplayText_None)
        from "1.hyps"(1) [OF le nm None, of e]
        have "scanOverflow E rowNum cellMap msm rsi (c + 1) c = Inr e \<longleftrightarrow> ?R (c + 1)"
          by simp
        with s step [OF f le] show ?thesis by simp
      next
        case (Some neighbor)
        show ?thesis
        proof (cases "getCellDisplayText E (Some neighbor) (rsi rowNum c)")
          case (Inl err)
          then have "scanOverflow E rowNum cellMap msm rsi c (c - 1) = Inl err"
            using le nm Some by (simp add: scanOverflow.simps [of E rowNum cellMap msm rsi c "c - 1"])
          moreover from Inl Some nm have nf: "\<not> ?free c" and nb: "\<not> ?blocked c"
            by (simp_all add: freeColumn_def blockedColumn_def)
          moreover have "\<not> ?R c"
          proof
            assume r: "?R c"
            show False
            proof (cases "e = c - 1")
              case True
              with r le nb show False by simp
            next
              case False
              with r have "c \<le> e" by simp
              with r nf show False by simp
            qed
          qed
          ultimately show ?thesis by simp
        next
          case (Inr neighborText)
          show ?thesis
          proof (cases "neighborText = []")
            case True
            then have s: "scanOverflow E rowNum cellMap msm rsi c (c - 1) =
                          scanOverflow E rowNum cellMap msm rsi (c + 1) c"
              using le nm Some Inr
              by (simp add: scanOverflow.simps [of E rowNum cellMap msm rsi c "c - 1"])
            from True Inr Some nm have f: "?free c"
              by (simp add: freeColumn_def)
            from "1.hyps"(2) [OF le nm Some Inr _ , of e] True
            have "scanOverflow E rowNum cellMap msm rsi (c + 1) c = Inr e \<longleftrightarrow> ?R (c + 1)"
              by simp
            with s step [OF f le] show ?thesis by simp
          next
            case False
            then have "scanOverflow E rowNum cellMap msm rsi c (c - 1) = Inr (c - 1)"
              using le nm Some Inr
              by (simp add: scanOverflow.simps [of E rowNum cellMap msm rsi c "c - 1"])
            moreover from False Inr Some have "\<not> ?free c" "?blocked c"
              by (simp_all add: freeColumn_def blockedColumn_def)
            ultimately show ?thesis using stop by auto
          qed
        qed
      qed
    qed
  qed
qed


lemma getCellDisplayText_text:
  "isTextType (cell_t cell) \<Longrightarrow> getCellDisplayText E (Some cell) None = Inr (cellText E cell)"
  by (auto simp: isTextType_def getCellDisplayText_def cellText_def truthyStr_def Let_def)

lemma getOverflowEndCol_not_eligible:
  "\<not> overflowEligible E cell styleIndex rowNum colNum msm \<Longrightarrow>
   getOverflowEndCol E (Some cell) styleIndex rowNum colNum cellMap msm rsi = Inr None"
proof (cases "isTextType (cell_t cell)")
  case False
  then show ?thesis by (simp add: getOverflowEndCol_def)
next
  case True
  assume "\<not> overflowEligible E cell styleIndex rowNum colNum msm"
  with True getCellDisplayText_text [OF True, of E] show ?thesis
    by (cases "alignmentOf (cellStyleOf E styleIndex)")
       (auto simp: getOverflowEndCol_def overflowEligible_def Let_def)
qed

lemma getOverflowEndCol_eligible:
  "overflowEligible E cell styleIndex rowNum colNum msm \<Longrightarrow>
   getOverflowEndCol E (Some cell) styleIndex rowNum colNum cellMap msm rsi =
     (case scanOverflow E rowNum cellMap msm rsi (colNum + 1) colNum of
        Inl err \<Rightarrow> Inl err
      | Inr endCol \<Rightarrow> if endCol > colNum then Inr (Some endCol) else Inr None)"
proof -
  assume e: "overflowEligible E cell styleIndex rowNum colNum msm"
  then have t: "isTextType (cell_t cell)" by (simp add: overflowEligible_def)
  from e getCellDisplayText_text [OF t, of E] show ?thesis
    by (cases "alignmentOf (cellStyleOf E styleIndex)")
       (auto simp: getOverflowEndCol_def overflowEligible_def Let_def)
qed

lemma getOverflowEndCol_iff:
  "getOverflowEndCol E cellElem styleIndex rowNum colNum cellMap msm rsi = Inr (Some e) \<longleftrightarrow>
     (\<exists>cell. cellElem = Some cell \<and> overflowEligible E cell styleIndex rowNum colNum msm) \<and>
     colNum < e \<and> e \<le> e_currentMaxCol E \<and>
     (\<forall>k. colNum < k \<and> k \<le> e \<longrightarrow> freeColumn E rowNum cellMap msm rsi k) \<and>
     (e = e_currentMaxCol E \<or> blockedColumn E rowNum cellMap msm rsi (e + 1))"
proof (cases cellElem)
  case None
  then show ?thesis by (simp add: getOverflowEndCol_def)
next
  case (Some cell)
  show ?thesis
  proof (cases "overflowEligible E cell styleIndex rowNum colNum msm")
    case False
    with Some getOverflowEndCol_not_eligible [OF False] show ?thesis by simp
  next
    case True
    have scan: "scanOverflow E rowNum cellMap msm rsi (colNum + 1) colNum = Inr e \<longleftrightarrow>
       colNum \<le> e \<and>
       (\<forall>k. colNum + 1 \<le> k \<and> k \<le> e \<longrightarrow> k \<le> e_currentMaxCol E \<and> freeColumn E rowNum cellMap msm rsi k) \<and>
       (e_currentMaxCol E \<le> e \<or> blockedColumn E rowNum cellMap msm rsi (e + 1))"
      using scanOverflow_end [of E rowNum cellMap msm rsi "colNum + 1" e] by simp
    have "getOverflowEndCol E cellElem styleIndex rowNum colNum cellMap msm rsi = Inr (Some e) \<longleftrightarrow>
          scanOverflow E rowNum cellMap msm rsi (colNum + 1) colNum = Inr e \<and> colNum < e"
      using Some getOverflowEndCol_eligible [OF True, of cellMap rsi]
      by (auto split: sum.splits if_splits)
    also have "\<dots> \<longleftrightarrow> colNum < e \<and> e \<le> e_currentMaxCol E \<and>
       (\<forall>k. colNum < k \<and> k \<le> e \<longrightarrow> freeColumn E rowNum cellMap msm rsi k) \<and>
       (e = e_currentMaxCol E \<or> blockedColumn E rowNum cellMap msm rsi (e + 1))"
      (is "?A \<longleftrightarrow> ?B")
    proof
      assume a: ?A
      with scan have c: "colNum \<le> e"
        and f: "\<forall>k. colNum + 1 \<le> k \<and> k \<le> e \<longrightarrow> k \<le> e_currentMaxCol E \<and> freeColumn E rowNum cellMap msm rsi k"
        and b: "e_currentMaxCol E \<le> e \<or> blockedColumn E rowNum cellMap msm rsi (e + 1)"
        by blast+
      from a have lt: "colNum < e" by simp
      with f have "e \<le> e_currentMaxCol E" by simp
      moreover from f have "\<forall>k. colNum < k \<and> k \<le> e \<longrightarrow> freeColumn E rowNum cellMap msm rsi k"
        by simp
      moreover from b \<open>e \<le> e_currentMaxCol E\<close>
      have "e = e_currentMaxCol E \<or> blockedColumn E rowNum cellMap msm rsi (e + 1)" by auto
      ultimately show ?B using lt by simp
    next
      assume b: ?B
      then have "\<forall>k. colNum + 1 \<le> k \<and> k \<le> e \<longrightarrow> k \<le> e_currentMaxCol E \<and> freeColumn E rowNum cellMap msm rsi k"
        by auto
      moreover from b have "e_currentMaxCol E \<le> e \<or> blockedColumn E rowNum cellMap msm rsi (e + 1)"
        by auto
      ultimately have "scanOverflow E rowNum cellMap msm rsi (colNum + 1) colNum = Inr e"
        using scan b by simp
      with b show ?A by simp
    qed
    finally show ?thesis using Some True by simp
  qed
qed

text \<open>
  For a positive MDW the bound of the comparison is not NaN, so that the comparison is
  false exactly when the measured width exceeds the bound.
\<close>

lemma js_not_le_iff_lt: "a \<noteq> NaN \<Longrightarrow> b \<noteq> NaN \<Longrightarrow> (\<not> js_le a b) = js_lt b a"
  by (cases a; cases b) auto

lemma overflow_bound_not_NaN:
  assumes "0 < mdw"
  shows "js_max (Fin 0) (dsub (calcColumnWidthPx mdw w) (Fin 6)) \<noteq> NaN"
proof -
  have "dsub (calcColumnWidthPx mdw w) (Fin 6) \<noteq> NaN"
    using calcColumnWidthPx_nonNegative [OF assms, of w]
    by (cases "calcColumnWidthPx mdw w") (simp_all add: dsub_def roundD_cases)
  then show ?thesis
    by (cases "dsub (calcColumnWidthPx mdw w) (Fin 6)") simp_all
qed

lemma overflow_test_exceeds:
  "0 < mdw \<Longrightarrow>
   (\<not> js_le (Fin t) (js_max (Fin 0) (dsub (calcColumnWidthPx mdw w) (Fin 6)))) =
   js_lt (js_max (Fin 0) (dsub (calcColumnWidthPx mdw w) (Fin 6))) (Fin t)"
  by (rule js_not_le_iff_lt [OF _ overflow_bound_not_NaN]) simp_all

lemma nonEmpty_blocked:
  "nonEmptyColumn E rowNum cellMap rsi c \<Longrightarrow> blockedColumn E rowNum cellMap msm rsi c"
  by (simp add: nonEmptyColumn_def blockedColumn_def)

text \<open>
  C4, amended. \<^verbatim>\<open>getOverflowEndCol\<close> reports the end column \<open>e\<close> exactly when the cell
  is eligible (a type attribute \<^verbatim>\<open>s\<close>, \<^verbatim>\<open>inlineStr\<close> or \<^verbatim>\<open>str\<close>; no wrap, no shrink-to-fit, no
  rotation; horizontal alignment not center, right, justify or distributed; not in a
  merge; a display text that is not empty and measures more than
  \<open>max(0, column width - 6)\<close> pixels), the columns after the cell up to \<open>e\<close> are
  free and within \<^verbatim>\<open>currentMaxCol\<close>, and \<open>e\<close> is the last column or the column after \<open>e\<close>
  is blocked; \<open>e\<close> is beyond the cell's own column. A cell that is not eligible has no
  overflow, and neither has an eligible cell in the last column or before a blocked
  column: a span of one column is no overflow. An eligible cell followed by two columns
  that are empty, not merged and within the bound, and then by a cell that is not empty,
  overflows to the second.
\<close>

theorem getOverflowEndCol_rule:
  "(getOverflowEndCol E cellElem styleIndex rowNum colNum cellMap msm rsi = Inr (Some e) \<longleftrightarrow>
      (\<exists>cell. cellElem = Some cell \<and> overflowEligible E cell styleIndex rowNum colNum msm) \<and>
      colNum < e \<and> e \<le> e_currentMaxCol E \<and>
      (\<forall>k. colNum < k \<and> k \<le> e \<longrightarrow> freeColumn E rowNum cellMap msm rsi k) \<and>
      (e = e_currentMaxCol E \<or> blockedColumn E rowNum cellMap msm rsi (e + 1))) \<and>
   ((\<forall>cell. cellElem = Some cell \<longrightarrow> \<not> overflowEligible E cell styleIndex rowNum colNum msm) \<longrightarrow>
      getOverflowEndCol E cellElem styleIndex rowNum colNum cellMap msm rsi = Inr None) \<and>
   ((\<exists>cell. cellElem = Some cell \<and> overflowEligible E cell styleIndex rowNum colNum msm) \<and>
    (e_currentMaxCol E \<le> colNum \<or> blockedColumn E rowNum cellMap msm rsi (colNum + 1)) \<longrightarrow>
      getOverflowEndCol E cellElem styleIndex rowNum colNum cellMap msm rsi = Inr None) \<and>
   ((\<exists>cell. cellElem = Some cell \<and> overflowEligible E cell styleIndex rowNum colNum msm) \<and>
    colNum + 2 \<le> e_currentMaxCol E \<and>
    freeColumn E rowNum cellMap msm rsi (colNum + 1) \<and>
    freeColumn E rowNum cellMap msm rsi (colNum + 2) \<and>
    nonEmptyColumn E rowNum cellMap rsi (colNum + 3) \<longrightarrow>
      getOverflowEndCol E cellElem styleIndex rowNum colNum cellMap msm rsi = Inr (Some (colNum + 2)))"
proof (intro conjI impI)
  show "getOverflowEndCol E cellElem styleIndex rowNum colNum cellMap msm rsi = Inr (Some e) \<longleftrightarrow>
      (\<exists>cell. cellElem = Some cell \<and> overflowEligible E cell styleIndex rowNum colNum msm) \<and>
      colNum < e \<and> e \<le> e_currentMaxCol E \<and>
      (\<forall>k. colNum < k \<and> k \<le> e \<longrightarrow> freeColumn E rowNum cellMap msm rsi k) \<and>
      (e = e_currentMaxCol E \<or> blockedColumn E rowNum cellMap msm rsi (e + 1))"
    by (rule getOverflowEndCol_iff)
next
  assume n: "\<forall>cell. cellElem = Some cell \<longrightarrow> \<not> overflowEligible E cell styleIndex rowNum colNum msm"
  show "getOverflowEndCol E cellElem styleIndex rowNum colNum cellMap msm rsi = Inr None"
  proof (cases cellElem)
    case None
    then show ?thesis by (simp add: getOverflowEndCol_def)
  next
    case (Some cell)
    with n have "\<not> overflowEligible E cell styleIndex rowNum colNum msm" by simp
    from getOverflowEndCol_not_eligible [OF this] Some show ?thesis by simp
  qed
next
  assume b: "(\<exists>cell. cellElem = Some cell \<and> overflowEligible E cell styleIndex rowNum colNum msm) \<and>
    (e_currentMaxCol E \<le> colNum \<or> blockedColumn E rowNum cellMap msm rsi (colNum + 1))"
  then obtain cell where c: "cellElem = Some cell"
    and el: "overflowEligible E cell styleIndex rowNum colNum msm" by blast
  have "\<forall>k. colNum + 1 \<le> k \<and> k \<le> colNum \<longrightarrow>
          k \<le> e_currentMaxCol E \<and> freeColumn E rowNum cellMap msm rsi k"
    by auto
  with b scanOverflow_end [of E rowNum cellMap msm rsi "colNum + 1" colNum]
  have "scanOverflow E rowNum cellMap msm rsi (colNum + 1) colNum = Inr colNum" by simp
  with getOverflowEndCol_eligible [OF el, of cellMap rsi] c
  show "getOverflowEndCol E cellElem styleIndex rowNum colNum cellMap msm rsi = Inr None" by simp
next
  assume a: "(\<exists>cell. cellElem = Some cell \<and> overflowEligible E cell styleIndex rowNum colNum msm) \<and>
    colNum + 2 \<le> e_currentMaxCol E \<and>
    freeColumn E rowNum cellMap msm rsi (colNum + 1) \<and>
    freeColumn E rowNum cellMap msm rsi (colNum + 2) \<and>
    nonEmptyColumn E rowNum cellMap rsi (colNum + 3)"
  have "\<forall>k. colNum < k \<and> k \<le> colNum + 2 \<longrightarrow> freeColumn E rowNum cellMap msm rsi k"
  proof (intro allI impI)
    fix k assume "colNum < k \<and> k \<le> colNum + 2"
    then have "k = colNum + 1 \<or> k = colNum + 2" by auto
    with a show "freeColumn E rowNum cellMap msm rsi k" by auto
  qed
  moreover from a have "nonEmptyColumn E rowNum cellMap rsi (colNum + 3)" by simp
  then have "blockedColumn E rowNum cellMap msm rsi (colNum + 3)" by (rule nonEmpty_blocked)
  then have "blockedColumn E rowNum cellMap msm rsi (colNum + 2 + 1)"
    by (simp add: add.assoc)
  ultimately show "getOverflowEndCol E cellElem styleIndex rowNum colNum cellMap msm rsi = Inr (Some (colNum + 2))"
    using a getOverflowEndCol_iff [of E cellElem styleIndex rowNum colNum cellMap msm rsi "colNum + 2"]
    by simp
qed

text \<open>The facts about the example workbook that the evaluations below share.\<close>

lemma overflowEligible_intro:
  assumes "isTextType (cell_t cell)"
    and "alignmentOf (cellStyleOf E styleIndex) = None"
    and "\<not> mergeHas msm rowNum colNum"
    and "cellText E cell = txt" and "txt \<noteq> []"
    and "measureTextWidth E txt (cellStyleOf E styleIndex) = tw"
    and "calcColumnWidthPx (e_currentMDW E) (colWidthOrDefault E colNum) = cw"
    and "\<not> js_le (Fin tw) (js_max (Fin 0) (dsub cw (Fin 6)))"
  shows "overflowEligible E cell styleIndex rowNum colNum msm"
  using assms by (simp add: overflowEligible_def)

lemma overflowEligible_spec_intro:
  assumes "isTextual_spec (cell_t cell)"
    and "alignmentOf (cellStyleOf E styleIndex) = None"
    and "\<not> mergeHas msm rowNum colNum"
    and "cellText E cell = txt"
    and "measureTextWidth E txt (cellStyleOf E styleIndex) = tw"
    and "calcColumnWidthPx (e_currentMDW E) (colWidthOrDefault E colNum) = cw"
    and "js_lt (dsub cw (Fin 6)) (Fin tw)"
  shows "overflowEligible_spec E cell styleIndex rowNum colNum msm"
  using assms by (simp add: overflowEligible_spec_def)

lemma roundD_minus_one: "roundD (- 1) = Fin (- 1)"
  using roundD_of_int [of "- 1"] by simp

lemma padded_widths:
  "dsub (Fin 64) (Fin 6) = Fin 58" "dsub (Fin 5) (Fin 6) = Fin (- 1)"
  by (simp_all add: dsub_def roundD_numeral roundD_minus_one)

lemma example_column_widths:
  "calcColumnWidthPx (e_currentMDW exampleEnv) (colWidthOrDefault exampleEnv 1) = Fin 64"
  "calcColumnWidthPx (e_currentMDW narrowEnv) (colWidthOrDefault narrowEnv 1) = Fin 5"
  "calcColumnWidthPx (e_currentMDW farEnv) (colWidthOrDefault farEnv 99) = Fin 64"
  by (simp_all add: exampleEnv_def narrowEnv_def farEnv_def colWidthOrDefault_def
      calcColumnWidthPx_7_default calcColumnWidthPx_7_sixteenth)

lemma example_styles:
  "alignmentOf (cellStyleOf exampleEnv None) = None"
  "alignmentOf (cellStyleOf narrowEnv None) = None"
  "alignmentOf (cellStyleOf farEnv None) = None"
  by (simp_all add: alignmentOf_def cellStyleOf_def)

lemma example_texts:
  "cellText exampleEnv cellLong = ''Quarterly revenue''"
  "cellText exampleEnv cellFormulaText = ''Quarterly revenue''"
  "cellText farEnv cellFar = ''Quarterly revenue''"
  "cellText narrowEnv cellEmptyText = []"
  by (code_simp, code_simp, code_simp, code_simp)

lemma example_measures:
  "measureTextWidth exampleEnv ''Quarterly revenue'' (cellStyleOf exampleEnv None) = 119"
  "measureTextWidth farEnv ''Quarterly revenue'' (cellStyleOf farEnv None) = 119"
  "measureTextWidth narrowEnv [] (cellStyleOf narrowEnv None) = 0"
  by (simp_all add: measureTextWidth_def exampleEnv_def farEnv_def narrowEnv_def refHost_def)

lemma example_maxCols:
  "e_currentMaxCol exampleEnv = 4" "e_currentMaxCol narrowEnv = 4" "e_currentMaxCol farEnv = 100"
  by (code_simp, code_simp, code_simp)

lemma example_eligible:
  "overflowEligible exampleEnv cellLong None (Some 1) 1 noMerges"
  "overflowEligible exampleEnv cellLong None (Some 1) 1 mergedBC"
  "overflowEligible exampleEnv cellFormulaText None (Some 1) 1 noMerges"
  "overflowEligible farEnv cellFar None (Some 1) 99 noMerges"
proof -
  have m: "\<not> mergeHas noMerges (Some 1) 1" "\<not> mergeHas mergedBC (Some 1) 1"
    "\<not> mergeHas noMerges (Some 1) 99"
    by (code_simp, code_simp, code_simp)
  have t: "isTextType (cell_t cellLong)" "isTextType (cell_t cellFormulaText)"
    "isTextType (cell_t cellFar)"
    by (simp_all add: isTextType_def cellLong_def cellFormulaText_def cellFar_def)
  have w: "\<not> js_le (Fin 119) (js_max (Fin 0) (dsub (Fin 64) (Fin 6)))"
    by (simp add: padded_widths)
  show "overflowEligible exampleEnv cellLong None (Some 1) 1 noMerges"
    by (rule overflowEligible_intro
          [OF t(1) example_styles(1) m(1) example_texts(1) _ example_measures(1)
              example_column_widths(1) w]) simp
  show "overflowEligible exampleEnv cellLong None (Some 1) 1 mergedBC"
    by (rule overflowEligible_intro
          [OF t(1) example_styles(1) m(2) example_texts(1) _ example_measures(1)
              example_column_widths(1) w]) simp
  show "overflowEligible exampleEnv cellFormulaText None (Some 1) 1 noMerges"
    by (rule overflowEligible_intro
          [OF t(2) example_styles(1) m(1) example_texts(2) _ example_measures(1)
              example_column_widths(1) w]) simp
  show "overflowEligible farEnv cellFar None (Some 1) 99 noMerges"
    by (rule overflowEligible_intro
          [OF t(3) example_styles(3) m(3) example_texts(3) _ example_measures(2)
              example_column_widths(3) w]) simp
qed

text \<open>
  C4, as the claim states it, fails, at four inputs. (1) In a column 5 pixels wide, a
  shared-string cell whose text is empty meets every precondition as stated (its measured
  width 0 exceeds \<open>5 - 6\<close>) and the three columns to its right are free, but no overflow is
  computed. (2) A cell with the string result of a formula (\<^verbatim>\<open>t="str"\<close>) is not of a textual
  raw type as stated, but its overflow is computed: it overflows to column 3. (3) A text
  cell in column 99 that meets every precondition, followed by two empty cells and a
  non-empty cell in column 102, overflows one column, to column 100, which is
  \<^verbatim>\<open>currentMaxCol\<close> for this sheet. (4) A text cell that meets every precondition, followed
  by the two empty cells of the merged range \<^verbatim>\<open>B1:C1\<close> and a non-empty cell, does not
  overflow.
\<close>

theorem getOverflowEndCol_counterexamples:
  "(overflowEligible_spec narrowEnv cellEmptyText None (Some 1) 1 noMerges \<and>
    calcColumnWidthPx (e_currentMDW narrowEnv) (colWidthOrDefault narrowEnv 1) = Fin 5 \<and>
    measureTextWidth narrowEnv (cellText narrowEnv cellEmptyText) None = 0 \<and>
    e_currentMaxCol narrowEnv = 4 \<and>
    freeColumn narrowEnv (Some 1) emptyTextCellMap noMerges noStyleIndex 2 \<and>
    freeColumn narrowEnv (Some 1) emptyTextCellMap noMerges noStyleIndex 3 \<and>
    freeColumn narrowEnv (Some 1) emptyTextCellMap noMerges noStyleIndex 4 \<and>
    getOverflowEndCol narrowEnv (Some cellEmptyText) None (Some 1) 1 emptyTextCellMap
      noMerges noStyleIndex = Inr None) \<and>
   (cell_t cellFormulaText = Some ''str'' \<and>
    \<not> overflowEligible_spec exampleEnv cellFormulaText None (Some 1) 1 noMerges \<and>
    getOverflowEndCol exampleEnv (Some cellFormulaText) None (Some 1) 1 formulaCellMap
      noMerges noStyleIndex = Inr (Some 3)) \<and>
   (farCellMap 99 = Some cellFar \<and>
    overflowEligible_spec farEnv cellFar None (Some 1) 99 noMerges \<and>
    freeColumn farEnv (Some 1) farCellMap noMerges noStyleIndex 100 \<and>
    freeColumn farEnv (Some 1) farCellMap noMerges noStyleIndex 101 \<and>
    nonEmptyColumn farEnv (Some 1) farCellMap noStyleIndex 102 \<and>
    e_currentMaxCol farEnv = 100 \<and>
    getOverflowEndCol farEnv (farCellMap 99) None (Some 1) 99 farCellMap
      noMerges noStyleIndex = Inr (Some 100)) \<and>
   (overflowEligible_spec exampleEnv cellLong None (Some 1) 1 mergedBC \<and>
    getCellDisplayText exampleEnv (exampleCellMap 2) (noStyleIndex (Some 1) 2) = Inr [] \<and>
    getCellDisplayText exampleEnv (exampleCellMap 3) (noStyleIndex (Some 1) 3) = Inr [] \<and>
    nonEmptyColumn exampleEnv (Some 1) exampleCellMap noStyleIndex 4 \<and>
    mergeHas mergedBC (Some 1) 2 \<and> mergeHas mergedBC (Some 1) 3 \<and>
    getOverflowEndCol exampleEnv (Some cellLong) None (Some 1) 1 exampleCellMap
      mergedBC noStyleIndex = Inr None)"
proof -
  have nm: "\<not> mergeHas noMerges (Some 1) 1" "\<not> mergeHas mergedBC (Some 1) 1"
    "\<not> mergeHas noMerges (Some 1) 99"
    by (code_simp, code_simp, code_simp)
  have w64: "js_lt (dsub (Fin 64) (Fin 6)) (Fin 119)" and w5: "js_lt (dsub (Fin 5) (Fin 6)) (Fin 0)"
    by (simp_all add: padded_widths)
  txt \<open>The empty text in the narrow column.\<close>
  have a1: "overflowEligible_spec narrowEnv cellEmptyText None (Some 1) 1 noMerges"
    by (rule overflowEligible_spec_intro
          [OF _ example_styles(2) nm(1) example_texts(4) example_measures(3)
              example_column_widths(2) w5])
       (simp add: isTextual_spec_def cellEmptyText_def)
  have a3: "measureTextWidth narrowEnv (cellText narrowEnv cellEmptyText) None = 0"
    by (simp add: example_texts measureTextWidth_def)
  have a5: "freeColumn narrowEnv (Some 1) emptyTextCellMap noMerges noStyleIndex 2"
    "freeColumn narrowEnv (Some 1) emptyTextCellMap noMerges noStyleIndex 3"
    "freeColumn narrowEnv (Some 1) emptyTextCellMap noMerges noStyleIndex 4"
    by (code_simp, code_simp, code_simp)
  have "\<not> overflowEligible narrowEnv cellEmptyText None (Some 1) 1 noMerges"
    by (simp add: overflowEligible_def example_texts)
  then have a8: "getOverflowEndCol narrowEnv (Some cellEmptyText) None (Some 1) 1 emptyTextCellMap
      noMerges noStyleIndex = Inr None"
    by (rule getOverflowEndCol_not_eligible)
  txt \<open>The string result of a formula.\<close>
  have b1: "cell_t cellFormulaText = Some ''str''"
    by (simp add: cellFormulaText_def)
  have b2: "\<not> overflowEligible_spec exampleEnv cellFormulaText None (Some 1) 1 noMerges"
    by (simp add: overflowEligible_spec_def isTextual_spec_def b1)
  have bf: "freeColumn exampleEnv (Some 1) formulaCellMap noMerges noStyleIndex 2"
    "freeColumn exampleEnv (Some 1) formulaCellMap noMerges noStyleIndex 3"
    "blockedColumn exampleEnv (Some 1) formulaCellMap noMerges noStyleIndex (3 + 1)"
    by (code_simp, code_simp, code_simp)
  have "\<forall>k. (1::int) < k \<and> k \<le> 3 \<longrightarrow> freeColumn exampleEnv (Some 1) formulaCellMap noMerges noStyleIndex k"
  proof (intro allI impI)
    fix k :: int assume "1 < k \<and> k \<le> 3"
    then have "k = 2 \<or> k = 3" by auto
    with bf show "freeColumn exampleEnv (Some 1) formulaCellMap noMerges noStyleIndex k" by auto
  qed
  with bf(3) example_eligible(3) example_maxCols(1)
  have b3: "getOverflowEndCol exampleEnv (Some cellFormulaText) None (Some 1) 1 formulaCellMap
      noMerges noStyleIndex = Inr (Some 3)"
    by (simp add: getOverflowEndCol_iff)
  txt \<open>The text in column 99.\<close>
  have c1: "farCellMap 99 = Some cellFar"
    by code_simp
  have c2: "overflowEligible_spec farEnv cellFar None (Some 1) 99 noMerges"
    by (rule overflowEligible_spec_intro
          [OF _ example_styles(3) nm(3) example_texts(3) example_measures(2)
              example_column_widths(3) w64])
       (simp add: isTextual_spec_def cellFar_def)
  have c3: "freeColumn farEnv (Some 1) farCellMap noMerges noStyleIndex 100"
    "freeColumn farEnv (Some 1) farCellMap noMerges noStyleIndex 101"
    by (code_simp, code_simp)
  have c5: "nonEmptyColumn farEnv (Some 1) farCellMap noStyleIndex 102"
    by code_simp
  have "\<forall>k. (99::int) < k \<and> k \<le> 100 \<longrightarrow> freeColumn farEnv (Some 1) farCellMap noMerges noStyleIndex k"
  proof (intro allI impI)
    fix k :: int assume "99 < k \<and> k \<le> 100"
    then have "k = 100" by auto
    with c3 show "freeColumn farEnv (Some 1) farCellMap noMerges noStyleIndex k" by simp
  qed
  with example_eligible(4) example_maxCols(3) c1
  have c7: "getOverflowEndCol farEnv (farCellMap 99) None (Some 1) 99 farCellMap
      noMerges noStyleIndex = Inr (Some 100)"
    by (simp add: getOverflowEndCol_iff)
  txt \<open>The merged range to the right of the text.\<close>
  have d1: "overflowEligible_spec exampleEnv cellLong None (Some 1) 1 mergedBC"
    by (rule overflowEligible_spec_intro
          [OF _ example_styles(1) nm(2) example_texts(1) example_measures(1)
              example_column_widths(1) w64])
       (simp add: isTextual_spec_def cellLong_def)
  have d2: "getCellDisplayText exampleEnv (exampleCellMap 2) (noStyleIndex (Some 1) 2) = Inr []"
    "getCellDisplayText exampleEnv (exampleCellMap 3) (noStyleIndex (Some 1) 3) = Inr []"
    by (code_simp, code_simp)
  have d4: "nonEmptyColumn exampleEnv (Some 1) exampleCellMap noStyleIndex 4"
    by code_simp
  have d5: "mergeHas mergedBC (Some 1) 2" "mergeHas mergedBC (Some 1) 3"
    by (code_simp, code_simp)
  have "scanOverflow exampleEnv (Some 1) exampleCellMap mergedBC noStyleIndex (1 + 1) 1 = Inr 1"
    using d5(1) example_maxCols(1)
    by (simp add: scanOverflow.simps [of exampleEnv "Some 1" exampleCellMap mergedBC noStyleIndex 2 1])
  with getOverflowEndCol_eligible [OF example_eligible(2), of exampleCellMap noStyleIndex]
  have d7: "getOverflowEndCol exampleEnv (Some cellLong) None (Some 1) 1 exampleCellMap
      mergedBC noStyleIndex = Inr None"
    by simp
  from a1 example_column_widths(2) a3 example_maxCols(2) a5 a8
  have A: "overflowEligible_spec narrowEnv cellEmptyText None (Some 1) 1 noMerges \<and>
    calcColumnWidthPx (e_currentMDW narrowEnv) (colWidthOrDefault narrowEnv 1) = Fin 5 \<and>
    measureTextWidth narrowEnv (cellText narrowEnv cellEmptyText) None = 0 \<and>
    e_currentMaxCol narrowEnv = 4 \<and>
    freeColumn narrowEnv (Some 1) emptyTextCellMap noMerges noStyleIndex 2 \<and>
    freeColumn narrowEnv (Some 1) emptyTextCellMap noMerges noStyleIndex 3 \<and>
    freeColumn narrowEnv (Some 1) emptyTextCellMap noMerges noStyleIndex 4 \<and>
    getOverflowEndCol narrowEnv (Some cellEmptyText) None (Some 1) 1 emptyTextCellMap
      noMerges noStyleIndex = Inr None"
    by blast
  from b1 b2 b3
  have B: "cell_t cellFormulaText = Some ''str'' \<and>
    \<not> overflowEligible_spec exampleEnv cellFormulaText None (Some 1) 1 noMerges \<and>
    getOverflowEndCol exampleEnv (Some cellFormulaText) None (Some 1) 1 formulaCellMap
      noMerges noStyleIndex = Inr (Some 3)"
    by blast
  from c1 c2 c3 c5 example_maxCols(3) c7
  have C: "farCellMap 99 = Some cellFar \<and>
    overflowEligible_spec farEnv cellFar None (Some 1) 99 noMerges \<and>
    freeColumn farEnv (Some 1) farCellMap noMerges noStyleIndex 100 \<and>
    freeColumn farEnv (Some 1) farCellMap noMerges noStyleIndex 101 \<and>
    nonEmptyColumn farEnv (Some 1) farCellMap noStyleIndex 102 \<and>
    e_currentMaxCol farEnv = 100 \<and>
    getOverflowEndCol farEnv (farCellMap 99) None (Some 1) 99 farCellMap
      noMerges noStyleIndex = Inr (Some 100)"
    by blast
  from d1 d2 d4 d5 d7
  have D: "overflowEligible_spec exampleEnv cellLong None (Some 1) 1 mergedBC \<and>
    getCellDisplayText exampleEnv (exampleCellMap 2) (noStyleIndex (Some 1) 2) = Inr [] \<and>
    getCellDisplayText exampleEnv (exampleCellMap 3) (noStyleIndex (Some 1) 3) = Inr [] \<and>
    nonEmptyColumn exampleEnv (Some 1) exampleCellMap noStyleIndex 4 \<and>
    mergeHas mergedBC (Some 1) 2 \<and> mergeHas mergedBC (Some 1) 3 \<and>
    getOverflowEndCol exampleEnv (Some cellLong) None (Some 1) 1 exampleCellMap
      mergedBC noStyleIndex = Inr None"
    by blast
  from A B C D show ?thesis by blast
qed

theorem getOverflowEndCol_rule_witness:
  "overflowEligible exampleEnv cellLong None (Some 1) 1 noMerges \<and>
   freeColumn exampleEnv (Some 1) exampleCellMap noMerges noStyleIndex 2 \<and>
   freeColumn exampleEnv (Some 1) exampleCellMap noMerges noStyleIndex 3 \<and>
   nonEmptyColumn exampleEnv (Some 1) exampleCellMap noStyleIndex 4 \<and>
   getCellDisplayText exampleEnv (exampleCellMap 4) (noStyleIndex (Some 1) 4) = Inr ''12.5'' \<and>
   getOverflowEndCol exampleEnv (Some cellLong) None (Some 1) 1 exampleCellMap
     noMerges noStyleIndex = Inr (Some 3) \<and>
   getOverflowEndCol exampleEnv (Some cellShort) None (Some 1) 4 exampleCellMap
     noMerges noStyleIndex = Inr None \<and>
   overflowEligible exampleEnv cellLong None (Some 1) 1 mergedBC \<and>
   blockedColumn exampleEnv (Some 1) exampleCellMap mergedBC noStyleIndex 2 \<and>
   getOverflowEndCol exampleEnv (Some cellLong) None (Some 1) 1 exampleCellMap
     mergedBC noStyleIndex = Inr None"
proof -
  note a = example_eligible(1)
  note a' = example_eligible(2)
  have b2: "blockedColumn exampleEnv (Some 1) exampleCellMap mergedBC noStyleIndex (1 + 1)"
    by code_simp
  have f2: "freeColumn exampleEnv (Some 1) exampleCellMap noMerges noStyleIndex (1 + 1)"
    by code_simp
  have f3: "freeColumn exampleEnv (Some 1) exampleCellMap noMerges noStyleIndex (1 + 2)"
    by code_simp
  have b4: "nonEmptyColumn exampleEnv (Some 1) exampleCellMap noStyleIndex (1 + 3)"
    by code_simp
  have t4: "getCellDisplayText exampleEnv (exampleCellMap 4) (noStyleIndex (Some 1) 4) = Inr ''12.5''"
    by code_simp
  have m: "(1::int) + 2 \<le> e_currentMaxCol exampleEnv"
    by code_simp
  have n: "\<not> overflowEligible exampleEnv cellShort None (Some 1) 4 noMerges"
    by (simp add: overflowEligible_def isTextType_def cellShort_def)
  from getOverflowEndCol_rule
         [of exampleEnv "Some cellLong" None "Some 1" 1 exampleCellMap noMerges noStyleIndex 3]
    a f2 f3 b4 m
  have x: "getOverflowEndCol exampleEnv (Some cellLong) None (Some 1) 1 exampleCellMap noMerges
             noStyleIndex = Inr (Some (1 + 2))"
    by blast
  from getOverflowEndCol_rule
         [of exampleEnv "Some cellShort" None "Some 1" 4 exampleCellMap noMerges noStyleIndex 4] n
  have y: "getOverflowEndCol exampleEnv (Some cellShort) None (Some 1) 4 exampleCellMap noMerges
             noStyleIndex = Inr None"
    by blast
  from getOverflowEndCol_rule
         [of exampleEnv "Some cellLong" None "Some 1" 1 exampleCellMap mergedBC noStyleIndex 2]
    a' b2
  have z: "getOverflowEndCol exampleEnv (Some cellLong) None (Some 1) 1 exampleCellMap mergedBC
             noStyleIndex = Inr None"
    by blast
  from a f2 f3 b4 t4 x y a' b2 z show ?thesis by simp
qed

end
